theory Spec2Isabelle
  imports Main "HOL-Library.Sublist"
begin

section \<open>Provider resolution and fallback: the data model\<close>

text \<open>
  The development embeds \<^verbatim>\<open>backend/app/core/plugin_loader.py\<close> (class
  \<^verbatim>\<open>PluginLoader\<close>) and \<^verbatim>\<open>backend/app/core/ai_fallback.py\<close> (class
  \<^verbatim>\<open>AIProviderWithFallback\<close>).

  Capability names and provider names are Python strings. The fallback field of a
  configuration section is, by the types of \<^verbatim>\<open>config.py\<close>, a string
  (\<^verbatim>\<open>ContentConfig.fallback\<close>), a list of strings (\<^verbatim>\<open>AIConfig.fallback\<close>),
  or not an attribute of the section at all (\<^verbatim>\<open>TTSConfig\<close> and the others).
\<close>

type_synonym capability = string
type_synonym provider_name = string

datatype fallback_field =
    FallbackAbsent
  | FallbackStr string
  | FallbackList "string list"

record provider_config =
  provider :: provider_name
  fallback :: fallback_field

text \<open>
  Exceptions as values. \<open>AttributeError\<close> is what \<^verbatim>\<open>getattr(settings, plugin_type)\<close>
  or \<^verbatim>\<open>.provider\<close> raises for a name without a provider section; \<open>ValueError\<close>
  carries its message; \<open>ProviderError\<close> is any exception raised by the code of a
  provider (import, constructor, operation), with its \<^verbatim>\<open>str(e)\<close>; \<open>LoadFailed\<close> is
  the \<^verbatim>\<open>RuntimeError\<close> of \<^verbatim>\<open>PluginLoader.load\<close>, with the three values its
  message is formatted from (plugin type, \<^verbatim>\<open>providers_to_try\<close>, \<^verbatim>\<open>last_error\<close>);
  \<open>AllFailed\<close> is the \<^verbatim>\<open>RuntimeError\<close> of \<^verbatim>\<open>generate_script\<close>, with
  \<^verbatim>\<open>tried_providers\<close> and \<^verbatim>\<open>last_error\<close>; \<open>MarkupError\<close> is what the console
  raises when it is given a text with an unmatched closing tag.
\<close>

datatype exn =
    AttributeError string
  | ValueError string
  | ProviderError string
  | LoadFailed capability "provider_name list" "exn option"
  | AllFailed "provider_name list" "exn option"
  | MarkupError

text \<open>
  The calls to the logger and the console, in the order the code makes them. Each
  constructor is one call site.
\<close>

datatype event =
    UsingCached capability
  | LoadingPlugin capability
  | AttemptingToLoad capability provider_name
  | UnknownProviderWarning capability provider_name
  | Importing string
  | ProviderActive capability provider_name
  | PluginLoaded capability provider_name bool
  | FailedToLoad capability provider_name exn
  | LogError exn
  | CacheCleared
  | FailedPrimary exn
  | FailedFallback provider_name exn
  | SwitchedToFallback provider_name
  | Generating provider_name
  | Generated provider_name bool
  | QuotaExceeded provider_name
  | ErrorWith provider_name string

text \<open>
  The providers themselves are external. \<open>construct env class_path cfg\<close> stands for
  \<^verbatim>\<open>import_module\<close>, \<^verbatim>\<open>getattr(module, class_name)\<close> and
  \<^verbatim>\<open>plugin_class(provider_config)\<close>: it yields the instance, or the message of the
  exception one of the three raised. \<open>operate env inst content\<close> stands for
  \<^verbatim>\<open>await inst.generate_script(content)\<close>. Both are taken to be deterministic: what
  a constructor does depends on the class and the configuration it is given, what an
  operation does on the instance and the content. Only exceptions that
  \<^verbatim>\<open>except Exception\<close> catches are modelled.

  \<^verbatim>\<open>log_error\<close> (\<^verbatim>\<open>logger.py\<close>, line 68) prints its message through the console
  markup of the \<^verbatim>\<open>rich\<close> library, which is not part of the repository and raises
  \<^verbatim>\<open>MarkupError\<close> on some texts. \<open>markup_error env msg\<close> says whether the text of a
  provider's exception is such a text. Plugin types, provider names and the messages that
  the loader words itself are taken to be free of markup, and so are the texts of the
  other console lines.
\<close>

record ('i, 'c, 'r) env =
  construct :: "string \<Rightarrow> provider_config \<Rightarrow> string + 'i"
  operate :: "'i \<Rightarrow> 'c \<Rightarrow> string + 'r"
  markup_error :: "string \<Rightarrow> bool"

text \<open>
  The process-wide mutable state: \<^verbatim>\<open>PluginLoader._cache\<close>, the settings object
  returned by \<^verbatim>\<open>get_settings()\<close> (one entry per section that has a
  \<^verbatim>\<open>provider\<close> attribute), and what has been logged so far.

  The wrapper keeps in \<^verbatim>\<open>self.settings\<close> a reference to the settings object that
  \<^verbatim>\<open>get_settings()\<close> returned when it was built. As long as the global is not
  rebound this is the object that \<^verbatim>\<open>load\<close> reads: \<open>settings_stale\<close> is \<open>None\<close>.
  Once \<^verbatim>\<open>load_config\<close> or \<^verbatim>\<open>reload_config\<close> has rebound the global, the wrapper
  holds an object of its own, with the content given by \<open>settings_stale\<close>.
\<close>

record 'i state =
  cache :: "capability \<rightharpoonup> 'i"
  settings :: "capability \<rightharpoonup> provider_config"
  log :: "event list"

record 'i wrapper =
  primary_provider_name :: provider_name
  fallback_providers :: fallback_field
  providers_to_try :: "provider_name list"
  current_provider :: "'i option"
  current_provider_name :: "provider_name option"
  settings_stale :: "(capability \<rightharpoonup> provider_config) option"

definition emit :: "event \<Rightarrow> 'i state \<Rightarrow> 'i state" where
  "emit e s = s\<lparr>log := log s @ [e]\<rparr>"

section \<open>The registry\<close>

definition PLUGIN_REGISTRY :: "(capability \<times> (provider_name \<times> string) list) list" where
  "PLUGIN_REGISTRY =
    [(''content'',
        [(''reddit'', ''app.plugins.content.reddit_plugin.RedditProvider''),
         (''quotes'', ''app.plugins.content.quotes_plugin.QuotesProvider''),
         (''facts'', ''app.plugins.content.facts_plugin.FactsProvider'')]),
     (''ai'',
        [(''langchain'', ''app.plugins.ai.langchain_plugin.LangChainProvider''),
         (''crewai'', ''app.plugins.ai.crewai_plugin.CrewAIProvider''),
         (''openai_direct'', ''app.plugins.ai.openai_plugin.OpenAIProvider''),
         (''groq'', ''app.plugins.ai.groq_plugin.GroqProvider''),
         (''huggingface'', ''app.plugins.ai.huggingface_plugin.HuggingFaceProvider'')]),
     (''tts'',
        [(''gtts'', ''app.plugins.tts.gtts_plugin.GTTSProvider''),
         (''elevenlabs'', ''app.plugins.tts.elevenlabs_plugin.ElevenLabsProvider''),
         (''edge_tts'', ''app.plugins.tts.edge_tts_plugin.EdgeTTSProvider'')]),
     (''video'',
        [(''moviepy'', ''app.plugins.video.moviepy_plugin.MoviePyProvider'')]),
     (''upload'',
        [(''youtube'', ''app.plugins.upload.youtube_plugin.YouTubeProvider''),
         (''none'', ''app.plugins.upload.none_plugin.NoneProvider'')]),
     (''database'',
        [(''supabase'', ''app.plugins.database.supabase_plugin.SupabaseProvider''),
         (''sqlite'', ''app.plugins.database.sqlite_plugin.SQLiteProvider'')])]"

section \<open>Building the list of providers to try\<close>

text \<open>
  \<^verbatim>\<open>PluginLoader.load\<close>, lines 87 to 99: the primary, then the fallbacks that
  differ from it. A list is filtered; a non-empty string other than the primary is
  appended; anything else adds nothing.
\<close>

definition load_providers_to_try :: "provider_config \<Rightarrow> provider_name list" where
  "load_providers_to_try provider_config =
    (let primary_provider = provider provider_config in
     [primary_provider] @
       (case fallback provider_config of
          FallbackAbsent \<Rightarrow> []
        | FallbackList fallback_list \<Rightarrow> filter (\<lambda>p. p \<noteq> primary_provider) fallback_list
        | FallbackStr fallback_list \<Rightarrow>
            (if fallback_list \<noteq> [] then
               (if fallback_list \<noteq> primary_provider then [fallback_list] else [])
             else [])))"

text \<open>
  \<^verbatim>\<open>AIProviderWithFallback.__init__\<close>, lines 29 to 40. An absent attribute reads as
  the empty list (\<^verbatim>\<open>getattr(..., 'fallback', [])\<close>).
\<close>

definition init_providers_to_try :: "provider_name \<Rightarrow> fallback_field \<Rightarrow> provider_name list" where
  "init_providers_to_try primary fb =
    [primary] @
      (case fb of
         FallbackAbsent \<Rightarrow> filter (\<lambda>p. p \<noteq> primary) []
       | FallbackList fs \<Rightarrow> filter (\<lambda>p. p \<noteq> primary) fs
       | FallbackStr f \<Rightarrow>
           (if f \<noteq> [] then
              (if f \<noteq> primary then [f] else [])
            else []))"

text \<open>
  The chain as the specification words it, for comparison: the primary, then each
  fallback name in order, skipping a name equal to the primary or already in the chain.
  A scalar is a one-element list; an empty string or an absent field is no fallback.
\<close>

definition fallback_names :: "fallback_field \<Rightarrow> provider_name list" where
  "fallback_names fb =
    (case fb of
       FallbackAbsent \<Rightarrow> []
     | FallbackStr f \<Rightarrow> (if f = [] then [] else [f])
     | FallbackList fs \<Rightarrow> fs)"

fun spec_append_fallbacks :: "provider_name list \<Rightarrow> provider_name list \<Rightarrow> provider_name list" where
  "spec_append_fallbacks chain [] = chain"
| "spec_append_fallbacks chain (f # fs) =
     (if f \<in> set chain then spec_append_fallbacks chain fs
      else spec_append_fallbacks (chain @ [f]) fs)"

definition spec_chain :: "provider_name \<Rightarrow> fallback_field \<Rightarrow> provider_name list" where
  "spec_chain p fb = spec_append_fallbacks [p] (fallback_names fb)"

section \<open>PluginLoader\<close>

text \<open>
  The loop of \<^verbatim>\<open>load\<close>, lines 104 to 159, over the providers still to try.
  \<open>all_providers\<close> is \<^verbatim>\<open>providers_to_try\<close> (for the final message), \<open>last_error\<close>
  the variable of that name. The \<^verbatim>\<open>raise ValueError\<close> of line 110 is inside the
  \<^verbatim>\<open>try\<close> and is caught by line 146 like any other exception; an unknown provider
  name takes the \<^verbatim>\<open>continue\<close> of line 117 and leaves \<open>last_error\<close> as it is.
  After the loop, \<^verbatim>\<open>log_error\<close> is called on the message, which ends with the text
  of the last error, before the \<^verbatim>\<open>raise\<close> of line 159: when the console cannot
  render that text, its \<^verbatim>\<open>MarkupError\<close> is what leaves \<^verbatim>\<open>load\<close>.
\<close>

definition unprintable :: "('i, 'c, 'r) env \<Rightarrow> exn option \<Rightarrow> bool" where
  "unprintable env last_error =
     (case last_error of Some (ProviderError msg) \<Rightarrow> markup_error env msg | _ \<Rightarrow> False)"

fun load_loop ::
  "('i, 'c, 'r) env \<Rightarrow> capability \<Rightarrow> provider_config \<Rightarrow> provider_name list \<Rightarrow>
   provider_name list \<Rightarrow> exn option \<Rightarrow> 'i state \<Rightarrow> (exn + 'i) \<times> 'i state" where
  "load_loop env plugin_type provider_config all_providers [] last_error s =
     (if unprintable env last_error then (Inl MarkupError, s)
      else (Inl (LoadFailed plugin_type all_providers last_error),
            emit (LogError (LoadFailed plugin_type all_providers last_error)) s))"
| "load_loop env plugin_type provider_config all_providers (provider_name # rest) last_error s =
     (let s1 = emit (AttemptingToLoad plugin_type provider_name) s in
      case map_of PLUGIN_REGISTRY plugin_type of
        None \<Rightarrow>
          (let e = ValueError (''Unknown plugin type: '' @ plugin_type) in
           load_loop env plugin_type provider_config all_providers rest (Some e)
             (emit (FailedToLoad plugin_type provider_name e) s1))
      | Some providers \<Rightarrow>
          (case map_of providers provider_name of
             None \<Rightarrow>
               load_loop env plugin_type provider_config all_providers rest last_error
                 (emit (UnknownProviderWarning plugin_type provider_name) s1)
           | Some class_path \<Rightarrow>
               (let s2 = emit (Importing class_path) s1 in
                case construct env class_path provider_config of
                  Inl msg \<Rightarrow>
                    load_loop env plugin_type provider_config all_providers rest
                      (Some (ProviderError msg))
                      (emit (FailedToLoad plugin_type provider_name (ProviderError msg)) s2)
                | Inr plugin_instance \<Rightarrow>
                    (Inr plugin_instance,
                     emit (PluginLoaded plugin_type provider_name
                             (provider_name \<noteq> provider provider_config))
                       (emit (ProviderActive plugin_type provider_name)
                          (s2\<lparr>cache := (cache s2)(plugin_type \<mapsto> plugin_instance)\<rparr>))))))"

text \<open>Lines 80 to 99: what \<^verbatim>\<open>load\<close> does once the cache has not answered.\<close>

definition load_fresh ::
  "('i, 'c, 'r) env \<Rightarrow> capability \<Rightarrow> 'i state \<Rightarrow> (exn + 'i) \<times> 'i state" where
  "load_fresh env plugin_type s =
     (let s0 = emit (LoadingPlugin plugin_type) s in
      case settings s0 plugin_type of
        None \<Rightarrow> (Inl (AttributeError plugin_type), s0)
      | Some provider_config \<Rightarrow>
          load_loop env plugin_type provider_config
            (load_providers_to_try provider_config) (load_providers_to_try provider_config)
            None s0)"

definition load ::
  "('i, 'c, 'r) env \<Rightarrow> capability \<Rightarrow> bool \<Rightarrow> 'i state \<Rightarrow> (exn + 'i) \<times> 'i state" where
  "load env plugin_type force_reload s =
     (case cache s plugin_type of
        Some cached \<Rightarrow>
          (if \<not> force_reload then (Inr cached, emit (UsingCached plugin_type) s)
           else load_fresh env plugin_type s)
      | None \<Rightarrow> load_fresh env plugin_type s)"

definition clear_cache :: "'i state \<Rightarrow> 'i state" where
  "clear_cache s = emit CacheCleared (s\<lparr>cache := Map.empty\<rparr>)"

section \<open>The error classification of generate_script\<close>

text \<open>
  \<^verbatim>\<open>str.lower()\<close> on the letters A to Z; every other character of the message is
  left as it is, which does not change whether one of the patterns below (all of them
  lower-case ASCII) occurs.
\<close>

definition lower_char :: "char \<Rightarrow> char" where
  "lower_char c =
     (let n = (of_char c :: nat) in if 65 \<le> n \<and> n \<le> 90 then char_of (n + 32) else c)"

definition lower :: "string \<Rightarrow> string" where
  "lower s = map lower_char s"

text \<open>Python's \<^verbatim>\<open>x in s\<close> on strings: \<open>x\<close> occurs in \<open>s\<close> as a contiguous block.\<close>

fun str_in :: "string \<Rightarrow> string \<Rightarrow> bool" where
  "str_in x [] = (x = [])"
| "str_in x (c # cs) = (prefix x (c # cs) \<or> str_in x cs)"

definition quota_patterns :: "string list" where
  "quota_patterns =
     [''quota'', ''rate limit'', ''429'', ''too many requests'',
      ''resource_exhausted'', ''exceeded'']"

text \<open>Lines 118 to 124, on the message \<^verbatim>\<open>str(e)\<close>.\<close>

definition is_quota_error :: "string \<Rightarrow> bool" where
  "is_quota_error msg =
     (let error_msg = lower msg in list_ex (\<lambda>x. str_in x error_msg) quota_patterns)"

text \<open>
  The classifier as the specification words it: the four substrings it names, matched
  without regard to case.
\<close>

definition spec_transient_patterns :: "string list" where
  "spec_transient_patterns = [''quota'', ''rate limit'', ''429'', ''resource exhausted'']"

definition spec_is_transient :: "string \<Rightarrow> bool" where
  "spec_is_transient msg = list_ex (\<lambda>x. str_in x (lower msg)) spec_transient_patterns"

section \<open>AIProviderWithFallback\<close>

definition load_primary ::
  "('i, 'c, 'r) env \<Rightarrow> 'i wrapper \<Rightarrow> 'i state \<Rightarrow> 'i wrapper \<times> 'i state" where
  "load_primary env w s =
     (case load env ''ai'' False s of
        (Inr p, s') \<Rightarrow>
          (w\<lparr>current_provider := Some p,
              current_provider_name := Some (primary_provider_name w)\<rparr>, s')
      | (Inl e, s') \<Rightarrow>
          (w\<lparr>current_provider := None\<rparr>, emit (FailedPrimary e) s'))"

text \<open>
  \<^verbatim>\<open>_load_fallback\<close>, lines 55 to 78. The provider is restored on line 68 only when
  \<^verbatim>\<open>load\<close> has returned; when it raises, the \<^verbatim>\<open>except\<close> of line 76 is entered
  with the override still in place. The override and the restoring are written to the
  wrapper's settings object: when that is still the global one \<^verbatim>\<open>load\<close> reads the
  override, and when it is an object of the wrapper's own \<^verbatim>\<open>load\<close> reads the
  global settings as they are.
\<close>

definition load_fallback ::
  "('i, 'c, 'r) env \<Rightarrow> provider_name \<Rightarrow> 'i wrapper \<Rightarrow> 'i state \<Rightarrow>
   bool \<times> 'i wrapper \<times> 'i state" where
  "load_fallback env provider_name w s =
     (let s1 = s\<lparr>cache := (cache s)(''ai'' := None)\<rparr> in
      case settings_stale w of
        None \<Rightarrow>
          (case settings s1 ''ai'' of
             None \<Rightarrow> (False, w, emit (FailedFallback provider_name (AttributeError ''ai'')) s1)
           | Some ai \<Rightarrow>
               (let original_provider = provider ai;
                    s2 = s1\<lparr>settings :=
                              (settings s1)(''ai'' \<mapsto> ai\<lparr>provider := provider_name\<rparr>)\<rparr>
                in case load env ''ai'' True s2 of
                     (Inl e, s3) \<Rightarrow> (False, w, emit (FailedFallback provider_name e) s3)
                   | (Inr p, s3) \<Rightarrow>
                       (True,
                        w\<lparr>current_provider := Some p,
                            current_provider_name := Some provider_name\<rparr>,
                        emit (SwitchedToFallback provider_name)
                          (s3\<lparr>settings :=
                                (settings s3)(''ai'' \<mapsto> ai\<lparr>provider := original_provider\<rparr>)\<rparr>))))
      | Some own \<Rightarrow>
          (case own ''ai'' of
             None \<Rightarrow> (False, w, emit (FailedFallback provider_name (AttributeError ''ai'')) s1)
           | Some ai \<Rightarrow>
               (let original_provider = provider ai;
                    w1 = w\<lparr>settings_stale :=
                             Some (own(''ai'' \<mapsto> ai\<lparr>provider := provider_name\<rparr>))\<rparr>
                in case load env ''ai'' True s1 of
                     (Inl e, s3) \<Rightarrow> (False, w1, emit (FailedFallback provider_name e) s3)
                   | (Inr p, s3) \<Rightarrow>
                       (True,
                        w\<lparr>current_provider := Some p,
                            current_provider_name := Some provider_name,
                            settings_stale :=
                              Some (own(''ai'' \<mapsto> ai\<lparr>provider := original_provider\<rparr>))\<rparr>,
                        emit (SwitchedToFallback provider_name) s3))))"

text \<open>
  \<^verbatim>\<open>__init__\<close>, lines 26 to 44; \<^verbatim>\<open>self.settings.ai.provider\<close> raises when there is no
  such section.
\<close>

definition wrapper_init ::
  "('i, 'c, 'r) env \<Rightarrow> 'i state \<Rightarrow> (exn + 'i wrapper) \<times> 'i state" where
  "wrapper_init env s =
     (case settings s ''ai'' of
        None \<Rightarrow> (Inl (AttributeError ''ai''), s)
      | Some ai \<Rightarrow>
          (let w = \<lparr>primary_provider_name = provider ai,
                    fallback_providers = fallback ai,
                    providers_to_try = init_providers_to_try (provider ai) (fallback ai),
                    current_provider = None,
                    current_provider_name = None,
                    settings_stale = None\<rparr>
           in case load_primary env w s of (w', s') \<Rightarrow> (Inr w', s')))"

text \<open>
  Lines 91 to 97 of \<^verbatim>\<open>generate_script\<close>: load the provider if the wrapper does not
  hold one under this name. The result is \<open>False\<close> exactly on the \<^verbatim>\<open>continue\<close> of
  line 97.
\<close>

definition ensure_loaded ::
  "('i, 'c, 'r) env \<Rightarrow> provider_name \<Rightarrow> 'i wrapper \<Rightarrow> 'i state \<Rightarrow>
   bool \<times> 'i wrapper \<times> 'i state" where
  "ensure_loaded env provider_name w s =
     (if current_provider_name w \<noteq> Some provider_name then
        (if provider_name = primary_provider_name w then
           (case load_primary env w s of (w', s') \<Rightarrow> (True, w', s'))
         else load_fallback env provider_name w s)
      else (True, w, s))"

text \<open>
  One pass through the body of the loop of \<^verbatim>\<open>generate_script\<close>, lines 90 to
  132, for one provider name. The body is left in one of three ways: by the
  \<^verbatim>\<open>return\<close> of line 114, by an exception of the operation caught on line 116,
  or by a \<^verbatim>\<open>continue\<close> of line 97 or 100 before the operation is called.
\<close>

datatype 'r outcome = Returned 'r | Raised string | Skipped

definition attempt_provider ::
  "('i, 'c, 'r) env \<Rightarrow> 'c \<Rightarrow> provider_name \<Rightarrow> 'i wrapper \<Rightarrow> 'i state \<Rightarrow>
   'r outcome \<times> 'i wrapper \<times> 'i state" where
  "attempt_provider env content provider_name w s =
     (case ensure_loaded env provider_name w s of
        (False, w1, s1) \<Rightarrow> (Skipped, w1, s1)
      | (True, w1, s1) \<Rightarrow>
          (case current_provider w1 of
             None \<Rightarrow> (Skipped, w1, s1)
           | Some p \<Rightarrow>
               (let s2 = emit (Generating provider_name) s1 in
                case operate env p content of
                  Inr result \<Rightarrow>
                    (Returned result, w1,
                     emit (Generated provider_name (provider_name \<noteq> primary_provider_name w1)) s2)
                | Inl msg \<Rightarrow>
                    (Raised msg, w1,
                     emit (if is_quota_error msg then QuotaExceeded provider_name
                           else ErrorWith provider_name msg) s2))))"

text \<open>
  The loop of \<^verbatim>\<open>generate_script\<close>, lines 89 to 140, over the providers still to
  try, with the local variables \<^verbatim>\<open>tried_providers\<close> (appended to on line 102, just
  before the operation is called) and \<^verbatim>\<open>last_error\<close>. After the loop,
  \<^verbatim>\<open>log_error\<close> (line 139) comes before the \<^verbatim>\<open>raise\<close> of line 140, as in
  \<^verbatim>\<open>load\<close>.
\<close>

fun try_providers ::
  "('i, 'c, 'r) env \<Rightarrow> 'c \<Rightarrow> provider_name list \<Rightarrow> provider_name list \<Rightarrow> exn option \<Rightarrow>
   'i wrapper \<Rightarrow> 'i state \<Rightarrow> (exn + 'r) \<times> 'i wrapper \<times> 'i state" where
  "try_providers env content [] tried_providers last_error w s =
     (if unprintable env last_error then (Inl MarkupError, w, s)
      else (Inl (AllFailed tried_providers last_error), w,
            emit (LogError (AllFailed tried_providers last_error)) s))"
| "try_providers env content (provider_name # rest) tried_providers last_error w s =
     (case attempt_provider env content provider_name w s of
        (Skipped, w1, s1) \<Rightarrow> try_providers env content rest tried_providers last_error w1 s1
      | (Returned result, w1, s1) \<Rightarrow> (Inr result, w1, s1)
      | (Raised msg, w1, s1) \<Rightarrow>
          try_providers env content rest (tried_providers @ [provider_name])
            (Some (ProviderError msg)) w1 s1)"

definition generate_script ::
  "('i, 'c, 'r) env \<Rightarrow> 'i wrapper \<Rightarrow> 'i state \<Rightarrow> 'c \<Rightarrow> (exn + 'r) \<times> 'i wrapper \<times> 'i state" where
  "generate_script env w s content =
     try_providers env content (providers_to_try w) [] None w s"

text \<open>The \<^verbatim>\<open>current_provider_name\<close> property, lines 142 to 145.\<close>

definition current_provider_name_prop :: "'i wrapper \<Rightarrow> string" where
  "current_provider_name_prop w =
     (case current_provider_name w of
        None \<Rightarrow> ''none''
      | Some n \<Rightarrow> (if n = [] then ''none'' else n))"

text \<open>
  \<^verbatim>\<open>load_config\<close> and \<^verbatim>\<open>reload_config\<close> of \<^verbatim>\<open>config.py\<close> bind the global to a
  new settings object, read from the configuration file. A wrapper that was built before
  keeps the object it has.
\<close>

definition load_config ::
  "(capability \<rightharpoonup> provider_config) \<Rightarrow> 'i wrapper \<Rightarrow> 'i state \<Rightarrow> 'i wrapper \<times> 'i state" where
  "load_config new_settings w s =
     (w\<lparr>settings_stale :=
          (case settings_stale w of None \<Rightarrow> Some (settings s) | Some own \<Rightarrow> Some own)\<rparr>,
      s\<lparr>settings := new_settings\<rparr>)"

text \<open>
  The first use of the wrapper in a process, as in \<^verbatim>\<open>test_full_pipeline.py\<close>, lines
  71 and 72: \<^verbatim>\<open>get_ai_provider()\<close> finds no singleton and constructs the wrapper,
  and \<^verbatim>\<open>generate_script\<close> is called on it.
\<close>

definition first_call ::
  "('i, 'c, 'r) env \<Rightarrow> 'i state \<Rightarrow> 'c \<Rightarrow> (exn + 'r) \<times> 'i wrapper option \<times> 'i state" where
  "first_call env s content =
     (case wrapper_init env s of
        (Inl e, s1) \<Rightarrow> (Inl e, None, s1)
      | (Inr w, s1) \<Rightarrow>
          (case generate_script env w s1 content of (r, w', s2) \<Rightarrow> (r, Some w', s2)))"

section \<open>What a run shows, and what it means for a candidate to fail\<close>

text \<open>
  Projections of the log: the provider names of the "Attempting to load" lines of
  \<^verbatim>\<open>load\<close> (line 106), the class paths of its "Importing" lines (line 123, written
  just before the import and the constructor call), and the provider names of the
  "Generating script with" lines of \<^verbatim>\<open>generate_script\<close> (line 105, written just
  before the operation is called).
\<close>

definition attempts_of :: "event list \<Rightarrow> provider_name list" where
  "attempts_of es =
     concat (map (\<lambda>e. case e of AttemptingToLoad c n \<Rightarrow> [n] | _ \<Rightarrow> []) es)"

definition imports_of :: "event list \<Rightarrow> string list" where
  "imports_of es =
     concat (map (\<lambda>e. case e of Importing class_path \<Rightarrow> [class_path] | _ \<Rightarrow> []) es)"

definition generating_of :: "event list \<Rightarrow> provider_name list" where
  "generating_of es =
     concat (map (\<lambda>e. case e of Generating n \<Rightarrow> [n] | _ \<Rightarrow> []) es)"

text \<open>The two log lines whose choice depends on the classification of the error.\<close>

definition is_classification :: "event \<Rightarrow> bool" where
  "is_classification e =
     (case e of QuotaExceeded n \<Rightarrow> True | ErrorWith n m \<Rightarrow> True | _ \<Rightarrow> False)"

definition without_classification :: "event list \<Rightarrow> event list" where
  "without_classification es = filter (\<lambda>e. \<not> is_classification e) es"

text \<open>
  An instance is well constructed when it is what some constructor call returned. The
  invariant of the cache: every instance it holds is well constructed.
\<close>

definition well_constructed :: "('i, 'c, 'r) env \<Rightarrow> 'i \<Rightarrow> bool" where
  "well_constructed env inst \<longleftrightarrow> (\<exists>class_path cfg. construct env class_path cfg = Inr inst)"

definition cache_inv :: "('i, 'c, 'r) env \<Rightarrow> 'i state \<Rightarrow> bool" where
  "cache_inv env s \<longleftrightarrow> (\<forall>pt inst. cache s pt = Some inst \<longrightarrow> well_constructed env inst)"

text \<open>
  A candidate of \<^verbatim>\<open>load\<close> fails when the loop body does not reach the
  \<^verbatim>\<open>return\<close> of line 144: the plugin type or the provider name is not in the
  registry, or the import or the constructor raises.
\<close>

definition load_candidate_fails ::
  "('i, 'c, 'r) env \<Rightarrow> capability \<Rightarrow> provider_config \<Rightarrow> provider_name \<Rightarrow> bool" where
  "load_candidate_fails env plugin_type provider_config provider_name =
     (case map_of PLUGIN_REGISTRY plugin_type of
        None \<Rightarrow> True
      | Some providers \<Rightarrow>
          (case map_of providers provider_name of
             None \<Rightarrow> True
           | Some class_path \<Rightarrow> isl (construct env class_path provider_config)))"

text \<open>
  The error that a failing candidate of \<^verbatim>\<open>load\<close> leaves in \<^verbatim>\<open>last_error\<close>:
  the \<^verbatim>\<open>ValueError\<close> of line 110, the exception of the import or the constructor,
  or nothing when the provider name is unknown (line 117). \<open>load_errors\<close> lists, in
  chain order, the errors that the candidates of a chain leave, and \<open>last_load_error\<close>
  is the last of them: the value of \<^verbatim>\<open>last_error\<close> after a loop in which every
  candidate has failed.
\<close>

definition load_candidate_error ::
  "('i, 'c, 'r) env \<Rightarrow> capability \<Rightarrow> provider_config \<Rightarrow> provider_name \<Rightarrow> exn option" where
  "load_candidate_error env plugin_type provider_config provider_name =
     (case map_of PLUGIN_REGISTRY plugin_type of
        None \<Rightarrow> Some (ValueError (''Unknown plugin type: '' @ plugin_type))
      | Some providers \<Rightarrow>
          (case map_of providers provider_name of
             None \<Rightarrow> None
           | Some class_path \<Rightarrow>
               (case construct env class_path provider_config of
                  Inl msg \<Rightarrow> Some (ProviderError msg)
                | Inr inst \<Rightarrow> None)))"

definition load_errors ::
  "('i, 'c, 'r) env \<Rightarrow> capability \<Rightarrow> provider_config \<Rightarrow> provider_name list \<Rightarrow> exn list" where
  "load_errors env plugin_type provider_config chain =
     List.map_filter (load_candidate_error env plugin_type provider_config) chain"

definition last_load_error ::
  "('i, 'c, 'r) env \<Rightarrow> capability \<Rightarrow> provider_config \<Rightarrow> provider_name list \<Rightarrow> exn option" where
  "last_load_error env plugin_type provider_config chain =
     (let errors = load_errors env plugin_type provider_config chain
      in if errors = [] then None else Some (last errors))"

text \<open>
  An AI candidate by itself. \<open>own_instance env cfg n\<close> is the instance that the
  constructor of the class registered under the name \<open>n\<close> returns when it is given
  the configuration with \<open>n\<close> as its provider, \<open>None\<close> when the name is not
  registered or the constructor raises. \<open>own_outcome env cfg content n\<close> is what the
  operation of that instance does on the content: \<open>Some (Inl msg)\<close> when it raises,
  \<open>Some (Inr result)\<close> when it returns, \<open>None\<close> when there is no instance.
\<close>

definition ai_class_path :: "provider_name \<Rightarrow> string option" where
  "ai_class_path n =
     (case map_of PLUGIN_REGISTRY ''ai'' of None \<Rightarrow> None | Some providers \<Rightarrow> map_of providers n)"

definition own_instance ::
  "('i, 'c, 'r) env \<Rightarrow> provider_config \<Rightarrow> provider_name \<Rightarrow> 'i option" where
  "own_instance env cfg n =
     (case ai_class_path n of
        None \<Rightarrow> None
      | Some class_path \<Rightarrow>
          (case construct env class_path (cfg\<lparr>provider := n\<rparr>) of
             Inl msg \<Rightarrow> None
           | Inr inst \<Rightarrow> Some inst))"

definition own_outcome ::
  "('i, 'c, 'r) env \<Rightarrow> provider_config \<Rightarrow> 'c \<Rightarrow> provider_name \<Rightarrow> (string + 'r) option" where
  "own_outcome env cfg content n =
     (case own_instance env cfg n of
        None \<Rightarrow> None
      | Some inst \<Rightarrow> Some (operate env inst content))"

text \<open>
  The error that a candidate whose operation raises leaves in the \<^verbatim>\<open>last_error\<close> of
  \<^verbatim>\<open>generate_script\<close>.
\<close>

definition own_error ::
  "('i, 'c, 'r) env \<Rightarrow> provider_config \<Rightarrow> 'c \<Rightarrow> provider_name \<Rightarrow> exn option" where
  "own_error env cfg content n =
     (case own_outcome env cfg content n of
        Some (Inl msg) \<Rightarrow> Some (ProviderError msg)
      | _ \<Rightarrow> None)"

text \<open>
  The wrapper is in step with the settings \<open>cfg\<close> of the AI section when it was built
  from them, its settings object is still the global one, and either it holds, under the
  name of the primary, the primary's own instance, or it holds no name and nothing is
  cached for the AI capability. The first is the state in which the constructor leaves a
  wrapper whose primary it has constructed.
\<close>

definition in_step ::
  "('i, 'c, 'r) env \<Rightarrow> provider_config \<Rightarrow> 'i wrapper \<Rightarrow> 'i state \<Rightarrow> bool" where
  "in_step env cfg w s \<longleftrightarrow>
     settings s ''ai'' = Some cfg \<and> settings_stale w = None
     \<and> primary_provider_name w = provider cfg
     \<and> providers_to_try w = init_providers_to_try (provider cfg) (fallback cfg)
     \<and> (case current_provider_name w of
          None \<Rightarrow> cache s ''ai'' = None
        | Some n \<Rightarrow>
            n = provider cfg \<and> own_instance env cfg n \<noteq> None
            \<and> current_provider w = own_instance env cfg n)"

text \<open>
  What holds of such a wrapper before each pass through the loop of
  \<^verbatim>\<open>generate_script\<close>, with \<open>ns\<close> the names still to come: the primary is not among
  them after the first, the instance held under a name is that name's own, and the
  primary is loaded on a cache without an entry.
\<close>

definition loop_inv ::
  "('i, 'c, 'r) env \<Rightarrow> provider_config \<Rightarrow> 'i wrapper \<Rightarrow> 'i state \<Rightarrow> provider_name list \<Rightarrow> bool" where
  "loop_inv env cfg w s ns \<longleftrightarrow>
     settings s ''ai'' = Some cfg \<and> settings_stale w = None
     \<and> primary_provider_name w = provider cfg
     \<and> provider cfg \<notin> set (tl ns)
     \<and> (\<forall>n. current_provider_name w = Some n \<longrightarrow>
            own_instance env cfg n \<noteq> None \<and> current_provider w = own_instance env cfg n)
     \<and> (current_provider_name w \<noteq> Some (provider cfg) \<and> provider cfg \<in> set ns \<longrightarrow>
            cache s ''ai'' = None)"

text \<open>
  Every instance that the cache or the wrapper holds is one that a constructor returned.
\<close>

definition holds_constructed :: "('i, 'c, 'r) env \<Rightarrow> 'i wrapper \<Rightarrow> 'i state \<Rightarrow> bool" where
  "holds_constructed env w s \<longleftrightarrow>
     cache_inv env s \<and> (\<forall>inst. current_provider w = Some inst \<longrightarrow> well_constructed env inst)"

text \<open>
  The providers with every error message of an operation rewritten by \<open>f\<close>: the same
  operations succeed with the same results and the same operations raise, with other
  messages, so that their classification can be any other; the console is the same. Two
  states show the same effects when they agree on the cache, on the settings and on the
  three projections of the log.
\<close>

definition with_messages ::
  "(string \<Rightarrow> string) \<Rightarrow> ('i, 'c, 'r) env \<Rightarrow> ('i, 'c, 'r) env" where
  "with_messages f env =
     env\<lparr>operate := (\<lambda>inst content.
        case operate env inst content of Inl msg \<Rightarrow> Inl (f msg) | Inr result \<Rightarrow> Inr result)\<rparr>"

definition rename_message :: "(string \<Rightarrow> string) \<Rightarrow> exn \<Rightarrow> exn" where
  "rename_message f e = (case e of ProviderError msg \<Rightarrow> ProviderError (f msg) | _ \<Rightarrow> e)"

definition rename_last_error :: "(string \<Rightarrow> string) \<Rightarrow> exn \<Rightarrow> exn" where
  "rename_last_error f e =
     (case e of
        AllFailed tried_providers last_error \<Rightarrow>
          AllFailed tried_providers (map_option (rename_message f) last_error)
      | _ \<Rightarrow> e)"

definition same_effects :: "'i state \<Rightarrow> 'i state \<Rightarrow> bool" where
  "same_effects s t \<longleftrightarrow>
     cache s = cache t \<and> settings s = settings t
     \<and> attempts_of (log s) = attempts_of (log t)
     \<and> imports_of (log s) = imports_of (log t)
     \<and> generating_of (log s) = generating_of (log t)"

section \<open>Concrete configurations and providers\<close>

text \<open>
  The defaults of \<^verbatim>\<open>config.py\<close>, for the six sections that have a provider, and
  the state of a process that has loaded nothing yet.
\<close>

definition default_settings :: "capability \<rightharpoonup> provider_config" where
  "default_settings =
     [''content'' \<mapsto> \<lparr>provider = ''reddit'', fallback = FallbackStr ''quotes''\<rparr>,
      ''ai'' \<mapsto> \<lparr>provider = ''langchain'', fallback = FallbackList []\<rparr>,
      ''tts'' \<mapsto> \<lparr>provider = ''gtts'', fallback = FallbackAbsent\<rparr>,
      ''video'' \<mapsto> \<lparr>provider = ''moviepy'', fallback = FallbackAbsent\<rparr>,
      ''upload'' \<mapsto> \<lparr>provider = ''youtube'', fallback = FallbackAbsent\<rparr>,
      ''database'' \<mapsto> \<lparr>provider = ''sqlite'', fallback = FallbackAbsent\<rparr>]"

definition settings_with_ai :: "provider_name \<Rightarrow> provider_name list \<Rightarrow> capability \<rightharpoonup> provider_config" where
  "settings_with_ai p fs = default_settings(''ai'' \<mapsto> \<lparr>provider = p, fallback = FallbackList fs\<rparr>)"

definition fresh_state :: "(capability \<rightharpoonup> provider_config) \<Rightarrow> string state" where
  "fresh_state cfg = \<lparr>cache = Map.empty, settings = cfg, log = []\<rparr>"

text \<open>
  Providers, with an instance represented by the class path it was constructed from.
  In the first every constructor and every operation succeeds. In the second every
  constructor succeeds and every operation raises. In the third the constructor of
  \<^verbatim>\<open>GroqProvider\<close> raises (as it does without \<^verbatim>\<open>GROQ_API_KEY\<close>) and every
  operation raises. The fourth is the scenario of the specification: the constructor of
  \<^verbatim>\<open>OpenAIProvider\<close> raises, the operation of \<^verbatim>\<open>GroqProvider\<close> raises with a
  rate-limit message, everything else succeeds.
\<close>

definition env_all_succeed :: "(string, string, string) env" where
  "env_all_succeed =
     \<lparr>construct = (\<lambda>class_path cfg. Inr class_path),
      operate = (\<lambda>inst content. Inr (''script by '' @ inst)),
      markup_error = (\<lambda>msg. False)\<rparr>"

definition env_operations_fail :: "(string, string, string) env" where
  "env_operations_fail =
     \<lparr>construct = (\<lambda>class_path cfg. Inr class_path),
      operate = (\<lambda>inst content. Inl ''connection refused''),
      markup_error = (\<lambda>msg. False)\<rparr>"

definition env_groq_unavailable :: "(string, string, string) env" where
  "env_groq_unavailable =
     \<lparr>construct = (\<lambda>class_path cfg.
         if class_path = ''app.plugins.ai.groq_plugin.GroqProvider''
         then Inl ''GROQ_API_KEY not found in environment'' else Inr class_path),
      operate = (\<lambda>inst content. Inl ''connection refused''),
      markup_error = (\<lambda>msg. False)\<rparr>"

definition env_spec_scenario :: "(string, string, string) env" where
  "env_spec_scenario =
     \<lparr>construct = (\<lambda>class_path cfg.
         if class_path = ''app.plugins.ai.openai_plugin.OpenAIProvider''
         then Inl ''OPENAI_API_KEY not found'' else Inr class_path),
      operate = (\<lambda>inst content.
         if inst = ''app.plugins.ai.groq_plugin.GroqProvider''
         then Inl ''429 Too Many Requests'' else Inr (''script by '' @ inst)),
      markup_error = (\<lambda>msg. False)\<rparr>"

text \<open>
  In the fifth the constructor of \<^verbatim>\<open>OpenAIProvider\<close> raises and everything else
  succeeds. In the sixth the constructor of \<^verbatim>\<open>HuggingFaceProvider\<close> raises and
  every operation raises. In the seventh the constructor of \<^verbatim>\<open>GroqProvider\<close>
  raises, and every operation raises on the content \<^verbatim>\<open>first\<close> and returns a result
  on any other content. In all of them the console renders every message.
\<close>

definition env_openai_unavailable :: "(string, string, string) env" where
  "env_openai_unavailable =
     \<lparr>construct = (\<lambda>class_path cfg.
         if class_path = ''app.plugins.ai.openai_plugin.OpenAIProvider''
         then Inl ''OPENAI_API_KEY not found'' else Inr class_path),
      operate = (\<lambda>inst content. Inr (''script by '' @ inst)),
      markup_error = (\<lambda>msg. False)\<rparr>"

definition env_huggingface_unavailable :: "(string, string, string) env" where
  "env_huggingface_unavailable =
     \<lparr>construct = (\<lambda>class_path cfg.
         if class_path = ''app.plugins.ai.huggingface_plugin.HuggingFaceProvider''
         then Inl ''HUGGINGFACE_API_KEY not found'' else Inr class_path),
      operate = (\<lambda>inst content. Inl ''connection refused''),
      markup_error = (\<lambda>msg. False)\<rparr>"

definition env_first_content_fails :: "(string, string, string) env" where
  "env_first_content_fails =
     \<lparr>construct = (\<lambda>class_path cfg.
         if class_path = ''app.plugins.ai.groq_plugin.GroqProvider''
         then Inl ''GROQ_API_KEY not found in environment'' else Inr class_path),
      operate = (\<lambda>inst content.
         if content = ''first'' then Inl ''connection refused''
         else Inr (''script by '' @ inst)),
      markup_error = (\<lambda>msg. False)\<rparr>"

text \<open>
  A settings object with a section for a capability that the registry does not have.
\<close>

definition settings_with_music :: "capability \<rightharpoonup> provider_config" where
  "settings_with_music =
     default_settings(''music'' \<mapsto> \<lparr>provider = ''suno'', fallback = FallbackList [''local'']\<rparr>)"
section \<open>Facts about the loaders and the loops\<close>

subsection \<open>Basic facts\<close>

lemma emit_simps [simp]:
  "cache (emit e s) = cache s" "settings (emit e s) = settings s" "log (emit e s) = log s @ [e]"
  by (simp_all add: emit_def)

lemma attempts_of_simps [simp]:
  "attempts_of [] = []"
  "attempts_of (xs @ ys) = attempts_of xs @ attempts_of ys"
  "attempts_of (e # es) = (case e of AttemptingToLoad c n \<Rightarrow> [n] | _ \<Rightarrow> []) @ attempts_of es"
  by (simp_all add: attempts_of_def)

lemma imports_of_simps [simp]:
  "imports_of [] = []"
  "imports_of (xs @ ys) = imports_of xs @ imports_of ys"
  "imports_of (e # es) = (case e of Importing p \<Rightarrow> [p] | _ \<Rightarrow> []) @ imports_of es"
  by (simp_all add: imports_of_def)

lemma generating_of_simps [simp]:
  "generating_of [] = []"
  "generating_of (xs @ ys) = generating_of xs @ generating_of ys"
  "generating_of (e # es) = (case e of Generating n \<Rightarrow> [n] | _ \<Rightarrow> []) @ generating_of es"
  by (simp_all add: generating_of_def)

subsection \<open>The loop of load\<close>

lemma load_loop_settings:
  "settings (snd (load_loop env pt cfg all rest le s)) = settings s"
  by (induction rest arbitrary: le s) (auto simp: Let_def split: option.splits sum.splits)

lemma load_loop_generating:
  "generating_of (log (snd (load_loop env pt cfg all rest le s))) = generating_of (log s)"
  by (induction rest arbitrary: le s) (auto simp: Let_def split: option.splits sum.splits)

lemma load_loop_cache:
  "load_loop env pt cfg all rest le s = (r, s') \<Longrightarrow>
     (\<exists>e. r = Inl e \<and> cache s' = cache s) \<or>
     (\<exists>inst class_path. r = Inr inst \<and> construct env class_path cfg = Inr inst
        \<and> cache s' = (cache s)(pt \<mapsto> inst))"
proof (induction rest arbitrary: le s)
  case Nil
  then show ?case by (auto split: if_splits)
next
  case (Cons n rest)
  show ?case
  proof (cases "map_of PLUGIN_REGISTRY pt")
    case None
    with Cons.prems Cons.IH show ?thesis by (fastforce simp: Let_def)
  next
    case (Some providers)
    note reg = this
    show ?thesis
    proof (cases "map_of providers n")
      case None
      with reg Cons.prems Cons.IH show ?thesis by (fastforce simp: Let_def)
    next
      case (Some class_path)
      note cp = this
      show ?thesis
      proof (cases "construct env class_path cfg")
        case (Inl msg)
        with cp reg Cons.prems Cons.IH show ?thesis by (fastforce simp: Let_def)
      next
        case (Inr inst)
        with cp reg Cons.prems
        have "r = Inr inst" and "cache s' = (cache s)(pt \<mapsto> inst)"
          by (auto simp: Let_def)
        with Inr show ?thesis by blast
      qed
    qed
  qed
qed

lemma unprintable_simps [simp]:
  "unprintable env None = False"
  "unprintable env (Some (ValueError m)) = False"
  "unprintable env (Some (ProviderError msg)) = markup_error env msg"
  by (simp_all add: unprintable_def)

lemma load_loop_unknown_type:
  assumes "map_of PLUGIN_REGISTRY pt = None" and "rest \<noteq> [] \<or> \<not> unprintable env le"
  shows "fst (load_loop env pt cfg all rest le s) =
           Inl (LoadFailed pt all
                  (if rest = [] then le else Some (ValueError (''Unknown plugin type: '' @ pt))))
         \<and> cache (snd (load_loop env pt cfg all rest le s)) = cache s
         \<and> attempts_of (log (snd (load_loop env pt cfg all rest le s))) = attempts_of (log s) @ rest
         \<and> imports_of (log (snd (load_loop env pt cfg all rest le s))) = imports_of (log s)"
  using assms
proof (induction rest arbitrary: le s)
  case Nil
  then show ?case by simp
next
  case (Cons n rest)
  let ?e = "ValueError (''Unknown plugin type: '' @ pt)"
  let ?s = "emit (FailedToLoad pt n ?e) (emit (AttemptingToLoad pt n) s)"
  have "rest \<noteq> [] \<or> \<not> unprintable env (Some ?e)" by simp
  from Cons.IH [OF Cons.prems(1) this, of ?s] Cons.prems(1)
  show ?case by (simp add: Let_def)
qed

text \<open>Candidates that fail are passed over: the loop goes on with the rest.\<close>

lemma load_errors_simps [simp]:
  "load_errors env pt cfg [] = []"
  "load_errors env pt cfg (n # ns) =
     (case load_candidate_error env pt cfg n of
        None \<Rightarrow> load_errors env pt cfg ns
      | Some e \<Rightarrow> e # load_errors env pt cfg ns)"
  by (simp_all add: load_errors_def map_filter_simps split: option.splits)

lemma load_loop_fail_prefix:
  assumes "\<forall>n \<in> set pre. load_candidate_fails env pt cfg n"
  shows "\<exists>s1. load_loop env pt cfg all (pre @ rest) le s =
             load_loop env pt cfg all rest
               (if load_errors env pt cfg pre = [] then le
                else Some (last (load_errors env pt cfg pre))) s1
           \<and> cache s1 = cache s \<and> settings s1 = settings s
           \<and> attempts_of (log s1) = attempts_of (log s) @ pre
           \<and> generating_of (log s1) = generating_of (log s)
           \<and> set (imports_of (log s1)) \<subseteq> set (imports_of (log s)) \<union>
                {p. \<exists>n\<in>set pre. \<exists>ps. map_of PLUGIN_REGISTRY pt = Some ps \<and> map_of ps n = Some p}"
  using assms
proof (induction pre arbitrary: le s)
  case Nil
  then show ?case by auto
next
  case (Cons n pre)
  from Cons.prems have f: "load_candidate_fails env pt cfg n"
    and rest: "\<forall>n \<in> set pre. load_candidate_fails env pt cfg n" by auto
  show ?case
  proof (cases "map_of PLUGIN_REGISTRY pt")
    case None
    let ?e = "ValueError (''Unknown plugin type: '' @ pt)"
    let ?s = "emit (FailedToLoad pt n ?e) (emit (AttemptingToLoad pt n) s)"
    from None have ce: "load_candidate_error env pt cfg n = Some ?e"
      by (simp add: load_candidate_error_def)
    from Cons.IH [OF rest, of "Some ?e" ?s] None ce show ?thesis
      by (auto simp: Let_def)
  next
    case (Some ps)
    note reg = this
    show ?thesis
    proof (cases "map_of ps n")
      case None
      let ?s = "emit (UnknownProviderWarning pt n) (emit (AttemptingToLoad pt n) s)"
      from None reg have ce: "load_candidate_error env pt cfg n = None"
        by (simp add: load_candidate_error_def)
      from Cons.IH [OF rest, of le ?s] None reg ce show ?thesis
        by (auto simp: Let_def)
    next
      case (Some class_path)
      with f reg obtain msg where c: "construct env class_path cfg = Inl msg"
        by (auto simp: load_candidate_fails_def isl_def)
      let ?s = "emit (FailedToLoad pt n (ProviderError msg))
                  (emit (Importing class_path) (emit (AttemptingToLoad pt n) s))"
      from Some reg c have ce: "load_candidate_error env pt cfg n = Some (ProviderError msg)"
        by (simp add: load_candidate_error_def)
      from Cons.IH [OF rest, of "Some (ProviderError msg)" ?s] Some reg c ce show ?thesis
        by (auto simp: Let_def)
    qed
  qed
qed

lemma load_loop_success_head:
  assumes "map_of PLUGIN_REGISTRY pt = Some ps" "map_of ps n = Some class_path"
    "construct env class_path cfg = Inr inst"
  shows "fst (load_loop env pt cfg all (n # rest) le s) = Inr inst"
    and "cache (snd (load_loop env pt cfg all (n # rest) le s)) = (cache s)(pt \<mapsto> inst)"
    and "attempts_of (log (snd (load_loop env pt cfg all (n # rest) le s))) = attempts_of (log s) @ [n]"
    and "imports_of (log (snd (load_loop env pt cfg all (n # rest) le s))) = imports_of (log s) @ [class_path]"
    and "settings (snd (load_loop env pt cfg all (n # rest) le s)) = settings s"
  using assms by (simp_all add: Let_def)

subsection \<open>load\<close>

lemma load_fresh_cache:
  "load_fresh env pt s = (r, s') \<Longrightarrow>
     (\<exists>e. r = Inl e \<and> cache s' = cache s) \<or>
     (\<exists>inst class_path cfg. r = Inr inst \<and> construct env class_path cfg = Inr inst
        \<and> cache s' = (cache s)(pt \<mapsto> inst))"
  unfolding load_fresh_def Let_def
  by (auto split: option.splits dest!: load_loop_cache)

lemma load_cache:
  "load env pt force s = (r, s') \<Longrightarrow>
     (cache s' = cache s \<and> (\<forall>inst. r = Inr inst \<longrightarrow> cache s pt = Some inst \<and> \<not> force)) \<or>
     (\<exists>inst class_path cfg. r = Inr inst \<and> construct env class_path cfg = Inr inst
        \<and> cache s' = (cache s)(pt \<mapsto> inst))"
  unfolding load_def
  by (auto split: option.splits if_splits dest!: load_fresh_cache)

lemma load_settings [simp]: "settings (snd (load env pt force s)) = settings s"
  by (simp add: load_def load_fresh_def Let_def load_loop_settings split: option.splits)

lemma load_generating [simp]:
  "generating_of (log (snd (load env pt force s))) = generating_of (log s)"
  by (simp add: load_def load_fresh_def Let_def load_loop_generating split: option.splits)

lemma load_cache_inv:
  assumes "cache_inv env s" shows "cache_inv env (snd (load env pt force s))"
proof -
  obtain r s' where l: "load env pt force s = (r, s')" by (cases "load env pt force s")
  from load_cache [OF l] consider "cache s' = cache s"
    | inst where "well_constructed env inst" "cache s' = (cache s)(pt \<mapsto> inst)"
    unfolding well_constructed_def by blast
  then have "cache_inv env s'"
  proof cases
    case 1
    with assms show ?thesis by (simp add: cache_inv_def)
  next
    case 2
    with assms show ?thesis by (simp add: cache_inv_def)
  qed
  with l show ?thesis by simp
qed

lemma load_result_in_cache:
  "load env pt force s = (Inr inst, s') \<Longrightarrow> cache s' pt = Some inst"
  by (drule load_cache) auto

lemma load_failure_keeps_cache:
  "load env pt force s = (Inl e, s') \<Longrightarrow> cache s' = cache s"
  by (drule load_cache) auto

subsection \<open>The wrapper's loaders\<close>

lemma cache_inv_frame [simp]:
  "cache_inv env (s\<lparr>settings := x\<rparr>) = cache_inv env s"
  "cache_inv env (emit e s) = cache_inv env s"
  by (simp_all add: cache_inv_def)

lemma load_primary_facts:
  assumes "load_primary env w s = (w', s')"
  shows "primary_provider_name w' = primary_provider_name w
    \<and> providers_to_try w' = providers_to_try w
    \<and> settings s' = settings s
    \<and> generating_of (log s') = generating_of (log s)
    \<and> (\<forall>p. current_provider w' = Some p \<longrightarrow>
           current_provider_name w' = Some (primary_provider_name w) \<and> cache s' ''ai'' = Some p)
    \<and> (cache_inv env s \<longrightarrow> cache_inv env s')"
proof -
  obtain r t where l: "load env ''ai'' False s = (r, t)" by (cases "load env ''ai'' False s")
  from load_settings [of env "''ai''" False s] l have st: "settings t = settings s" by simp
  from load_generating [of env "''ai''" False s] l
  have g: "generating_of (log t) = generating_of (log s)" by simp
  from load_cache_inv [of env s "''ai''" False] l
  have ci: "cache_inv env s \<Longrightarrow> cache_inv env t" by simp
  show ?thesis
  proof (cases r)
    case (Inl e)
    with assms l have "w' = w\<lparr>current_provider := None\<rparr>" "s' = emit (FailedPrimary e) t"
      by (simp_all add: load_primary_def)
    with st g ci show ?thesis by simp
  next
    case (Inr p)
    with assms l have "w' = w\<lparr>current_provider := Some p,
        current_provider_name := Some (primary_provider_name w)\<rparr>" "s' = t"
      by (simp_all add: load_primary_def)
    with st g ci load_result_in_cache [of env "''ai''" False s p t] l Inr
    show ?thesis by simp
  qed
qed

lemma cache_inv_pop:
  "cache_inv env s \<Longrightarrow> cache_inv env (s\<lparr>cache := (cache s)(''ai'' := None)\<rparr>)"
  by (auto simp: cache_inv_def split: if_splits)

lemma load_fallback_facts:
  assumes "load_fallback env n w s = (b, w', s')"
  shows "primary_provider_name w' = primary_provider_name w
    \<and> providers_to_try w' = providers_to_try w
    \<and> generating_of (log s') = generating_of (log s)
    \<and> (\<not> b \<longrightarrow> current_provider w' = current_provider w
           \<and> current_provider_name w' = current_provider_name w)
    \<and> (b \<longrightarrow> current_provider_name w' = Some n \<and> current_provider w' \<noteq> None
           \<and> cache s' ''ai'' = current_provider w')
    \<and> (cache_inv env s \<longrightarrow> cache_inv env s')"
proof -
  let ?s1 = "s\<lparr>cache := (cache s)(''ai'' := None)\<rparr>"
  have loaded: ?thesis
    if l: "load env ''ai'' True s2 = (r, t)"
      and c2: "cache s2 = cache ?s1" and g2: "log s2 = log s"
      and fl: "\<And>e. r = Inl e \<Longrightarrow> \<not> b \<and> current_provider w' = current_provider w
            \<and> current_provider_name w' = current_provider_name w
            \<and> primary_provider_name w' = primary_provider_name w
            \<and> providers_to_try w' = providers_to_try w
            \<and> cache s' = cache t \<and> log s' = log t @ [FailedFallback n e]"
      and ok: "\<And>p. r = Inr p \<Longrightarrow> b \<and> current_provider w' = Some p
            \<and> current_provider_name w' = Some n
            \<and> primary_provider_name w' = primary_provider_name w
            \<and> providers_to_try w' = providers_to_try w
            \<and> cache s' = cache t \<and> log s' = log t @ [SwitchedToFallback n]"
    for s2 r t
  proof -
    from load_generating [of env "''ai''" True s2] l g2
    have g: "generating_of (log t) = generating_of (log s)" by simp
    from c2 have "cache_inv env s \<Longrightarrow> cache_inv env s2"
      using cache_inv_pop [of env s] by (simp add: cache_inv_def)
    with load_cache_inv [of env s2 "''ai''" True] l
    have ci: "cache_inv env s \<Longrightarrow> cache_inv env t" by simp
    show ?thesis
    proof (cases r)
      case (Inl e)
      from fl [OF Inl] g ci show ?thesis by (simp add: cache_inv_def)
    next
      case (Inr p)
      from ok [OF Inr] g ci load_result_in_cache [of env "''ai''" True s2 p t] l Inr
      show ?thesis by (simp add: cache_inv_def)
    qed
  qed
  have nosec: ?thesis
    if "\<not> b" "w' = w" "s' = emit (FailedFallback n (AttributeError ''ai'')) ?s1"
    using that cache_inv_pop [of env s] by simp
  show ?thesis
  proof (cases "settings_stale w")
    case None
    note stale = this
    show ?thesis
    proof (cases "settings s ''ai''")
      case None
      with assms stale show ?thesis
        by (intro nosec) (simp_all add: load_fallback_def Let_def)
    next
      case (Some ai)
      let ?s2 = "s\<lparr>cache := (cache s)(''ai'' := None),
                   settings := (settings s)(''ai'' \<mapsto> ai\<lparr>provider := n\<rparr>)\<rparr>"
      obtain r t where l: "load env ''ai'' True ?s2 = (r, t)" by (cases "load env ''ai'' True ?s2")
      show ?thesis
      proof (rule loaded [OF l])
        show "cache ?s2 = cache ?s1" by simp
        show "log ?s2 = log s" by simp
      next
        fix e assume "r = Inl e"
        with assms stale Some l have "\<not> b" "w' = w" "s' = emit (FailedFallback n e) t"
          by (simp_all add: load_fallback_def Let_def)
        then show "\<not> b \<and> current_provider w' = current_provider w
            \<and> current_provider_name w' = current_provider_name w
            \<and> primary_provider_name w' = primary_provider_name w
            \<and> providers_to_try w' = providers_to_try w
            \<and> cache s' = cache t \<and> log s' = log t @ [FailedFallback n e]" by simp
      next
        fix p assume "r = Inr p"
        with assms stale Some l have "b"
          "w' = w\<lparr>current_provider := Some p, current_provider_name := Some n\<rparr>"
          "s' = emit (SwitchedToFallback n)
                   (t\<lparr>settings := (settings t)(''ai'' \<mapsto> ai\<lparr>provider := provider ai\<rparr>)\<rparr>)"
          by (simp_all add: load_fallback_def Let_def)
        then show "b \<and> current_provider w' = Some p
            \<and> current_provider_name w' = Some n
            \<and> primary_provider_name w' = primary_provider_name w
            \<and> providers_to_try w' = providers_to_try w
            \<and> cache s' = cache t \<and> log s' = log t @ [SwitchedToFallback n]" by simp
      qed
    qed
  next
    case (Some own)
    note stale = this
    show ?thesis
    proof (cases "own ''ai''")
      case None
      with assms stale show ?thesis
        by (intro nosec) (simp_all add: load_fallback_def Let_def)
    next
      case (Some ai)
      obtain r t where l: "load env ''ai'' True ?s1 = (r, t)" by (cases "load env ''ai'' True ?s1")
      show ?thesis
      proof (rule loaded [OF l])
        show "cache ?s1 = cache ?s1" by simp
        show "log ?s1 = log s" by simp
      next
        fix e assume "r = Inl e"
        with assms stale Some l have "\<not> b"
          "w' = w\<lparr>settings_stale := Some (own(''ai'' \<mapsto> ai\<lparr>provider := n\<rparr>))\<rparr>"
          "s' = emit (FailedFallback n e) t"
          by (simp_all add: load_fallback_def Let_def)
        then show "\<not> b \<and> current_provider w' = current_provider w
            \<and> current_provider_name w' = current_provider_name w
            \<and> primary_provider_name w' = primary_provider_name w
            \<and> providers_to_try w' = providers_to_try w
            \<and> cache s' = cache t \<and> log s' = log t @ [FailedFallback n e]" by simp
      next
        fix p assume "r = Inr p"
        with assms stale Some l have "b"
          "w' = w\<lparr>current_provider := Some p, current_provider_name := Some n,
                   settings_stale := Some (own(''ai'' \<mapsto> ai\<lparr>provider := provider ai\<rparr>))\<rparr>"
          "s' = emit (SwitchedToFallback n) t"
          by (simp_all add: load_fallback_def Let_def)
        then show "b \<and> current_provider w' = Some p
            \<and> current_provider_name w' = Some n
            \<and> primary_provider_name w' = primary_provider_name w
            \<and> providers_to_try w' = providers_to_try w
            \<and> cache s' = cache t \<and> log s' = log t @ [SwitchedToFallback n]" by simp
      qed
    qed
  qed
qed

lemma ensure_loaded_facts:
  assumes "ensure_loaded env n w s = (b, w', s')"
  shows "primary_provider_name w' = primary_provider_name w
    \<and> providers_to_try w' = providers_to_try w
    \<and> generating_of (log s') = generating_of (log s)
    \<and> (\<forall>p. b \<and> current_provider w' = Some p \<longrightarrow> current_provider_name w' = Some n)
    \<and> (cache_inv env s \<longrightarrow> cache_inv env s')
    \<and> (holds_constructed env w s \<longrightarrow> holds_constructed env w' s')"
proof -
  consider (same) "current_provider_name w = Some n"
    | (prim) "current_provider_name w \<noteq> Some n" "n = primary_provider_name w"
    | (fb) "current_provider_name w \<noteq> Some n" "n \<noteq> primary_provider_name w"
    by blast
  then show ?thesis
  proof cases
    case same
    with assms have "b" "w' = w" "s' = s" by (simp_all add: ensure_loaded_def)
    with same show ?thesis by simp
  next
    case prim
    with assms have lp: "load_primary env w s = (w', s')"
      by (auto simp: ensure_loaded_def split: prod.splits)
    from load_primary_facts [OF lp] prim show ?thesis
      by (auto simp: holds_constructed_def cache_inv_def)
  next
    case fb
    with assms have lf: "load_fallback env n w s = (b, w', s')"
      by (simp add: ensure_loaded_def)
    from load_fallback_facts [OF lf] show ?thesis
      by (cases b) (auto simp: holds_constructed_def cache_inv_def)
  qed
qed

subsection \<open>One pass through the loop body of generate_script\<close>

lemma attempt_provider_unfold:
  assumes el: "ensure_loaded env n w s = (b, w1, s1)"
  shows "attempt_provider env content n w s =
     (if \<not> b then (Skipped, w1, s1)
      else case current_provider w1 of
             None \<Rightarrow> (Skipped, w1, s1)
           | Some p \<Rightarrow>
               (case operate env p content of
                  Inr result \<Rightarrow>
                    (Returned result, w1,
                     emit (Generated n (n \<noteq> primary_provider_name w1)) (emit (Generating n) s1))
                | Inl msg \<Rightarrow>
                    (Raised msg, w1,
                     emit (if is_quota_error msg then QuotaExceeded n else ErrorWith n msg)
                       (emit (Generating n) s1))))"
  unfolding attempt_provider_def el Let_def by (cases b) simp_all

lemma attempt_provider_cases:
  assumes "attempt_provider env content n w s = (out, w', s')"
  obtains (skipped) b where "out = Skipped" "ensure_loaded env n w s = (b, w', s')"
      "\<not> b \<or> current_provider w' = None"
    | (returned) p s1 r where "out = Returned r" "ensure_loaded env n w s = (True, w', s1)"
      "current_provider w' = Some p" "operate env p content = Inr r"
      "s' = emit (Generated n (n \<noteq> primary_provider_name w')) (emit (Generating n) s1)"
    | (raised) p s1 msg where "out = Raised msg" "ensure_loaded env n w s = (True, w', s1)"
      "current_provider w' = Some p" "operate env p content = Inl msg"
      "s' = emit (if is_quota_error msg then QuotaExceeded n else ErrorWith n msg)
              (emit (Generating n) s1)"
proof -
  obtain b w1 s1 where el: "ensure_loaded env n w s = (b, w1, s1)"
    by (cases "ensure_loaded env n w s") auto
  note ap = assms [unfolded attempt_provider_unfold [OF el], symmetric]
  show thesis
  proof (cases "b \<and> current_provider w1 \<noteq> None")
    case False
    with ap have o: "out = Skipped" and w: "w' = w1" and s: "s' = s1"
      by (cases b; cases "current_provider w1"; simp)+
    from el w s have el': "ensure_loaded env n w s = (b, w', s')" by simp
    from False w have nb: "\<not> b \<or> current_provider w' = None" by simp
    from o el' nb show thesis by (rule skipped)
  next
    case True
    then obtain p where p: "current_provider w1 = Some p" and b: b by auto
    show thesis
    proof (cases "operate env p content")
      case (Inl msg)
      with ap p b have o: "out = Raised msg" and w: "w' = w1" and
        s: "s' = emit (if is_quota_error msg then QuotaExceeded n else ErrorWith n msg)
              (emit (Generating n) s1)"
        by auto
      from el w b have el': "ensure_loaded env n w s = (True, w', s1)" by simp
      from p w have p': "current_provider w' = Some p" by simp
      from o el' p' Inl s show thesis by (rule raised)
    next
      case (Inr r)
      with ap p b have o: "out = Returned r" and w: "w' = w1" and
        s: "s' = emit (Generated n (n \<noteq> primary_provider_name w1)) (emit (Generating n) s1)"
        by auto
      from el w b have el': "ensure_loaded env n w s = (True, w', s1)" by simp
      from p w have p': "current_provider w' = Some p" by simp
      from s w have s': "s' = emit (Generated n (n \<noteq> primary_provider_name w')) (emit (Generating n) s1)"
        by simp
      from o el' p' Inr s' show thesis by (rule returned)
    qed
  qed
qed

lemma attempt_provider_facts:
  assumes "attempt_provider env content n w s = (out, w', s')"
  shows "primary_provider_name w' = primary_provider_name w
    \<and> providers_to_try w' = providers_to_try w
    \<and> (cache_inv env s \<longrightarrow> cache_inv env s')
    \<and> (holds_constructed env w s \<longrightarrow> holds_constructed env w' s')
    \<and> generating_of (log s') = generating_of (log s) @ (if out = Skipped then [] else [n])
    \<and> (\<forall>r. out = Returned r \<longrightarrow> current_provider_name w' = Some n \<and>
           (\<exists>p. current_provider w' = Some p \<and> operate env p content = Inr r))
    \<and> (\<forall>msg. out = Raised msg \<longrightarrow> current_provider_name w' = Some n \<and>
           (\<exists>p. current_provider w' = Some p \<and> operate env p content = Inl msg))"
  using assms
proof (cases rule: attempt_provider_cases)
  case (skipped b)
  from ensure_loaded_facts [OF skipped(2)] skipped(1) show ?thesis by simp
next
  case (returned p s1 r')
  from ensure_loaded_facts [OF returned(2)] returned(1,3,4,5) show ?thesis
    by (simp add: holds_constructed_def)
next
  case (raised p s1 msg')
  from ensure_loaded_facts [OF raised(2)] raised(1,3,4,5) show ?thesis
    by (simp add: holds_constructed_def)
qed

subsection \<open>The loop of generate_script\<close>

lemma try_providers_step:
  assumes "attempt_provider env content n w s = (out, w1, s1)"
  shows "try_providers env content (n # rest) tried le w s =
     (case out of
        Skipped \<Rightarrow> try_providers env content rest tried le w1 s1
      | Returned result \<Rightarrow> (Inr result, w1, s1)
      | Raised msg \<Rightarrow>
          try_providers env content rest (tried @ [n]) (Some (ProviderError msg)) w1 s1)"
  using assms by (cases out) simp_all

lemma try_providers_frame:
  assumes "try_providers env content rest tried le w s = (res, w', s')"
  shows "primary_provider_name w' = primary_provider_name w
    \<and> providers_to_try w' = providers_to_try w
    \<and> (cache_inv env s \<longrightarrow> cache_inv env s')
    \<and> (holds_constructed env w s \<longrightarrow> holds_constructed env w' s')"
  using assms
proof (induction rest arbitrary: tried le w s)
  case Nil
  then show ?case by (auto simp: holds_constructed_def split: if_splits)
next
  case (Cons n rest)
  obtain out w1 s1 where ap: "attempt_provider env content n w s = (out, w1, s1)"
    by (cases "attempt_provider env content n w s") auto
  note f = attempt_provider_facts [OF ap]
  note step = Cons.prems [unfolded try_providers_step [OF ap]]
  show ?case
  proof (cases out)
    case Skipped
    with step have "try_providers env content rest tried le w1 s1 = (res, w', s')" by simp
    from Cons.IH [OF this] f show ?thesis by simp
  next
    case (Returned result)
    with step have "w' = w1" "s' = s1" by simp_all
    with f show ?thesis by simp
  next
    case (Raised msg)
    with step have "try_providers env content rest (tried @ [n]) (Some (ProviderError msg)) w1 s1
        = (res, w', s')" by simp
    from Cons.IH [OF this] f show ?thesis by simp
  qed
qed

text \<open>
  What the loop leaves: the names under which the operation was called, in order; when
  it ends in an error, the list and the last error of the message; when it returns, the
  instance that served.
\<close>

lemma try_providers_facts:
  assumes "try_providers env content rest tried le w s = (res, w', s')"
  shows "primary_provider_name w' = primary_provider_name w
    \<and> providers_to_try w' = providers_to_try w
    \<and> (cache_inv env s \<longrightarrow> cache_inv env s')
    \<and> (\<exists>new. generating_of (log s') = generating_of (log s) @ new \<and> subseq new rest
         \<and> (\<forall>e. res = Inl e \<longrightarrow>
               (\<exists>le'. e = (if unprintable env le' then MarkupError
                            else AllFailed (tried @ new) le')
                  \<and> (new = [] \<longrightarrow> le' = le)
                  \<and> (new \<noteq> [] \<longrightarrow>
                        (\<exists>inst msg. le' = Some (ProviderError msg)
                           \<and> operate env inst content = Inl msg
                           \<and> (holds_constructed env w s \<longrightarrow> well_constructed env inst)))))
         \<and> (\<forall>r. res = Inr r \<longrightarrow>
               new \<noteq> [] \<and> current_provider_name w' = Some (last new)
               \<and> (\<exists>p. current_provider w' = Some p \<and> operate env p content = Inr r)))"
proof -
  let ?Q = "\<lambda>rest tried le w s new.
     generating_of (log s') = generating_of (log s) @ new \<and> subseq new rest
         \<and> (\<forall>e. res = Inl e \<longrightarrow>
               (\<exists>le'. e = (if unprintable env le' then MarkupError
                            else AllFailed (tried @ new) le')
                  \<and> (new = [] \<longrightarrow> le' = le)
                  \<and> (new \<noteq> [] \<longrightarrow>
                        (\<exists>inst msg. le' = Some (ProviderError msg)
                           \<and> operate env inst content = Inl msg
                           \<and> (holds_constructed env w s \<longrightarrow> well_constructed env inst)))))
         \<and> (\<forall>r. res = Inr r \<longrightarrow>
               new \<noteq> [] \<and> current_provider_name w' = Some (last new)
               \<and> (\<exists>p. current_provider w' = Some p \<and> operate env p content = Inr r))"
  from assms have "\<exists>new. ?Q rest tried le w s new"
  proof (induction rest arbitrary: tried le w s)
    case Nil
    then have "?Q [] tried le w s []" by (auto split: if_splits)
    then show ?case ..
  next
    case (Cons n rest)
    obtain out w1 s1 where ap: "attempt_provider env content n w s = (out, w1, s1)"
      by (cases "attempt_provider env content n w s") auto
    note f = attempt_provider_facts [OF ap]
    note step = Cons.prems [unfolded try_providers_step [OF ap]]
    show ?case
    proof (cases out)
      case Skipped
      with step have "try_providers env content rest tried le w1 s1 = (res, w', s')" by simp
      from Cons.IH [OF this] obtain new where q: "?Q rest tried le w1 s1 new" ..
      from q f Skipped have g: "generating_of (log s') = generating_of (log s) @ new" by simp
      from q have sub: "subseq new (n # rest)" by (simp add: list_emb_Cons)
      from f have hc: "holds_constructed env w s \<longrightarrow> holds_constructed env w1 s1" by simp
      from q hc have e: "\<forall>e. res = Inl e \<longrightarrow>
               (\<exists>le'. e = (if unprintable env le' then MarkupError
                            else AllFailed (tried @ new) le')
                  \<and> (new = [] \<longrightarrow> le' = le)
                  \<and> (new \<noteq> [] \<longrightarrow>
                        (\<exists>inst msg. le' = Some (ProviderError msg)
                           \<and> operate env inst content = Inl msg
                           \<and> (holds_constructed env w s \<longrightarrow> well_constructed env inst))))"
        by blast
      from q have r: "\<forall>r. res = Inr r \<longrightarrow>
               new \<noteq> [] \<and> current_provider_name w' = Some (last new)
               \<and> (\<exists>p. current_provider w' = Some p \<and> operate env p content = Inr r)"
        by simp
      from g sub e r have "?Q (n # rest) tried le w s new" by (intro conjI)
      then show ?thesis ..
    next
      case (Returned result)
      with step have res: "res = Inr result" "w' = w1" "s' = s1" by simp_all
      from f Returned res have "generating_of (log s') = generating_of (log s) @ [n]"
        "subseq [n] (n # rest)" by simp_all
      moreover from f Returned res have "current_provider_name w' = Some (last [n])"
        "\<exists>p. current_provider w' = Some p \<and> operate env p content = Inr result" by simp_all
      ultimately have "?Q (n # rest) tried le w s [n]" using res by simp
      then show ?thesis ..
    next
      case (Raised msg)
      with step have "try_providers env content rest (tried @ [n]) (Some (ProviderError msg)) w1 s1
          = (res, w', s')" by simp
      from Cons.IH [OF this] obtain new where
        q: "?Q rest (tried @ [n]) (Some (ProviderError msg)) w1 s1 new" ..
      from f Raised obtain p where p: "current_provider w1 = Some p"
        "operate env p content = Inl msg" by auto
      from f have hc: "holds_constructed env w s \<longrightarrow> holds_constructed env w1 s1" by simp
      with p have wc: "holds_constructed env w s \<longrightarrow> well_constructed env p"
        by (simp add: holds_constructed_def)
      from q f Raised have g: "generating_of (log s') = generating_of (log s) @ (n # new)" by simp
      from q have sub: "subseq (n # new) (n # rest)" by simp
      have e: "\<forall>e. res = Inl e \<longrightarrow>
               (\<exists>le'. e = (if unprintable env le' then MarkupError
                            else AllFailed (tried @ (n # new)) le')
                  \<and> (n # new = [] \<longrightarrow> le' = le)
                  \<and> (n # new \<noteq> [] \<longrightarrow>
                        (\<exists>inst msg. le' = Some (ProviderError msg)
                           \<and> operate env inst content = Inl msg
                           \<and> (holds_constructed env w s \<longrightarrow> well_constructed env inst))))"
      proof (intro allI impI)
        fix e assume "res = Inl e"
        with q obtain le' where le: "e = (if unprintable env le' then MarkupError
                            else AllFailed ((tried @ [n]) @ new) le')"
          "new = [] \<longrightarrow> le' = Some (ProviderError msg)"
          "new \<noteq> [] \<longrightarrow>
                        (\<exists>inst msg. le' = Some (ProviderError msg)
                           \<and> operate env inst content = Inl msg
                           \<and> (holds_constructed env w1 s1 \<longrightarrow> well_constructed env inst))"
          by blast
        have "\<exists>inst msg. le' = Some (ProviderError msg)
                           \<and> operate env inst content = Inl msg
                           \<and> (holds_constructed env w s \<longrightarrow> well_constructed env inst)"
        proof (cases "new = []")
          case True
          with le(2) p wc show ?thesis by blast
        next
          case False
          with le(3) hc show ?thesis by blast
        qed
        with le(1) show "\<exists>le'. e = (if unprintable env le' then MarkupError
                            else AllFailed (tried @ (n # new)) le')
                  \<and> (n # new = [] \<longrightarrow> le' = le)
                  \<and> (n # new \<noteq> [] \<longrightarrow>
                        (\<exists>inst msg. le' = Some (ProviderError msg)
                           \<and> operate env inst content = Inl msg
                           \<and> (holds_constructed env w s \<longrightarrow> well_constructed env inst)))"
          by (intro exI [of _ le']) simp
      qed
      from q have r: "\<forall>r. res = Inr r \<longrightarrow>
               n # new \<noteq> [] \<and> current_provider_name w' = Some (last (n # new))
               \<and> (\<exists>p. current_provider w' = Some p \<and> operate env p content = Inr r)"
        by auto
      from g sub e r have "?Q (n # rest) tried le w s (n # new)" by (intro conjI)
      then show ?thesis ..
    qed
  qed
  with try_providers_frame [OF assms] show ?thesis by simp
qed

subsection \<open>Candidates that can be constructed\<close>

lemma own_instanceD:
  assumes "own_instance env cfg n = Some inst"
  obtains ps class_path where "map_of PLUGIN_REGISTRY ''ai'' = Some ps"
    "map_of ps n = Some class_path" "ai_class_path n = Some class_path"
    "construct env class_path (cfg\<lparr>provider := n\<rparr>) = Inr inst"
  using assms
  by (auto simp: own_instance_def ai_class_path_def split: option.splits sum.splits)

text \<open>
  With the settings naming a candidate that can be constructed, \<^verbatim>\<open>load\<close> constructs
  it and nothing else.
\<close>

lemma load_own_instance:
  assumes own: "own_instance env cfg n = Some inst"
    and st: "settings s ''ai'' = Some (cfg\<lparr>provider := n\<rparr>)"
    and miss: "cache s ''ai'' = None \<or> force"
  obtains s' where "load env ''ai'' force s = (Inr inst, s')"
    "cache s' = (cache s)(''ai'' \<mapsto> inst)" "settings s' = settings s"
    "attempts_of (log s') = attempts_of (log s) @ [n]"
    "imports_of (log s') = imports_of (log s) @ [the (ai_class_path n)]"
    "generating_of (log s') = generating_of (log s)"
proof -
  from own obtain ps class_path where reg: "map_of PLUGIN_REGISTRY ''ai'' = Some ps"
    and cp: "map_of ps n = Some class_path" and acp: "ai_class_path n = Some class_path"
    and con: "construct env class_path (cfg\<lparr>provider := n\<rparr>) = Inr inst"
    by (rule own_instanceD)
  let ?cfg = "cfg\<lparr>provider := n\<rparr>"
  let ?s0 = "emit (LoadingPlugin ''ai'') s"
  obtain rest where ch: "load_providers_to_try ?cfg = n # rest"
    by (simp add: load_providers_to_try_def Let_def)
  from miss have "load env ''ai'' force s = load_fresh env ''ai'' s"
    by (auto simp: load_def split: option.splits)
  with st ch have l: "load env ''ai'' force s = load_loop env ''ai'' ?cfg (n # rest) (n # rest) None ?s0"
    by (simp add: load_fresh_def Let_def)
  note h = load_loop_success_head [OF reg cp con, of "n # rest" rest None ?s0]
  let ?s' = "snd (load env ''ai'' force s)"
  show thesis
  proof (rule that [of ?s'])
    from h(1) l show "load env ''ai'' force s = (Inr inst, ?s')"
      by (simp add: prod_eq_iff)
    from h(2) l show "cache ?s' = (cache s)(''ai'' \<mapsto> inst)" by simp
    from h(5) l show "settings ?s' = settings s" by simp
    from h(3) l show "attempts_of (log ?s') = attempts_of (log s) @ [n]" by simp
    from h(4) l acp show "imports_of (log ?s') = imports_of (log s) @ [the (ai_class_path n)]"
      by simp
    show "generating_of (log ?s') = generating_of (log s)" by simp
  qed
qed

text \<open>
  One pass through the loop body for a candidate that can be constructed, on a wrapper
  in step: the operation is called on the candidate's own instance, which is loaded first
  unless the wrapper holds it.
\<close>

lemma attempt_own_step:
  assumes inv: "loop_inv env cfg w s (n # rest)"
    and own: "own_instance env cfg n = Some inst"
  obtains w' s' where
    "attempt_provider env content n w s =
       ((case operate env inst content of Inl msg \<Rightarrow> Raised msg | Inr r \<Rightarrow> Returned r), w', s')"
    "loop_inv env cfg w' s' rest"
    "current_provider_name w' = Some n" "current_provider w' = Some inst"
    "providers_to_try w' = providers_to_try w"
    "generating_of (log s') = generating_of (log s) @ [n]"
    "attempts_of (log s') =
       attempts_of (log s) @ (if current_provider_name w = Some n then [] else [n])"
    "imports_of (log s') =
       imports_of (log s) @
         (if current_provider_name w = Some n then [] else [the (ai_class_path n)])"
    "cache s' = (if current_provider_name w = Some n then cache s else (cache s)(''ai'' \<mapsto> inst))"
proof -
  from inv have st: "settings s ''ai'' = Some cfg" and stale: "settings_stale w = None"
    and pr: "primary_provider_name w = provider cfg" and tl: "provider cfg \<notin> set rest"
    and held: "current_provider_name w = Some n \<Longrightarrow> current_provider w = Some inst"
    and fresh: "current_provider_name w \<noteq> Some (provider cfg) \<Longrightarrow> n = provider cfg \<Longrightarrow>
                  cache s ''ai'' = None"
    using own by (auto simp: loop_inv_def)
  let ?w = "w\<lparr>current_provider := Some inst, current_provider_name := Some n\<rparr>"
  have el: "\<exists>s1. ensure_loaded env n w s = (True, ?w, s1)
      \<and> settings s1 = settings s
      \<and> generating_of (log s1) = generating_of (log s)
      \<and> attempts_of (log s1) =
           attempts_of (log s) @ (if current_provider_name w = Some n then [] else [n])
      \<and> imports_of (log s1) =
           imports_of (log s) @
             (if current_provider_name w = Some n then [] else [the (ai_class_path n)])
      \<and> cache s1 =
           (if current_provider_name w = Some n then cache s else (cache s)(''ai'' \<mapsto> inst))"
  proof -
    consider (same) "current_provider_name w = Some n"
      | (prim) "current_provider_name w \<noteq> Some n" "n = provider cfg"
      | (fb) "current_provider_name w \<noteq> Some n" "n \<noteq> provider cfg"
      by blast
    then show ?thesis
    proof cases
      case same
      with held have "?w = w" by (cases w) simp
      with same show ?thesis by (simp add: ensure_loaded_def)
    next
      case prim
      from prim(2) st have st': "settings s ''ai'' = Some (cfg\<lparr>provider := n\<rparr>)" by simp
      from prim fresh have "cache s ''ai'' = None \<or> False" by simp
      from load_own_instance [OF own st' this] obtain s1 where
        l: "load env ''ai'' False s = (Inr inst, s1)"
        and f: "cache s1 = (cache s)(''ai'' \<mapsto> inst)" "settings s1 = settings s"
          "attempts_of (log s1) = attempts_of (log s) @ [n]"
          "imports_of (log s1) = imports_of (log s) @ [the (ai_class_path n)]"
          "generating_of (log s1) = generating_of (log s)" by blast
      from l prim pr have "ensure_loaded env n w s = (True, ?w, s1)"
        by (simp add: ensure_loaded_def load_primary_def)
      with f prim(1) show ?thesis by simp
    next
      case fb
      let ?s2 = "s\<lparr>cache := (cache s)(''ai'' := None),
                   settings := (settings s)(''ai'' \<mapsto> cfg\<lparr>provider := n\<rparr>)\<rparr>"
      have st': "settings ?s2 ''ai'' = Some (cfg\<lparr>provider := n\<rparr>)" by simp
      have "cache ?s2 ''ai'' = None \<or> True" by simp
      from load_own_instance [OF own st' this] obtain s3 where
        l: "load env ''ai'' True ?s2 = (Inr inst, s3)"
        and f: "cache s3 = (cache ?s2)(''ai'' \<mapsto> inst)" "settings s3 = settings ?s2"
          "attempts_of (log s3) = attempts_of (log ?s2) @ [n]"
          "imports_of (log s3) = imports_of (log ?s2) @ [the (ai_class_path n)]"
          "generating_of (log s3) = generating_of (log ?s2)" by blast
      let ?s' = "emit (SwitchedToFallback n)
                   (s3\<lparr>settings := (settings s3)(''ai'' \<mapsto> cfg\<lparr>provider := provider cfg\<rparr>)\<rparr>)"
      from l st stale have lf: "load_fallback env n w s = (True, ?w, ?s')"
        by (simp add: load_fallback_def Let_def)
      from st have "(settings s)(''ai'' \<mapsto> cfg) = settings s" by (rule map_upd_triv)
      with f(2) have "settings ?s' = settings s" by simp
      with lf fb pr f show ?thesis by (simp add: ensure_loaded_def)
    qed
  qed
  then obtain s1 where e: "ensure_loaded env n w s = (True, ?w, s1)"
    and f: "settings s1 = settings s" "generating_of (log s1) = generating_of (log s)"
      "attempts_of (log s1) =
           attempts_of (log s) @ (if current_provider_name w = Some n then [] else [n])"
      "imports_of (log s1) =
           imports_of (log s) @
             (if current_provider_name w = Some n then [] else [the (ai_class_path n)])"
      "cache s1 =
           (if current_provider_name w = Some n then cache s else (cache s)(''ai'' \<mapsto> inst))"
    by blast
  let ?s' = "snd (snd (attempt_provider env content n w s))"
  show thesis
  proof (rule that [of ?w ?s'])
    show "attempt_provider env content n w s =
       ((case operate env inst content of Inl msg \<Rightarrow> Raised msg | Inr r \<Rightarrow> Returned r), ?w, ?s')"
      unfolding attempt_provider_unfold [OF e] by (simp split: sum.splits)
    have s': "settings ?s' = settings s1" "cache ?s' = cache s1"
      "generating_of (log ?s') = generating_of (log s1) @ [n]"
      "attempts_of (log ?s') = attempts_of (log s1)"
      "imports_of (log ?s') = imports_of (log s1)"
      unfolding attempt_provider_unfold [OF e] by (simp_all split: sum.splits)
    from tl have tl': "provider cfg \<notin> set (tl rest)" by (cases rest) auto
    from s' f st stale pr tl tl' own show "loop_inv env cfg ?w ?s' rest"
      by (auto simp: loop_inv_def)
    show "current_provider_name ?w = Some n" "current_provider ?w = Some inst"
      "providers_to_try ?w = providers_to_try w" by simp_all
    from s' f show "generating_of (log ?s') = generating_of (log s) @ [n]" by simp
    from s' f show "attempts_of (log ?s') =
       attempts_of (log s) @ (if current_provider_name w = Some n then [] else [n])" by simp
    from s' f show "imports_of (log ?s') =
       imports_of (log s) @
         (if current_provider_name w = Some n then [] else [the (ai_class_path n)])" by simp
    from s' f show "cache ?s' =
       (if current_provider_name w = Some n then cache s else (cache s)(''ai'' \<mapsto> inst))" by simp
  qed
qed

lemma own_outcomeD:
  assumes "own_outcome env cfg content n = Some out"
  obtains inst where "own_instance env cfg n = Some inst" "operate env inst content = out"
  using assms by (auto simp: own_outcome_def split: option.splits)

lemma own_error_raises:
  "own_outcome env cfg content n = Some (Inl msg) \<Longrightarrow>
   own_error env cfg content n = Some (ProviderError msg)"
  by (simp add: own_error_def)

lemma in_step_loop_inv:
  assumes "in_step env cfg w s"
  shows "loop_inv env cfg w s (providers_to_try w)"
proof -
  have "provider cfg \<notin> set (tl (init_providers_to_try (provider cfg) (fallback cfg)))"
    by (cases "fallback cfg") (simp_all add: init_providers_to_try_def)
  with assms have a: "settings s ''ai'' = Some cfg" "settings_stale w = None"
    "primary_provider_name w = provider cfg" "provider cfg \<notin> set (tl (providers_to_try w))"
    by (simp_all add: in_step_def)
  from assms have h: "\<forall>n. current_provider_name w = Some n \<longrightarrow>
            own_instance env cfg n \<noteq> None \<and> current_provider w = own_instance env cfg n"
    by (cases "current_provider_name w") (simp_all add: in_step_def)
  from assms have c: "current_provider_name w \<noteq> Some (provider cfg) \<longrightarrow> cache s ''ai'' = None"
    by (cases "current_provider_name w") (simp_all add: in_step_def)
  from a h c show ?thesis unfolding loop_inv_def by blast
qed

text \<open>
  Candidates that can be constructed and whose operation raises are gone through one
  after the other, each under its own name and with its own instance.
\<close>

lemma try_providers_own_prefix:
  assumes "loop_inv env cfg w s (pre @ rest)"
    and "\<forall>n\<in>set pre. \<exists>msg. own_outcome env cfg content n = Some (Inl msg)"
  shows "\<exists>w' s'. try_providers env content (pre @ rest) tried le w s =
             try_providers env content rest (tried @ pre)
               (if pre = [] then le else own_error env cfg content (last pre)) w' s'
         \<and> loop_inv env cfg w' s' rest
         \<and> providers_to_try w' = providers_to_try w
         \<and> generating_of (log s') = generating_of (log s) @ pre
         \<and> (pre = [] \<longrightarrow> w' = w \<and> s' = s)
         \<and> (pre \<noteq> [] \<longrightarrow> current_provider_name w' = Some (last pre)
               \<and> current_provider w' = own_instance env cfg (last pre))
         \<and> (distinct pre \<longrightarrow>
               attempts_of (log s') = attempts_of (log s) @
                 (if pre \<noteq> [] \<and> current_provider_name w = Some (hd pre) then tl pre else pre)
               \<and> imports_of (log s') = imports_of (log s) @
                 map (\<lambda>n. the (ai_class_path n))
                   (if pre \<noteq> [] \<and> current_provider_name w = Some (hd pre) then tl pre else pre))"
  using assms
proof (induction pre arbitrary: tried le w s)
  case Nil
  then show ?case by simp
next
  case (Cons n pre)
  from Cons.prems(2) obtain msg where oo: "own_outcome env cfg content n = Some (Inl msg)"
    and rest: "\<forall>n\<in>set pre. \<exists>msg. own_outcome env cfg content n = Some (Inl msg)" by auto
  from oo obtain inst where own: "own_instance env cfg n = Some inst"
    and op: "operate env inst content = Inl msg" by (rule own_outcomeD)
  from Cons.prems(1) have inv: "loop_inv env cfg w s (n # (pre @ rest))" by simp
  from attempt_own_step [OF inv own, of content] obtain w1 s1 where
    ap0: "attempt_provider env content n w s =
       ((case operate env inst content of Inl msg \<Rightarrow> Raised msg | Inr r \<Rightarrow> Returned r), w1, s1)"
    and inv1: "loop_inv env cfg w1 s1 (pre @ rest)"
    and nm: "current_provider_name w1 = Some n" "current_provider w1 = Some inst"
    and pt: "providers_to_try w1 = providers_to_try w"
    and g: "generating_of (log s1) = generating_of (log s) @ [n]"
    and a: "attempts_of (log s1) =
       attempts_of (log s) @ (if current_provider_name w = Some n then [] else [n])"
    and i: "imports_of (log s1) =
       imports_of (log s) @
         (if current_provider_name w = Some n then [] else [the (ai_class_path n)])"
    by blast
  from ap0 op have ap: "attempt_provider env content n w s = (Raised msg, w1, s1)" by simp
  from Cons.IH [OF inv1 rest, of "tried @ [n]" "Some (ProviderError msg)"]
  obtain w' s' where
    t: "try_providers env content (pre @ rest) (tried @ [n]) (Some (ProviderError msg)) w1 s1 =
             try_providers env content rest ((tried @ [n]) @ pre)
               (if pre = [] then Some (ProviderError msg)
                else own_error env cfg content (last pre)) w' s'"
    and inv': "loop_inv env cfg w' s' rest"
    and pt': "providers_to_try w' = providers_to_try w1"
    and g': "generating_of (log s') = generating_of (log s1) @ pre"
    and e': "pre = [] \<longrightarrow> w' = w1 \<and> s' = s1"
    and nm': "pre \<noteq> [] \<longrightarrow> current_provider_name w' = Some (last pre)
               \<and> current_provider w' = own_instance env cfg (last pre)"
    and d': "distinct pre \<longrightarrow>
               attempts_of (log s') = attempts_of (log s1) @
                 (if pre \<noteq> [] \<and> current_provider_name w1 = Some (hd pre) then tl pre else pre)
               \<and> imports_of (log s') = imports_of (log s1) @
                 map (\<lambda>n. the (ai_class_path n))
                   (if pre \<noteq> [] \<and> current_provider_name w1 = Some (hd pre) then tl pre else pre)"
    by blast
  have 1: "try_providers env content ((n # pre) @ rest) tried le w s =
             try_providers env content rest (tried @ n # pre)
               (if n # pre = [] then le else own_error env cfg content (last (n # pre))) w' s'"
    unfolding append_Cons try_providers_step [OF ap] using t own_error_raises [OF oo]
    by simp
  from g g' have 2: "generating_of (log s') = generating_of (log s) @ n # pre" by simp
  from nm nm' e' own have 3: "current_provider_name w' = Some (last (n # pre))
               \<and> current_provider w' = own_instance env cfg (last (n # pre))"
    by (cases "pre = []") simp_all
  have 4: "distinct (n # pre) \<longrightarrow>
               attempts_of (log s') = attempts_of (log s) @
                 (if n # pre \<noteq> [] \<and> current_provider_name w = Some (hd (n # pre))
                  then tl (n # pre) else n # pre)
               \<and> imports_of (log s') = imports_of (log s) @
                 map (\<lambda>n. the (ai_class_path n))
                   (if n # pre \<noteq> [] \<and> current_provider_name w = Some (hd (n # pre))
                    then tl (n # pre) else n # pre)"
  proof
    assume d: "distinct (n # pre)"
    then have "\<not> (pre \<noteq> [] \<and> current_provider_name w1 = Some (hd pre))"
      using nm(1) by (cases pre) auto
    with d d' a i show "attempts_of (log s') = attempts_of (log s) @
                 (if n # pre \<noteq> [] \<and> current_provider_name w = Some (hd (n # pre))
                  then tl (n # pre) else n # pre)
               \<and> imports_of (log s') = imports_of (log s) @
                 map (\<lambda>n. the (ai_class_path n))
                   (if n # pre \<noteq> [] \<and> current_provider_name w = Some (hd (n # pre))
                    then tl (n # pre) else n # pre)"
      by simp
  qed
  from 1 inv' pt pt' 2 3 4 show ?case by (intro exI [of _ w'] exI [of _ s']) simp
qed

text \<open>
  A wrapper in step, with the candidates before \<open>k\<close> raising and \<open>k\<close> returning: the
  call returns what the operation of \<open>k\<close> returned.
\<close>

lemma generate_script_own_returns:
  assumes step: "in_step env cfg w s"
    and ch: "providers_to_try w = pre @ k # post"
    and fail: "\<forall>n\<in>set pre. \<exists>msg. own_outcome env cfg content n = Some (Inl msg)"
    and ok: "own_outcome env cfg content k = Some (Inr r)"
  shows "fst (generate_script env w s content) = Inr r
    \<and> current_provider_name (fst (snd (generate_script env w s content))) = Some k
    \<and> current_provider (fst (snd (generate_script env w s content))) = own_instance env cfg k
    \<and> generating_of (log (snd (snd (generate_script env w s content)))) =
        generating_of (log s) @ pre @ [k]
    \<and> (distinct (pre @ [k]) \<longrightarrow>
         attempts_of (log (snd (snd (generate_script env w s content)))) =
           attempts_of (log s) @
             (if current_provider_name w = None then pre @ [k] else tl (pre @ [k]))
         \<and> imports_of (log (snd (snd (generate_script env w s content)))) =
           imports_of (log s) @ map (\<lambda>n. the (ai_class_path n))
             (if current_provider_name w = None then pre @ [k] else tl (pre @ [k])))"
proof -
  from in_step_loop_inv [OF step] ch have inv: "loop_inv env cfg w s (pre @ k # post)" by simp
  from try_providers_own_prefix [OF inv fail, of "[]" None] obtain w1 s1 where
    t: "try_providers env content (pre @ k # post) [] None w s =
          try_providers env content (k # post) ([] @ pre)
            (if pre = [] then None else own_error env cfg content (last pre)) w1 s1"
    and inv1: "loop_inv env cfg w1 s1 (k # post)"
    and g1: "generating_of (log s1) = generating_of (log s) @ pre"
    and e1: "pre = [] \<longrightarrow> w1 = w \<and> s1 = s"
    and nm1: "pre \<noteq> [] \<longrightarrow> current_provider_name w1 = Some (last pre)"
    and d1: "distinct pre \<longrightarrow>
               attempts_of (log s1) = attempts_of (log s) @
                 (if pre \<noteq> [] \<and> current_provider_name w = Some (hd pre) then tl pre else pre)
               \<and> imports_of (log s1) = imports_of (log s) @
                 map (\<lambda>n. the (ai_class_path n))
                   (if pre \<noteq> [] \<and> current_provider_name w = Some (hd pre) then tl pre else pre)"
    by blast
  from ok obtain inst where own: "own_instance env cfg k = Some inst"
    and op: "operate env inst content = Inr r" by (rule own_outcomeD)
  from attempt_own_step [OF inv1 own, of content] obtain w2 s2 where
    ap0: "attempt_provider env content k w1 s1 =
       ((case operate env inst content of Inl msg \<Rightarrow> Raised msg | Inr r \<Rightarrow> Returned r), w2, s2)"
    and nm: "current_provider_name w2 = Some k" "current_provider w2 = Some inst"
    and g: "generating_of (log s2) = generating_of (log s1) @ [k]"
    and a: "attempts_of (log s2) =
       attempts_of (log s1) @ (if current_provider_name w1 = Some k then [] else [k])"
    and i: "imports_of (log s2) =
       imports_of (log s1) @
         (if current_provider_name w1 = Some k then [] else [the (ai_class_path k)])"
    by blast
  from ap0 op have ap: "attempt_provider env content k w1 s1 = (Returned r, w2, s2)" by simp
  have gs: "generate_script env w s content = (Inr r, w2, s2)"
    unfolding generate_script_def ch t try_providers_step [OF ap] by simp
  from step have hd: "current_provider_name w = None \<or>
      current_provider_name w = Some (hd (providers_to_try w))"
    by (auto simp: in_step_def init_providers_to_try_def split: option.splits)
  have d: "attempts_of (log s2) =
           attempts_of (log s) @
             (if current_provider_name w = None then pre @ [k] else tl (pre @ [k]))
         \<and> imports_of (log s2) =
           imports_of (log s) @ map (\<lambda>n. the (ai_class_path n))
             (if current_provider_name w = None then pre @ [k] else tl (pre @ [k]))"
    if dist: "distinct (pre @ [k])"
  proof (cases "pre = []")
    case True
    with e1 have "w1 = w" "s1 = s" by simp_all
    with True a i hd ch show ?thesis by auto
  next
    case False
    with dist nm1 have nk: "current_provider_name w1 \<noteq> Some k" by auto
    from False ch have "hd (providers_to_try w) = hd pre" by simp
    with hd False have "(pre \<noteq> [] \<and> current_provider_name w = Some (hd pre))
        = (current_provider_name w \<noteq> None)" by auto
    with dist d1 a i nk False show ?thesis by (cases pre) auto
  qed
  from gs nm own g g1 d show ?thesis by simp
qed

text \<open>A wrapper in step, with every candidate raising: the call raises.\<close>

lemma generate_script_own_all_raise:
  assumes step: "in_step env cfg w s"
    and fail: "\<forall>n\<in>set (providers_to_try w). \<exists>msg. own_outcome env cfg content n = Some (Inl msg)"
  shows "fst (generate_script env w s content) =
       (if unprintable env (own_error env cfg content (last (providers_to_try w)))
        then Inl MarkupError
        else Inl (AllFailed (providers_to_try w)
                    (own_error env cfg content (last (providers_to_try w)))))
    \<and> generating_of (log (snd (snd (generate_script env w s content)))) =
        generating_of (log s) @ providers_to_try w
    \<and> current_provider_name (fst (snd (generate_script env w s content))) =
        Some (last (providers_to_try w))
    \<and> current_provider (fst (snd (generate_script env w s content))) =
        own_instance env cfg (last (providers_to_try w))
    \<and> (distinct (providers_to_try w) \<longrightarrow>
         attempts_of (log (snd (snd (generate_script env w s content)))) =
           attempts_of (log s) @
             (if current_provider_name w = None then providers_to_try w
              else tl (providers_to_try w))
         \<and> imports_of (log (snd (snd (generate_script env w s content)))) =
           imports_of (log s) @ map (\<lambda>n. the (ai_class_path n))
             (if current_provider_name w = None then providers_to_try w
              else tl (providers_to_try w)))"
proof -
  let ?chain = "providers_to_try w"
  from step have ne: "?chain \<noteq> []" by (simp add: in_step_def init_providers_to_try_def)
  from in_step_loop_inv [OF step] have inv: "loop_inv env cfg w s (?chain @ [])" by simp
  from try_providers_own_prefix [OF inv fail, of "[]" None] ne obtain w1 s1 where
    t: "try_providers env content ?chain [] None w s =
          try_providers env content [] ?chain (own_error env cfg content (last ?chain)) w1 s1"
    and g1: "generating_of (log s1) = generating_of (log s) @ ?chain"
    and n1: "current_provider_name w1 = Some (last ?chain)"
      "current_provider w1 = own_instance env cfg (last ?chain)"
    and d1: "distinct ?chain \<longrightarrow>
               attempts_of (log s1) = attempts_of (log s) @
                 (if current_provider_name w = Some (hd ?chain) then tl ?chain else ?chain)
               \<and> imports_of (log s1) = imports_of (log s) @
                 map (\<lambda>n. the (ai_class_path n))
                   (if current_provider_name w = Some (hd ?chain) then tl ?chain else ?chain)"
    by auto
  from step have hd: "current_provider_name w = None \<or>
      current_provider_name w = Some (hd ?chain)"
    by (auto simp: in_step_def init_providers_to_try_def split: option.splits)
  then have "(current_provider_name w = Some (hd ?chain)) = (current_provider_name w \<noteq> None)"
    by auto
  with d1 g1 n1 show ?thesis unfolding generate_script_def t by simp
qed

subsection \<open>Unfolding a run on concrete data\<close>

lemmas ex_defs = default_settings_def settings_with_ai_def fresh_state_def env_all_succeed_def
  env_operations_fail_def env_groq_unavailable_def env_spec_scenario_def settings_with_music_def
  env_openai_unavailable_def env_huggingface_unavailable_def
  env_first_content_fails_def
lemmas run_defs = load_def load_fresh_def load_providers_to_try_def init_providers_to_try_def
  PLUGIN_REGISTRY_def emit_def Let_def load_primary_def load_fallback_def wrapper_init_def
  ensure_loaded_def attempt_provider_def generate_script_def first_call_def clear_cache_def
  unprintable_def
section \<open>The resolution chain\<close>

lemma spec_append_fallbacks_distinct:
  "distinct (filter (\<lambda>x. x \<notin> set chain) fs) \<Longrightarrow>
   spec_append_fallbacks chain fs = chain @ filter (\<lambda>x. x \<notin> set chain) fs"
proof (induction fs arbitrary: chain)
  case Nil
  then show ?case by simp
next
  case (Cons f fs)
  show ?case
  proof (cases "f \<in> set chain")
    case True
    with Cons show ?thesis by simp
  next
    case False
    with Cons.prems have nf: "f \<notin> set fs \<or> True" and d: "distinct (filter (\<lambda>x. x \<notin> set chain) fs)"
      and nin: "f \<notin> set (filter (\<lambda>x. x \<notin> set chain) fs)"
      by auto
    from nin False have eq: "filter (\<lambda>x. x \<notin> set (chain @ [f])) fs = filter (\<lambda>x. x \<notin> set chain) fs"
      by (auto intro!: filter_cong)
    with d have "distinct (filter (\<lambda>x. x \<notin> set (chain @ [f])) fs)" by simp
    from Cons.IH [OF this] eq False show ?thesis by simp
  qed
qed

lemma spec_append_fallbacks_keeps_distinct:
  "distinct chain \<Longrightarrow> distinct (spec_append_fallbacks chain fs)"
  by (induction fs arbitrary: chain) auto

lemma load_providers_to_try_closed:
  "load_providers_to_try cfg =
     provider cfg # filter (\<lambda>n. n \<noteq> provider cfg) (fallback_names (fallback cfg))"
  by (simp add: load_providers_to_try_def fallback_names_def Let_def split: fallback_field.splits)

lemma init_providers_to_try_closed:
  "init_providers_to_try p fb = p # filter (\<lambda>n. n \<noteq> p) (fallback_names fb)"
  by (simp add: init_providers_to_try_def fallback_names_def split: fallback_field.splits)

lemma chain_eq_spec_iff:
  "p # filter (\<lambda>n. n \<noteq> p) fs = spec_append_fallbacks [p] fs \<longleftrightarrow>
   distinct (filter (\<lambda>n. n \<noteq> p) fs)"
proof
  assume "p # filter (\<lambda>n. n \<noteq> p) fs = spec_append_fallbacks [p] fs"
  moreover have "distinct (spec_append_fallbacks [p] fs)"
    by (rule spec_append_fallbacks_keeps_distinct) simp
  ultimately have "distinct (p # filter (\<lambda>n. n \<noteq> p) fs)" by simp
  then show "distinct (filter (\<lambda>n. n \<noteq> p) fs)" by simp
next
  assume "distinct (filter (\<lambda>n. n \<noteq> p) fs)"
  then have "distinct (filter (\<lambda>x. x \<notin> set [p]) fs)" by simp
  from spec_append_fallbacks_distinct [OF this]
  show "p # filter (\<lambda>n. n \<noteq> p) fs = spec_append_fallbacks [p] fs" by simp
qed

text \<open>
  C1, as amended. The list of providers to try is the primary followed by the names of
  the fallback field that differ from the primary, in the field's order. Repeated
  fallback names are kept: neither builder removes them. The two builders agree. The
  list is the chain of the specification exactly when the fallback names other than the
  primary are free of repetitions. An absent field, an empty list and the empty string
  give the primary alone.
\<close>

theorem providers_to_try_is_primary_then_other_fallbacks:
  "load_providers_to_try cfg =
     provider cfg # filter (\<lambda>n. n \<noteq> provider cfg) (fallback_names (fallback cfg))
   \<and> init_providers_to_try (provider cfg) (fallback cfg) = load_providers_to_try cfg
   \<and> (load_providers_to_try cfg = spec_chain (provider cfg) (fallback cfg)
        \<longleftrightarrow> distinct (filter (\<lambda>n. n \<noteq> provider cfg) (fallback_names (fallback cfg))))
   \<and> (fallback cfg = FallbackAbsent \<or> fallback cfg = FallbackList [] \<or> fallback cfg = FallbackStr []
        \<longrightarrow> load_providers_to_try cfg = [provider cfg])"
  using chain_eq_spec_iff [of "provider cfg" "fallback_names (fallback cfg)"]
  by (auto simp: load_providers_to_try_closed init_providers_to_try_closed spec_chain_def
      fallback_names_def)

text \<open>
  C1, at two configurations: a fallback list that names the primary and has no
  repetition, and an empty fallback string.
\<close>

theorem providers_to_try_witness:
  "load_providers_to_try
     \<lparr>provider = ''langchain'', fallback = FallbackList [''groq'', ''langchain'', ''huggingface'']\<rparr>
     = spec_chain ''langchain'' (FallbackList [''groq'', ''langchain'', ''huggingface''])
   \<and> load_providers_to_try \<lparr>provider = ''reddit'', fallback = FallbackStr []\<rparr> = [''reddit'']"
proof
  let ?names = "[''groq'', ''langchain'', ''huggingface'']"
  let ?cfg = "\<lparr>provider = ''langchain'', fallback = FallbackList ?names\<rparr>"
  have d: "distinct (filter (\<lambda>n. n \<noteq> ''langchain'') (fallback_names (FallbackList ?names)))"
    by (simp add: fallback_names_def)
  from providers_to_try_is_primary_then_other_fallbacks
         [of ?cfg, unfolded provider_config.select_convs]
  have "load_providers_to_try ?cfg = spec_chain ''langchain'' (FallbackList ?names)
          \<longleftrightarrow> distinct (filter (\<lambda>n. n \<noteq> ''langchain'') (fallback_names (FallbackList ?names)))"
    by blast
  with d show "load_providers_to_try ?cfg = spec_chain ''langchain'' (FallbackList ?names)"
    by blast
next
  from providers_to_try_is_primary_then_other_fallbacks
         [of "\<lparr>provider = ''reddit'', fallback = FallbackStr []\<rparr>",
          unfolded provider_config.select_convs]
  show "load_providers_to_try \<lparr>provider = ''reddit'', fallback = FallbackStr []\<rparr> = [''reddit'']"
    by blast
qed

text \<open>
  C1 as stated fails where the fallback list names a provider twice: the code keeps both
  occurrences, the chain of the specification keeps the first.
\<close>

theorem chain_keeps_repeated_fallbacks:
  "load_providers_to_try \<lparr>provider = ''langchain'', fallback = FallbackList [''groq'', ''groq'']\<rparr>
     \<noteq> spec_chain ''langchain'' (FallbackList [''groq'', ''groq''])"
  by (simp add: load_providers_to_try_def spec_chain_def fallback_names_def)
section \<open>The cache\<close>

text \<open>
  C10. When the cache holds an instance for the plugin type and \<^verbatim>\<open>force_reload\<close>
  is false, \<^verbatim>\<open>load\<close> returns that instance whatever the settings and the providers
  are: it reads no configuration, writes no "attempting" or "importing" line, and leaves
  the cache and the settings as they are. With \<^verbatim>\<open>force_reload\<close>, or after
  \<^verbatim>\<open>clear_cache\<close>, it loads afresh.
\<close>

theorem load_returns_cached_instance:
  assumes "cache s plugin_type = Some inst"
  shows "load env plugin_type False (s\<lparr>settings := cfg\<rparr>) =
           (Inr inst, s\<lparr>settings := cfg, log := log s @ [UsingCached plugin_type]\<rparr>)
       \<and> attempts_of (log (snd (load env plugin_type False (s\<lparr>settings := cfg\<rparr>)))) = attempts_of (log s)
       \<and> imports_of (log (snd (load env plugin_type False (s\<lparr>settings := cfg\<rparr>)))) = imports_of (log s)
       \<and> load env plugin_type True s = load_fresh env plugin_type s
       \<and> load env plugin_type False (clear_cache s) = load_fresh env plugin_type (clear_cache s)"
  using assms by (simp add: load_def emit_def clear_cache_def)

text \<open>
  C10, after a first load has cached the LangChain provider: the settings now name
  \<^verbatim>\<open>groq\<close>, and \<^verbatim>\<open>load\<close> still returns the cached instance.
\<close>

theorem load_returns_cached_instance_witness:
  "cache (snd (load env_all_succeed ''ai'' False (fresh_state default_settings))) ''ai''
     = Some ''app.plugins.ai.langchain_plugin.LangChainProvider''
   \<and> fst (load env_groq_unavailable ''ai'' False
        ((snd (load env_all_succeed ''ai'' False (fresh_state default_settings)))
           \<lparr>settings := settings_with_ai ''groq'' [''huggingface'']\<rparr>))
     = Inr ''app.plugins.ai.langchain_plugin.LangChainProvider''"
proof -
  have c: "cache (snd (load env_all_succeed ''ai'' False (fresh_state default_settings))) ''ai''
     = Some ''app.plugins.ai.langchain_plugin.LangChainProvider''"
    by (simp add: ex_defs run_defs)
  from load_returns_cached_instance [OF c, of env_groq_unavailable
         "settings_with_ai ''groq'' [''huggingface'']"] c
  show ?thesis by simp
qed
section \<open>A capability that is not in the registry\<close>

text \<open>
  C4, as amended. When the plugin type is not in the registry and the cache does not
  answer, \<^verbatim>\<open>load\<close> ends in an error, constructs nothing (no "importing" line) and
  leaves the cache as it is. Without a settings section for the plugin type the error is
  the \<^verbatim>\<open>AttributeError\<close> of line 84, before any candidate. With a section, every
  candidate of the chain is attempted in turn, each attempt raises the "Unknown plugin
  type" \<^verbatim>\<open>ValueError\<close>, which is caught like any other failure, and the error that
  reaches the caller is the aggregated \<^verbatim>\<open>RuntimeError\<close> naming the whole chain, with
  that \<^verbatim>\<open>ValueError\<close> as its last error.
\<close>

theorem load_unknown_capability_fails_after_trying_chain:
  assumes "map_of PLUGIN_REGISTRY plugin_type = None"
    and "cache s plugin_type = None \<or> force_reload"
  shows "isl (fst (load env plugin_type force_reload s))
       \<and> cache (snd (load env plugin_type force_reload s)) = cache s
       \<and> imports_of (log (snd (load env plugin_type force_reload s))) = imports_of (log s)
       \<and> (settings s plugin_type = None \<longrightarrow>
            fst (load env plugin_type force_reload s) = Inl (AttributeError plugin_type)
            \<and> attempts_of (log (snd (load env plugin_type force_reload s))) = attempts_of (log s))
       \<and> (\<forall>cfg. settings s plugin_type = Some cfg \<longrightarrow>
            fst (load env plugin_type force_reload s) =
              Inl (LoadFailed plugin_type (load_providers_to_try cfg)
                     (Some (ValueError (''Unknown plugin type: '' @ plugin_type))))
            \<and> attempts_of (log (snd (load env plugin_type force_reload s))) =
                attempts_of (log s) @ load_providers_to_try cfg)"
proof -
  from assms(2) have l: "load env plugin_type force_reload s = load_fresh env plugin_type s"
    by (auto simp: load_def split: option.splits)
  show ?thesis
  proof (cases "settings s plugin_type")
    case None
    then show ?thesis unfolding l by (simp add: load_fresh_def Let_def)
  next
    case (Some cfg)
    have ne: "load_providers_to_try cfg \<noteq> []"
      by (simp add: load_providers_to_try_def Let_def)
    from ne have "load_providers_to_try cfg \<noteq> [] \<or> \<not> unprintable env None" by simp
    from load_loop_unknown_type [OF assms(1) this, of cfg "load_providers_to_try cfg"
           "emit (LoadingPlugin plugin_type) s"] ne Some
    show ?thesis unfolding l by (simp add: load_fresh_def Let_def)
  qed
qed

text \<open>C4, for a section \<^verbatim>\<open>music\<close> that the registry does not know.\<close>

theorem load_unknown_capability_witness:
  "map_of PLUGIN_REGISTRY ''music'' = None
   \<and> cache (fresh_state settings_with_music) ''music'' = None
   \<and> fst (load env_all_succeed ''music'' False (fresh_state settings_with_music)) =
       Inl (LoadFailed ''music'' [''suno'', ''local'']
              (Some (ValueError ''Unknown plugin type: music'')))
   \<and> cache (snd (load env_all_succeed ''music'' False (fresh_state settings_with_music))) ''music'' = None"
proof -
  have r: "map_of PLUGIN_REGISTRY ''music'' = None" by (simp add: PLUGIN_REGISTRY_def)
  have c: "cache (fresh_state settings_with_music) ''music'' = None \<or> False"
    by (simp add: fresh_state_def)
  have st: "settings (fresh_state settings_with_music) ''music'' =
     Some \<lparr>provider = ''suno'', fallback = FallbackList [''local'']\<rparr>"
    by (simp add: fresh_state_def settings_with_music_def)
  have ch: "load_providers_to_try \<lparr>provider = ''suno'', fallback = FallbackList [''local'']\<rparr>
     = [''suno'', ''local'']" by (simp add: load_providers_to_try_def)
  from load_unknown_capability_fails_after_trying_chain [OF r c, of env_all_succeed] st ch r c
  show ?thesis by simp
qed

text \<open>
  C4 as stated fails there: the error is not the unknown-capability error itself, and
  both candidates of the chain have been attempted before it is raised.
\<close>

theorem unknown_capability_goes_through_the_chain:
  "fst (load env_all_succeed ''music'' False (fresh_state settings_with_music)) \<noteq>
     Inl (ValueError ''Unknown plugin type: music'')
   \<and> attempts_of (log (snd (load env_all_succeed ''music'' False (fresh_state settings_with_music))))
       = [''suno'', ''local'']"
  by (simp add: ex_defs run_defs attempts_of_def)
section \<open>The invariant of the cache\<close>

lemma clear_cache_inv: "cache_inv env (clear_cache s)"
  by (simp add: clear_cache_def cache_inv_def)

lemma generate_script_cache_inv:
  assumes "cache_inv env s"
  shows "cache_inv env (snd (snd (generate_script env w s content)))"
proof -
  obtain res w' s' where t: "try_providers env content (providers_to_try w) [] None w s = (res, w', s')"
    by (cases "try_providers env content (providers_to_try w) [] None w s") auto
  from try_providers_facts [OF t] assms have "cache_inv env s'" by blast
  with t show ?thesis by (simp add: generate_script_def)
qed

lemma wrapper_init_cache_inv:
  "cache_inv env s \<Longrightarrow> cache_inv env (snd (wrapper_init env s))"
proof (cases "settings s ''ai''")
  case None
  assume "cache_inv env s"
  with None show ?thesis by (simp add: wrapper_init_def)
next
  case (Some ai)
  assume ci: "cache_inv env s"
  let ?w = "\<lparr>primary_provider_name = provider ai, fallback_providers = fallback ai,
             providers_to_try = init_providers_to_try (provider ai) (fallback ai),
             current_provider = None, current_provider_name = None,
             settings_stale = None\<rparr>"
  obtain w' s' where lp: "load_primary env ?w s = (w', s')" by (cases "load_primary env ?w s")
  from load_primary_facts [OF lp] ci have "cache_inv env s'" by simp
  with Some lp show ?thesis by (simp add: wrapper_init_def Let_def)
qed

text \<open>
  C7. Every instance in the cache is one that a constructor call returned. The
  invariant is kept by \<^verbatim>\<open>load\<close>, \<^verbatim>\<open>clear_cache\<close>, the two loaders of the
  wrapper, its constructor and \<^verbatim>\<open>generate_script\<close>. A \<^verbatim>\<open>load\<close> that fails
  leaves the cache as it was, and a \<^verbatim>\<open>load\<close> that changes the cache puts, under its
  plugin type, the instance that a constructor has just returned and that it returns
  itself.
\<close>

theorem cache_holds_only_constructed_instances:
  assumes "cache_inv env s"
  shows "cache_inv env (snd (load env plugin_type force_reload s))
       \<and> cache_inv env (clear_cache s)
       \<and> cache_inv env (snd (snd (load_fallback env provider_name w s)))
       \<and> cache_inv env (snd (load_primary env w s))
       \<and> cache_inv env (snd (wrapper_init env s))
       \<and> cache_inv env (snd (snd (generate_script env w s content)))
       \<and> (isl (fst (load env plugin_type force_reload s)) \<longrightarrow>
            cache (snd (load env plugin_type force_reload s)) = cache s)
       \<and> (cache (snd (load env plugin_type force_reload s)) = cache s \<or>
            (\<exists>inst class_path cfg.
               construct env class_path cfg = Inr inst
               \<and> fst (load env plugin_type force_reload s) = Inr inst
               \<and> cache (snd (load env plugin_type force_reload s)) = (cache s)(plugin_type \<mapsto> inst)))"
proof -
  obtain r s' where l: "load env plugin_type force_reload s = (r, s')"
    by (cases "load env plugin_type force_reload s")
  obtain b w1 s1 where lf: "load_fallback env provider_name w s = (b, w1, s1)"
    by (cases "load_fallback env provider_name w s") auto
  obtain w2 s2 where lp: "load_primary env w s = (w2, s2)" by (cases "load_primary env w s")
  from load_cache_inv [OF assms, of plugin_type force_reload]
  have 1: "cache_inv env (snd (load env plugin_type force_reload s))" .
  have 2: "cache_inv env (clear_cache s)" by (rule clear_cache_inv)
  from load_fallback_facts [OF lf] assms lf
  have 3: "cache_inv env (snd (snd (load_fallback env provider_name w s)))" by simp
  from load_primary_facts [OF lp] assms lp
  have 4: "cache_inv env (snd (load_primary env w s))" by simp
  from wrapper_init_cache_inv [OF assms]
  have 5: "cache_inv env (snd (wrapper_init env s))" .
  from generate_script_cache_inv [OF assms]
  have 6: "cache_inv env (snd (snd (generate_script env w s content)))" .
  from load_cache [OF l] l
  have 7: "isl (fst (load env plugin_type force_reload s)) \<longrightarrow>
            cache (snd (load env plugin_type force_reload s)) = cache s"
    by auto
  from load_cache [OF l] l
  have 8: "cache (snd (load env plugin_type force_reload s)) = cache s \<or>
            (\<exists>inst class_path cfg.
               construct env class_path cfg = Inr inst
               \<and> fst (load env plugin_type force_reload s) = Inr inst
               \<and> cache (snd (load env plugin_type force_reload s)) = (cache s)(plugin_type \<mapsto> inst))"
    by auto
  from 1 2 3 4 5 6 7 8 show ?thesis by (intro conjI)
qed

text \<open>
  C7, with the LangChain instance cached and the settings naming \<^verbatim>\<open>groq\<close>, whose
  constructor raises: the forced reload fails and the cache still holds the instance it
  held.
\<close>

theorem cache_invariant_witness:
  "cache_inv env_groq_unavailable
     \<lparr>cache = [''ai'' \<mapsto> ''app.plugins.ai.langchain_plugin.LangChainProvider''],
      settings = settings_with_ai ''groq'' [], log = []\<rparr>
   \<and> isl (fst (load env_groq_unavailable ''ai'' True
        \<lparr>cache = [''ai'' \<mapsto> ''app.plugins.ai.langchain_plugin.LangChainProvider''],
         settings = settings_with_ai ''groq'' [], log = []\<rparr>))
   \<and> cache (snd (load env_groq_unavailable ''ai'' True
        \<lparr>cache = [''ai'' \<mapsto> ''app.plugins.ai.langchain_plugin.LangChainProvider''],
         settings = settings_with_ai ''groq'' [], log = []\<rparr>)) ''ai''
       = Some ''app.plugins.ai.langchain_plugin.LangChainProvider''
   \<and> cache_inv env_groq_unavailable (snd (load env_groq_unavailable ''ai'' True
        \<lparr>cache = [''ai'' \<mapsto> ''app.plugins.ai.langchain_plugin.LangChainProvider''],
         settings = settings_with_ai ''groq'' [], log = []\<rparr>))"
proof -
  let ?s = "\<lparr>cache = [''ai'' \<mapsto> ''app.plugins.ai.langchain_plugin.LangChainProvider''],
      settings = settings_with_ai ''groq'' [], log = []\<rparr> :: string state"
  have "construct env_groq_unavailable ''app.plugins.ai.langchain_plugin.LangChainProvider''
          \<lparr>provider = ''langchain'', fallback = FallbackAbsent\<rparr>
        = Inr ''app.plugins.ai.langchain_plugin.LangChainProvider''"
    by (simp add: env_groq_unavailable_def)
  then have "well_constructed env_groq_unavailable
               ''app.plugins.ai.langchain_plugin.LangChainProvider''"
    unfolding well_constructed_def by blast
  then have inv: "cache_inv env_groq_unavailable ?s"
    by (simp add: cache_inv_def)
  have f: "isl (fst (load env_groq_unavailable ''ai'' True ?s))"
    by (simp add: ex_defs run_defs)
  from cache_holds_only_constructed_instances [OF inv, of "''ai''" True] inv f
  show ?thesis by simp
qed
section \<open>What generate_script returns\<close>

lemma subseq_last_in_set:
  assumes "subseq new chain" "new \<noteq> []" shows "last new \<in> set chain"
proof -
  from assms(2) have "last new \<in> set new" by simp
  with list_emb_set [OF assms(1)] show ?thesis by blast
qed

text \<open>
  C2, as amended. When \<^verbatim>\<open>generate_script\<close> succeeds, what the caller receives is
  the value that the operation of the wrapper's current provider returned, and nothing
  else. The name under which that provider was tried is one of the wrapper's
  \<^verbatim>\<open>providers_to_try\<close> and is left in \<^verbatim>\<open>_current_provider_name\<close>; the
  candidates that failed before it are only logged.
\<close>

theorem generate_script_returns_the_operation_result:
  assumes "fst (generate_script env w s content) = Inr r"
  shows "\<exists>n p. n \<in> set (providers_to_try w)
           \<and> current_provider_name (fst (snd (generate_script env w s content))) = Some n
           \<and> current_provider (fst (snd (generate_script env w s content))) = Some p
           \<and> operate env p content = Inr r"
proof -
  obtain res w' s' where t:
    "try_providers env content (providers_to_try w) [] None w s = (res, w', s')"
    by (cases "try_providers env content (providers_to_try w) [] None w s") auto
  with assms have res: "res = Inr r" by (simp add: generate_script_def)
  from try_providers_facts [OF t] res obtain new p where
    "subseq new (providers_to_try w)" "new \<noteq> []" "current_provider_name w' = Some (last new)"
    "current_provider w' = Some p" "operate env p content = Inr r"
    by blast
  with subseq_last_in_set [of new "providers_to_try w"] t show ?thesis
    by (auto simp: generate_script_def)
qed

text \<open>
  C2, in the scenario of the specification: primary \<^verbatim>\<open>openai_direct\<close>, fallbacks
  \<^verbatim>\<open>groq\<close> and \<^verbatim>\<open>huggingface\<close>.
\<close>

theorem generate_script_result_witness:
  "fst (generate_script env_spec_scenario
          (projr (fst (wrapper_init env_spec_scenario
             (fresh_state (settings_with_ai ''openai_direct'' [''groq'', ''huggingface''])))))
          (snd (wrapper_init env_spec_scenario
             (fresh_state (settings_with_ai ''openai_direct'' [''groq'', ''huggingface'']))))
          ''content'')
     = Inr ''script by app.plugins.ai.huggingface_plugin.HuggingFaceProvider''
   \<and> (\<exists>n p. n \<in> set (providers_to_try (projr (fst (wrapper_init env_spec_scenario
             (fresh_state (settings_with_ai ''openai_direct'' [''groq'', ''huggingface''])))))) 
         \<and> operate env_spec_scenario p ''content''
             = Inr ''script by app.plugins.ai.huggingface_plugin.HuggingFaceProvider'')"
proof -
  let ?i = "wrapper_init env_spec_scenario
             (fresh_state (settings_with_ai ''openai_direct'' [''groq'', ''huggingface'']))"
  have h: "fst (generate_script env_spec_scenario (projr (fst ?i)) (snd ?i) ''content'')
     = Inr ''script by app.plugins.ai.huggingface_plugin.HuggingFaceProvider''"
    by (simp add: ex_defs run_defs is_quota_error_def)
  from generate_script_returns_the_operation_result [OF h] h show ?thesis by blast
qed

text \<open>
  C2 as stated fails: the call that is served by \<^verbatim>\<open>huggingface\<close> after two
  candidates have failed returns the very value that is returned when
  \<^verbatim>\<open>huggingface\<close> is the primary and nothing fails. The returned value carries no
  attempt history.
\<close>

theorem returned_value_carries_no_history:
  "fst (first_call env_spec_scenario
          (fresh_state (settings_with_ai ''openai_direct'' [''groq'', ''huggingface''])) ''content'')
     = fst (first_call env_all_succeed
          (fresh_state (settings_with_ai ''huggingface'' [])) ''content'')
   \<and> generating_of (log (snd (snd (first_call env_spec_scenario
          (fresh_state (settings_with_ai ''openai_direct'' [''groq'', ''huggingface''])) ''content''))))
       = [''openai_direct'', ''groq'', ''huggingface'']
   \<and> generating_of (log (snd (snd (first_call env_all_succeed
          (fresh_state (settings_with_ai ''huggingface'' [])) ''content''))))
       = [''huggingface'']"
  by (simp add: ex_defs run_defs is_quota_error_def)
section \<open>When every candidate fails\<close>

lemma load_all_candidates_fail:
  assumes st: "settings s plugin_type = Some cfg"
    and miss: "cache s plugin_type = None \<or> force_reload"
    and fail: "\<forall>n \<in> set (load_providers_to_try cfg). load_candidate_fails env plugin_type cfg n"
  shows "fst (load env plugin_type force_reload s) =
           (if unprintable env (last_load_error env plugin_type cfg (load_providers_to_try cfg))
            then Inl MarkupError
            else Inl (LoadFailed plugin_type (load_providers_to_try cfg)
                        (last_load_error env plugin_type cfg (load_providers_to_try cfg))))
       \<and> attempts_of (log (snd (load env plugin_type force_reload s))) =
            attempts_of (log s) @ load_providers_to_try cfg
       \<and> cache (snd (load env plugin_type force_reload s)) = cache s"
proof -
  let ?chain = "load_providers_to_try cfg"
  let ?s0 = "emit (LoadingPlugin plugin_type) s"
  from miss have l: "load env plugin_type force_reload s = load_fresh env plugin_type s"
    by (auto simp: load_def split: option.splits)
  from st have lf: "load_fresh env plugin_type s =
      load_loop env plugin_type cfg ?chain ?chain None ?s0"
    by (simp add: load_fresh_def Let_def)
  from load_loop_fail_prefix [OF fail, of ?chain "[]" None ?s0]
  obtain s1 where
    "load_loop env plugin_type cfg ?chain ?chain None ?s0 =
       load_loop env plugin_type cfg ?chain []
         (last_load_error env plugin_type cfg ?chain) s1"
    "cache s1 = cache ?s0" "attempts_of (log s1) = attempts_of (log ?s0) @ ?chain"
    by (auto simp: last_load_error_def Let_def)
  then show ?thesis unfolding l lf by simp
qed

lemma generate_script_nothing_serves:
  assumes hc: "holds_constructed env w s"
    and fail: "\<forall>inst. well_constructed env inst \<longrightarrow> isl (operate env inst content)"
  shows "\<exists>tried le.
           fst (generate_script env w s content) =
             (if unprintable env le then Inl MarkupError else Inl (AllFailed tried le))
           \<and> subseq tried (providers_to_try w)
           \<and> length tried \<le> length (providers_to_try w)
           \<and> generating_of (log (snd (snd (generate_script env w s content)))) =
                generating_of (log s) @ tried
           \<and> (tried = [] \<longrightarrow> le = None)
           \<and> (tried \<noteq> [] \<longrightarrow>
                (\<exists>inst msg. well_constructed env inst \<and> operate env inst content = Inl msg
                   \<and> le = Some (ProviderError msg)))"
proof -
  obtain res w' s' where t:
    "try_providers env content (providers_to_try w) [] None w s = (res, w', s')"
    by (cases "try_providers env content (providers_to_try w) [] None w s") auto
  from try_providers_frame [OF t] hc have hc': "holds_constructed env w' s'" by simp
  from try_providers_facts [OF t, unfolded append_Nil] obtain new where
    g: "generating_of (log s') = generating_of (log s) @ new"
    and sub: "subseq new (providers_to_try w)"
    and e: "\<forall>e. res = Inl e \<longrightarrow>
               (\<exists>le'. e = (if unprintable env le' then MarkupError
                            else AllFailed new le')
                  \<and> (new = [] \<longrightarrow> le' = None)
                  \<and> (new \<noteq> [] \<longrightarrow>
                        (\<exists>inst msg. le' = Some (ProviderError msg)
                           \<and> operate env inst content = Inl msg
                           \<and> (holds_constructed env w s \<longrightarrow> well_constructed env inst))))"
    and r: "\<forall>r. res = Inr r \<longrightarrow>
               (\<exists>p. current_provider w' = Some p \<and> operate env p content = Inr r)"
    by blast
  have "\<exists>e. res = Inl e"
  proof (cases res)
    case (Inl e)
    then show ?thesis by simp
  next
    case (Inr x)
    with r obtain p where p: "current_provider w' = Some p" "operate env p content = Inr x"
      by blast
    from p(1) hc' have "well_constructed env p" by (simp add: holds_constructed_def)
    with fail p(2) show ?thesis by auto
  qed
  then obtain e where res: "res = Inl e" ..
  with e hc obtain le where le: "e = (if unprintable env le then MarkupError else AllFailed new le)"
    "new = [] \<longrightarrow> le = None"
    "new \<noteq> [] \<longrightarrow> (\<exists>inst msg. well_constructed env inst
        \<and> operate env inst content = Inl msg \<and> le = Some (ProviderError msg))"
    by blast
  from sub have len: "length new \<le> length (providers_to_try w)" by (rule list_emb_length)
  from t res have gs: "generate_script env w s content = (Inl e, w', s')"
    by (simp add: generate_script_def)
  show ?thesis
  proof (intro exI [of _ new] exI [of _ le] conjI)
    from gs le(1) show "fst (generate_script env w s content) =
             (if unprintable env le then Inl MarkupError else Inl (AllFailed new le))" by simp
    from sub show "subseq new (providers_to_try w)" .
    from len show "length new \<le> length (providers_to_try w)" .
    from gs g show "generating_of (log (snd (snd (generate_script env w s content)))) =
                generating_of (log s) @ new" by simp
    from le(2) show "new = [] \<longrightarrow> le = None" .
    from le(3) show "new \<noteq> [] \<longrightarrow>
                (\<exists>inst msg. well_constructed env inst \<and> operate env inst content = Inl msg
                   \<and> le = Some (ProviderError msg))" .
  qed
qed

text \<open>
  C3, as amended. When every candidate fails, the call ends with one aggregated
  \<^verbatim>\<open>RuntimeError\<close>, or with the \<^verbatim>\<open>MarkupError\<close> of the console when the text of the
  last error cannot be printed. None of the two aggregated errors pairs each candidate
  with its error: each carries a list of names and the last error only.

  For \<^verbatim>\<open>load\<close>, with every candidate of the chain failing: the error names every
  candidate of the chain, in chain order, and its last error is the error of the last
  candidate that left one (a provider name that is not registered leaves none); every
  candidate has been attempted and the cache is as it was.

  For \<^verbatim>\<open>generate_script\<close>, on a wrapper in step with the settings and with every
  candidate of the chain constructed by its own constructor and raising in its
  operation: the error names every candidate of the chain, in chain order, its last
  error is the error that the operation of the last candidate raised, and the operation
  has been called once for each entry of the chain, in chain order.

  For \<^verbatim>\<open>generate_script\<close> on any wrapper, when no constructed instance can serve the
  content: the error names the candidates under which the operation was called, in
  order, which is a subsequence of the chain and so at most as long; its last error is
  what an operation raised on the content, and is absent when no operation was called.
\<close>

theorem exhausted_chain_raises_one_aggregated_error:
  "(settings s plugin_type = Some cfg \<and> (cache s plugin_type = None \<or> force_reload)
      \<and> (\<forall>n \<in> set (load_providers_to_try cfg). load_candidate_fails env plugin_type cfg n)
    \<longrightarrow> fst (load env plugin_type force_reload s) =
           (if unprintable env (last_load_error env plugin_type cfg (load_providers_to_try cfg))
            then Inl MarkupError
            else Inl (LoadFailed plugin_type (load_providers_to_try cfg)
                        (last_load_error env plugin_type cfg (load_providers_to_try cfg))))
       \<and> attempts_of (log (snd (load env plugin_type force_reload s))) =
            attempts_of (log s) @ load_providers_to_try cfg
       \<and> cache (snd (load env plugin_type force_reload s)) = cache s)
   \<and> (in_step env ai w s
      \<and> (\<forall>n \<in> set (providers_to_try w). \<exists>msg. own_outcome env ai content n = Some (Inl msg))
    \<longrightarrow> fst (generate_script env w s content) =
           (if unprintable env (own_error env ai content (last (providers_to_try w)))
            then Inl MarkupError
            else Inl (AllFailed (providers_to_try w)
                        (own_error env ai content (last (providers_to_try w)))))
       \<and> generating_of (log (snd (snd (generate_script env w s content)))) =
            generating_of (log s) @ providers_to_try w)
   \<and> (holds_constructed env w s
      \<and> (\<forall>inst. well_constructed env inst \<longrightarrow> isl (operate env inst content))
    \<longrightarrow> (\<exists>tried le.
           fst (generate_script env w s content) =
             (if unprintable env le then Inl MarkupError else Inl (AllFailed tried le))
           \<and> subseq tried (providers_to_try w)
           \<and> length tried \<le> length (providers_to_try w)
           \<and> generating_of (log (snd (snd (generate_script env w s content)))) =
                generating_of (log s) @ tried
           \<and> (tried = [] \<longrightarrow> le = None)
           \<and> (tried \<noteq> [] \<longrightarrow>
                (\<exists>inst msg. well_constructed env inst \<and> operate env inst content = Inl msg
                   \<and> le = Some (ProviderError msg)))))"
proof (intro conjI)
  show "settings s plugin_type = Some cfg \<and> (cache s plugin_type = None \<or> force_reload)
      \<and> (\<forall>n \<in> set (load_providers_to_try cfg). load_candidate_fails env plugin_type cfg n)
    \<longrightarrow> fst (load env plugin_type force_reload s) =
           (if unprintable env (last_load_error env plugin_type cfg (load_providers_to_try cfg))
            then Inl MarkupError
            else Inl (LoadFailed plugin_type (load_providers_to_try cfg)
                        (last_load_error env plugin_type cfg (load_providers_to_try cfg))))
       \<and> attempts_of (log (snd (load env plugin_type force_reload s))) =
            attempts_of (log s) @ load_providers_to_try cfg
       \<and> cache (snd (load env plugin_type force_reload s)) = cache s"
    using load_all_candidates_fail [of s plugin_type cfg force_reload env] by blast
  show "in_step env ai w s
      \<and> (\<forall>n \<in> set (providers_to_try w). \<exists>msg. own_outcome env ai content n = Some (Inl msg))
    \<longrightarrow> fst (generate_script env w s content) =
           (if unprintable env (own_error env ai content (last (providers_to_try w)))
            then Inl MarkupError
            else Inl (AllFailed (providers_to_try w)
                        (own_error env ai content (last (providers_to_try w)))))
       \<and> generating_of (log (snd (snd (generate_script env w s content)))) =
            generating_of (log s) @ providers_to_try w"
    using generate_script_own_all_raise [of env ai w s content] by blast
  show "holds_constructed env w s
      \<and> (\<forall>inst. well_constructed env inst \<longrightarrow> isl (operate env inst content))
    \<longrightarrow> (\<exists>tried le.
           fst (generate_script env w s content) =
             (if unprintable env le then Inl MarkupError else Inl (AllFailed tried le))
           \<and> subseq tried (providers_to_try w)
           \<and> length tried \<le> length (providers_to_try w)
           \<and> generating_of (log (snd (snd (generate_script env w s content)))) =
                generating_of (log s) @ tried
           \<and> (tried = [] \<longrightarrow> le = None)
           \<and> (tried \<noteq> [] \<longrightarrow>
                (\<exists>inst msg. well_constructed env inst \<and> operate env inst content = Inl msg
                   \<and> le = Some (ProviderError msg))))"
    using generate_script_nothing_serves [of env w s content] by blast
qed

text \<open>
  C3, for a \<^verbatim>\<open>load\<close> whose two candidates fail (a constructor that raises, a name
  that is not registered) and for a \<^verbatim>\<open>generate_script\<close> whose two operations raise,
  on the wrapper as its constructor leaves it.
\<close>

theorem exhausted_chain_witness:
  "fst (load env_groq_unavailable ''ai'' False
          (fresh_state (settings_with_ai ''groq'' [''groq_typo''])))
     = Inl (LoadFailed ''ai'' [''groq'', ''groq_typo'']
              (Some (ProviderError ''GROQ_API_KEY not found in environment'')))
   \<and> fst (generate_script env_operations_fail
            (projr (fst (wrapper_init env_operations_fail
               (fresh_state (settings_with_ai ''langchain'' [''groq''])))))
            (snd (wrapper_init env_operations_fail
               (fresh_state (settings_with_ai ''langchain'' [''groq'']))))
            ''content'')
       = Inl (AllFailed [''langchain'', ''groq''] (Some (ProviderError ''connection refused'')))
   \<and> (\<exists>tried le.
         fst (generate_script env_operations_fail
                (projr (fst (wrapper_init env_operations_fail
                   (fresh_state (settings_with_ai ''langchain'' [''groq''])))))
                (snd (wrapper_init env_operations_fail
                   (fresh_state (settings_with_ai ''langchain'' [''groq'']))))
                ''content'')
           = (if unprintable env_operations_fail le then Inl MarkupError
              else Inl (AllFailed tried le))
         \<and> length tried \<le> 2
         \<and> (tried \<noteq> [] \<longrightarrow>
              (\<exists>inst msg. operate env_operations_fail inst ''content'' = Inl msg
                 \<and> le = Some (ProviderError msg))))"
proof (intro conjI)
  let ?s = "fresh_state (settings_with_ai ''groq'' [''groq_typo''])"
  let ?cfg = "\<lparr>provider = ''groq'', fallback = FallbackList [''groq_typo'']\<rparr>"
  have st: "settings ?s ''ai'' = Some ?cfg" by (simp add: ex_defs)
  have miss: "cache ?s ''ai'' = None \<or> False" by (simp add: ex_defs)
  have ch: "load_providers_to_try ?cfg = [''groq'', ''groq_typo'']"
    by (simp add: load_providers_to_try_def)
  have fail: "\<forall>n \<in> set (load_providers_to_try ?cfg).
                load_candidate_fails env_groq_unavailable ''ai'' ?cfg n"
    unfolding ch
    by (simp add: load_candidate_fails_def PLUGIN_REGISTRY_def env_groq_unavailable_def)
  have le: "last_load_error env_groq_unavailable ''ai'' ?cfg [''groq'', ''groq_typo'']
      = Some (ProviderError ''GROQ_API_KEY not found in environment'')"
    by (simp add: last_load_error_def load_candidate_error_def PLUGIN_REGISTRY_def
          env_groq_unavailable_def)
  have pr: "\<not> unprintable env_groq_unavailable
              (Some (ProviderError ''GROQ_API_KEY not found in environment''))"
    by (simp add: env_groq_unavailable_def)
  from exhausted_chain_raises_one_aggregated_error
         [where s = ?s and plugin_type = "''ai''" and cfg = ?cfg and force_reload = False
            and env = env_groq_unavailable, THEN conjunct1] st miss fail
  have "fst (load env_groq_unavailable ''ai'' False ?s) =
           (if unprintable env_groq_unavailable
                 (last_load_error env_groq_unavailable ''ai'' ?cfg (load_providers_to_try ?cfg))
            then Inl MarkupError
            else Inl (LoadFailed ''ai'' (load_providers_to_try ?cfg)
                        (last_load_error env_groq_unavailable ''ai'' ?cfg
                           (load_providers_to_try ?cfg))))"
    by blast
  with pr show "fst (load env_groq_unavailable ''ai'' False ?s)
     = Inl (LoadFailed ''ai'' [''groq'', ''groq_typo'']
              (Some (ProviderError ''GROQ_API_KEY not found in environment'')))"
    unfolding ch le by simp
next
  let ?i = "wrapper_init env_operations_fail (fresh_state (settings_with_ai ''langchain'' [''groq'']))"
  let ?ai = "\<lparr>provider = ''langchain'', fallback = FallbackList [''groq'']\<rparr>"
  have ch: "providers_to_try (projr (fst ?i)) = [''langchain'', ''groq'']"
    by (simp add: ex_defs run_defs)
  have step: "in_step env_operations_fail ?ai (projr (fst ?i)) (snd ?i)"
    by (simp add: in_step_def own_instance_def ai_class_path_def ex_defs run_defs)
  have fail: "\<forall>n \<in> set (providers_to_try (projr (fst ?i))).
      \<exists>msg. own_outcome env_operations_fail ?ai ''content'' n = Some (Inl msg)"
    unfolding ch
    by (simp add: own_outcome_def own_instance_def ai_class_path_def PLUGIN_REGISTRY_def
          env_operations_fail_def)
  have oe: "own_error env_operations_fail ?ai ''content'' ''groq''
      = Some (ProviderError ''connection refused'')"
    by (simp add: own_error_def own_outcome_def own_instance_def ai_class_path_def
          PLUGIN_REGISTRY_def env_operations_fail_def)
  have pr: "\<not> unprintable env_operations_fail (Some (ProviderError ''connection refused''))"
    by (simp add: env_operations_fail_def)
  from exhausted_chain_raises_one_aggregated_error
         [where env = env_operations_fail and content = "''content''" and w = "projr (fst ?i)"
            and s = "snd ?i" and ai = ?ai, THEN conjunct2, THEN conjunct1] step fail
  have "fst (generate_script env_operations_fail (projr (fst ?i)) (snd ?i) ''content'') =
           (if unprintable env_operations_fail
                 (own_error env_operations_fail ?ai ''content''
                    (last (providers_to_try (projr (fst ?i)))))
            then Inl MarkupError
            else Inl (AllFailed (providers_to_try (projr (fst ?i)))
                        (own_error env_operations_fail ?ai ''content''
                           (last (providers_to_try (projr (fst ?i)))))))"
    by blast
  with pr show "fst (generate_script env_operations_fail (projr (fst ?i)) (snd ?i) ''content'')
       = Inl (AllFailed [''langchain'', ''groq''] (Some (ProviderError ''connection refused'')))"
    unfolding ch by (simp add: oe)
next
  let ?i = "wrapper_init env_operations_fail (fresh_state (settings_with_ai ''langchain'' [''groq'']))"
  have ch: "providers_to_try (projr (fst ?i)) = [''langchain'', ''groq'']"
    by (simp add: ex_defs run_defs)
  have "construct env_operations_fail ''app.plugins.ai.langchain_plugin.LangChainProvider''
          \<lparr>provider = ''langchain'', fallback = FallbackAbsent\<rparr>
        = Inr ''app.plugins.ai.langchain_plugin.LangChainProvider''"
    by (simp add: env_operations_fail_def)
  then have wc: "well_constructed env_operations_fail
               ''app.plugins.ai.langchain_plugin.LangChainProvider''"
    unfolding well_constructed_def by blast
  have "cache (snd ?i) = [''ai'' \<mapsto> ''app.plugins.ai.langchain_plugin.LangChainProvider'']"
    "current_provider (projr (fst ?i)) = Some ''app.plugins.ai.langchain_plugin.LangChainProvider''"
    by (simp_all add: ex_defs run_defs)
  with wc have hc: "holds_constructed env_operations_fail (projr (fst ?i)) (snd ?i)"
    by (simp add: holds_constructed_def cache_inv_def)
  have fail: "\<forall>inst. well_constructed env_operations_fail inst \<longrightarrow>
      isl (operate env_operations_fail inst ''content'')"
    by (simp add: env_operations_fail_def)
  from exhausted_chain_raises_one_aggregated_error
         [where env = env_operations_fail and content = "''content''" and w = "projr (fst ?i)"
            and s = "snd ?i", THEN conjunct2, THEN conjunct2] hc fail
  obtain tried le where
    "fst (generate_script env_operations_fail (projr (fst ?i)) (snd ?i) ''content'')
       = (if unprintable env_operations_fail le then Inl MarkupError
          else Inl (AllFailed tried le))"
    "length tried \<le> length (providers_to_try (projr (fst ?i)))"
    "tried \<noteq> [] \<longrightarrow>
       (\<exists>inst msg. well_constructed env_operations_fail inst
          \<and> operate env_operations_fail inst ''content'' = Inl msg
          \<and> le = Some (ProviderError msg))"
    by blast
  with ch show "\<exists>tried le.
         fst (generate_script env_operations_fail (projr (fst ?i)) (snd ?i) ''content'')
           = (if unprintable env_operations_fail le then Inl MarkupError
              else Inl (AllFailed tried le))
         \<and> length tried \<le> 2
         \<and> (tried \<noteq> [] \<longrightarrow>
              (\<exists>inst msg. operate env_operations_fail inst ''content'' = Inl msg
                 \<and> le = Some (ProviderError msg)))"
    by (intro exI [of _ tried] exI [of _ le]) auto
qed

text \<open>
  C3 as stated fails: with the chain \<^verbatim>\<open>langchain\<close>, \<^verbatim>\<open>groq\<close>, where the operation of
  the first raises and the constructor of the second raises, the aggregated error lists
  one candidate, not two, and the error of the constructor is not in it.
\<close>

theorem aggregated_error_omits_failed_constructions:
  "fst (first_call env_groq_unavailable (fresh_state (settings_with_ai ''langchain'' [''groq''])) ''content'')
     = Inl (AllFailed [''langchain''] (Some (ProviderError ''connection refused'')))
   \<and> init_providers_to_try ''langchain'' (FallbackList [''groq'']) = [''langchain'', ''groq'']"
  by (simp add: ex_defs run_defs is_quota_error_def)

text \<open>
  Nor is the list of names the list of the providers that were called. With the chain
  \<^verbatim>\<open>langchain\<close>, \<^verbatim>\<open>groq\<close>, \<^verbatim>\<open>huggingface\<close>, every operation raising and the
  constructor of \<^verbatim>\<open>HuggingFaceProvider\<close> raising, \<^verbatim>\<open>_load_fallback('huggingface')\<close>
  ends in a \<^verbatim>\<open>load\<close> that falls back to \<^verbatim>\<open>groq\<close> by itself: the error names
  \<^verbatim>\<open>huggingface\<close>, and the instance whose operation was called under that name is a
  second instance of \<^verbatim>\<open>GroqProvider\<close>.
\<close>

lemma aggregated_error_names_a_candidate_served_by_another:
  "fst (first_call env_huggingface_unavailable
          (fresh_state (settings_with_ai ''langchain'' [''groq'', ''huggingface''])) ''content'')
     = Inl (AllFailed [''langchain'', ''groq'', ''huggingface'']
              (Some (ProviderError ''connection refused'')))
   \<and> map_option current_provider (fst (snd (first_call env_huggingface_unavailable
          (fresh_state (settings_with_ai ''langchain'' [''groq'', ''huggingface''])) ''content'')))
       = Some (Some ''app.plugins.ai.groq_plugin.GroqProvider'')
   \<and> attempts_of (log (snd (snd (first_call env_huggingface_unavailable
          (fresh_state (settings_with_ai ''langchain'' [''groq'', ''huggingface''])) ''content''))))
       = [''langchain'', ''groq'', ''huggingface'', ''groq'']"
  by (simp add: ex_defs run_defs is_quota_error_def)
section \<open>One attempt for each name\<close>








text \<open>
  It fails for a chain without repetition too. With the chain \<^verbatim>\<open>langchain\<close>,
  \<^verbatim>\<open>groq\<close>, \<^verbatim>\<open>huggingface\<close>, every operation raising and the constructor of
  \<^verbatim>\<open>HuggingFaceProvider\<close> raising, the \<^verbatim>\<open>load\<close> that \<^verbatim>\<open>_load_fallback\<close> runs for
  \<^verbatim>\<open>huggingface\<close> falls back to \<^verbatim>\<open>groq\<close> by itself: \<^verbatim>\<open>GroqProvider\<close> is
  constructed a second time, after its operation has raised, and the operation of the new
  instance is called under the name \<^verbatim>\<open>huggingface\<close>.
\<close>

lemma failed_provider_is_constructed_and_called_again:
  "attempts_of (log (snd (snd (first_call env_huggingface_unavailable
      (fresh_state (settings_with_ai ''langchain'' [''groq'', ''huggingface''])) ''content''))))
     = [''langchain'', ''groq'', ''huggingface'', ''groq'']
   \<and> imports_of (log (snd (snd (first_call env_huggingface_unavailable
      (fresh_state (settings_with_ai ''langchain'' [''groq'', ''huggingface''])) ''content''))))
     = [''app.plugins.ai.langchain_plugin.LangChainProvider'',
        ''app.plugins.ai.groq_plugin.GroqProvider'',
        ''app.plugins.ai.huggingface_plugin.HuggingFaceProvider'',
        ''app.plugins.ai.groq_plugin.GroqProvider'']
   \<and> generating_of (log (snd (snd (first_call env_huggingface_unavailable
      (fresh_state (settings_with_ai ''langchain'' [''groq'', ''huggingface''])) ''content''))))
     = [''langchain'', ''groq'', ''huggingface'']
   \<and> map_option current_provider (fst (snd (first_call env_huggingface_unavailable
      (fresh_state (settings_with_ai ''langchain'' [''groq'', ''huggingface''])) ''content'')))
     = Some (Some ''app.plugins.ai.groq_plugin.GroqProvider'')"
  by (simp add: ex_defs run_defs is_quota_error_def)
section \<open>The first candidate that succeeds\<close>

lemma load_first_success:
  assumes st: "settings s plugin_type = Some cfg"
    and miss: "cache s plugin_type = None \<or> force_reload"
    and ch: "load_providers_to_try cfg = pre @ k # post"
    and fail: "\<forall>n \<in> set pre. load_candidate_fails env plugin_type cfg n"
    and reg: "map_of PLUGIN_REGISTRY plugin_type = Some ps" "map_of ps k = Some class_path"
    and ok: "construct env class_path cfg = Inr inst"
  shows "fst (load env plugin_type force_reload s) = Inr inst
       \<and> cache (snd (load env plugin_type force_reload s)) = (cache s)(plugin_type \<mapsto> inst)
       \<and> attempts_of (log (snd (load env plugin_type force_reload s))) =
            attempts_of (log s) @ pre @ [k]"
proof -
  let ?chain = "load_providers_to_try cfg"
  let ?s0 = "emit (LoadingPlugin plugin_type) s"
  from miss have l: "load env plugin_type force_reload s = load_fresh env plugin_type s"
    by (auto simp: load_def split: option.splits)
  from st ch have lf: "load_fresh env plugin_type s =
      load_loop env plugin_type cfg ?chain (pre @ k # post) None ?s0"
    by (simp add: load_fresh_def Let_def)
  from load_loop_fail_prefix [OF fail, of ?chain "k # post" None ?s0]
  obtain le' s1 where p:
    "load_loop env plugin_type cfg ?chain (pre @ k # post) None ?s0 =
       load_loop env plugin_type cfg ?chain (k # post) le' s1"
    "cache s1 = cache ?s0" "attempts_of (log s1) = attempts_of (log ?s0) @ pre"
    by blast
  from load_loop_success_head [OF reg ok, of ?chain post le' s1] p
  show ?thesis unfolding l lf by simp
qed

text \<open>
  C5, as amended. For \<^verbatim>\<open>load\<close>: when the candidates before position \<open>k\<close> fail and
  the constructor of candidate \<open>k\<close> returns, \<^verbatim>\<open>load\<close> returns and caches the
  instance of candidate \<open>k\<close> after exactly \<open>k\<close> "attempting" lines, one for each
  candidate up to \<open>k\<close>. For \<^verbatim>\<open>generate_script\<close>, on a wrapper in step with the
  settings: when each candidate before position \<open>k\<close> is constructed by its own
  constructor and raises in its operation, and candidate \<open>k\<close> is constructed by its
  own constructor and its operation returns, the call returns what that operation
  returned, leaves \<open>k\<close> as the wrapper's current provider name, with the instance of
  \<open>k\<close> as its current provider, and has called the operation under exactly the \<open>k\<close>
  names up to \<open>k\<close>, in chain order. Neither returns the name or the history to the
  caller. When the constructor of a candidate raises, the \<^verbatim>\<open>load\<close> that the wrapper
  runs for it falls back on its own, and the instance of a later candidate can serve
  under the name of the one that failed.
\<close>

theorem first_success_serves_the_invocation:
  "(settings s plugin_type = Some cfg \<and> (cache s plugin_type = None \<or> force_reload)
      \<and> load_providers_to_try cfg = pre @ k # post
      \<and> (\<forall>n \<in> set pre. load_candidate_fails env plugin_type cfg n)
      \<and> map_of PLUGIN_REGISTRY plugin_type = Some ps \<and> map_of ps k = Some class_path
      \<and> construct env class_path cfg = Inr inst
    \<longrightarrow> fst (load env plugin_type force_reload s) = Inr inst
       \<and> cache (snd (load env plugin_type force_reload s)) plugin_type = Some inst
       \<and> attempts_of (log (snd (load env plugin_type force_reload s))) =
            attempts_of (log s) @ pre @ [k])
   \<and> (in_step env ai w s \<and> providers_to_try w = pre @ k # post
      \<and> (\<forall>n \<in> set pre. \<exists>msg. own_outcome env ai content n = Some (Inl msg))
      \<and> own_outcome env ai content k = Some (Inr r)
    \<longrightarrow> fst (generate_script env w s content) = Inr r
       \<and> current_provider_name (fst (snd (generate_script env w s content))) = Some k
       \<and> current_provider (fst (snd (generate_script env w s content))) = own_instance env ai k
       \<and> generating_of (log (snd (snd (generate_script env w s content)))) =
            generating_of (log s) @ pre @ [k])"
proof (intro conjI impI)
  assume a: "settings s plugin_type = Some cfg \<and> (cache s plugin_type = None \<or> force_reload)
      \<and> load_providers_to_try cfg = pre @ k # post
      \<and> (\<forall>n \<in> set pre. load_candidate_fails env plugin_type cfg n)
      \<and> map_of PLUGIN_REGISTRY plugin_type = Some ps \<and> map_of ps k = Some class_path
      \<and> construct env class_path cfg = Inr inst"
  then have "fst (load env plugin_type force_reload s) = Inr inst
       \<and> cache (snd (load env plugin_type force_reload s)) = (cache s)(plugin_type \<mapsto> inst)
       \<and> attempts_of (log (snd (load env plugin_type force_reload s))) =
            attempts_of (log s) @ pre @ [k]"
    by (intro load_first_success) blast+
  then show "fst (load env plugin_type force_reload s) = Inr inst"
    and "cache (snd (load env plugin_type force_reload s)) plugin_type = Some inst"
    and "attempts_of (log (snd (load env plugin_type force_reload s))) =
            attempts_of (log s) @ pre @ [k]"
    by simp_all
next
  assume "in_step env ai w s \<and> providers_to_try w = pre @ k # post
      \<and> (\<forall>n \<in> set pre. \<exists>msg. own_outcome env ai content n = Some (Inl msg))
      \<and> own_outcome env ai content k = Some (Inr r)"
  then have step: "in_step env ai w s" and ch: "providers_to_try w = pre @ k # post"
    and fail: "\<forall>n \<in> set pre. \<exists>msg. own_outcome env ai content n = Some (Inl msg)"
    and ok: "own_outcome env ai content k = Some (Inr r)" by blast+
  note g = generate_script_own_returns [OF step ch fail ok]
  from g show "fst (generate_script env w s content) = Inr r"
    and "current_provider_name (fst (snd (generate_script env w s content))) = Some k"
    and "current_provider (fst (snd (generate_script env w s content))) = own_instance env ai k"
    and "generating_of (log (snd (snd (generate_script env w s content)))) =
            generating_of (log s) @ pre @ [k]"
    by blast+
qed

text \<open>
  C5, in the scenario of the specification for \<^verbatim>\<open>load\<close>, which is served by its
  second candidate, and with the chain \<^verbatim>\<open>groq\<close>, \<^verbatim>\<open>huggingface\<close> for
  \<^verbatim>\<open>generate_script\<close>, on the wrapper as its constructor leaves it: the operation of
  \<^verbatim>\<open>groq\<close> raises and the call is served by \<^verbatim>\<open>huggingface\<close>.
\<close>

theorem first_success_witness:
  "fst (load env_spec_scenario ''ai'' False
          (fresh_state (settings_with_ai ''openai_direct'' [''groq'', ''huggingface'']))) =
     Inr ''app.plugins.ai.groq_plugin.GroqProvider''
   \<and> attempts_of (log (snd (load env_spec_scenario ''ai'' False
          (fresh_state (settings_with_ai ''openai_direct'' [''groq'', ''huggingface''])))))
       = [''openai_direct'', ''groq'']
   \<and> fst (generate_script env_spec_scenario
          (projr (fst (wrapper_init env_spec_scenario
             (fresh_state (settings_with_ai ''groq'' [''huggingface''])))))
          (snd (wrapper_init env_spec_scenario
             (fresh_state (settings_with_ai ''groq'' [''huggingface'']))))
          ''content'')
       = Inr ''script by app.plugins.ai.huggingface_plugin.HuggingFaceProvider''
   \<and> current_provider_name (fst (snd (generate_script env_spec_scenario
          (projr (fst (wrapper_init env_spec_scenario
             (fresh_state (settings_with_ai ''groq'' [''huggingface''])))))
          (snd (wrapper_init env_spec_scenario
             (fresh_state (settings_with_ai ''groq'' [''huggingface'']))))
          ''content''))) = Some ''huggingface''
   \<and> generating_of (log (snd (snd (generate_script env_spec_scenario
          (projr (fst (wrapper_init env_spec_scenario
             (fresh_state (settings_with_ai ''groq'' [''huggingface''])))))
          (snd (wrapper_init env_spec_scenario
             (fresh_state (settings_with_ai ''groq'' [''huggingface'']))))
          ''content'')))) = [''groq'', ''huggingface'']"
proof -
  let ?st = "settings_with_ai ''openai_direct'' [''groq'', ''huggingface'']"
  let ?cfg = "\<lparr>provider = ''openai_direct'', fallback = FallbackList [''groq'', ''huggingface'']\<rparr>"
  let ?s = "fresh_state ?st"
  let ?ai = "\<lparr>provider = ''groq'', fallback = FallbackList [''huggingface'']\<rparr>"
  let ?i = "wrapper_init env_spec_scenario (fresh_state (settings_with_ai ''groq'' [''huggingface'']))"
  let ?groq = "''app.plugins.ai.groq_plugin.GroqProvider''"
  let ?ps = "the (map_of PLUGIN_REGISTRY ''ai'')"
  have h1: "settings ?s ''ai'' = Some ?cfg \<and> (cache ?s ''ai'' = None \<or> False)
      \<and> load_providers_to_try ?cfg = [''openai_direct''] @ ''groq'' # [''huggingface'']
      \<and> (\<forall>n \<in> set [''openai_direct'']. load_candidate_fails env_spec_scenario ''ai'' ?cfg n)
      \<and> map_of PLUGIN_REGISTRY ''ai'' = Some ?ps \<and> map_of ?ps ''groq'' = Some ?groq
      \<and> construct env_spec_scenario ?groq ?cfg = Inr ?groq"
    by (simp add: ex_defs load_providers_to_try_def load_candidate_fails_def PLUGIN_REGISTRY_def)
  have step: "in_step env_spec_scenario ?ai (projr (fst ?i)) (snd ?i)"
    by (simp add: in_step_def own_instance_def ai_class_path_def ex_defs run_defs)
  have ch: "providers_to_try (projr (fst ?i)) = [''groq''] @ ''huggingface'' # []"
    by (simp add: ex_defs run_defs)
  have fail: "\<forall>n \<in> set [''groq''].
      \<exists>msg. own_outcome env_spec_scenario ?ai ''content'' n = Some (Inl msg)"
    by (simp add: own_outcome_def own_instance_def ai_class_path_def PLUGIN_REGISTRY_def
          env_spec_scenario_def)
  have ok: "own_outcome env_spec_scenario ?ai ''content'' ''huggingface'' =
      Some (Inr ''script by app.plugins.ai.huggingface_plugin.HuggingFaceProvider'')"
    by (simp add: own_outcome_def own_instance_def ai_class_path_def PLUGIN_REGISTRY_def
          env_spec_scenario_def)
  have l0: "attempts_of (log ?s) = []" "generating_of (log (snd ?i)) = []"
    by (simp_all add: ex_defs run_defs)
  from first_success_serves_the_invocation
         [where s = ?s and plugin_type = "''ai''" and cfg = ?cfg and force_reload = False
            and pre = "[''openai_direct'']" and k = "''groq''" and post = "[''huggingface'']"
            and env = env_spec_scenario and ps = ?ps and class_path = ?groq and inst = ?groq,
          THEN conjunct1] h1
  have a: "fst (load env_spec_scenario ''ai'' False ?s) = Inr ?groq
       \<and> attempts_of (log (snd (load env_spec_scenario ''ai'' False ?s))) =
            attempts_of (log ?s) @ [''openai_direct''] @ [''groq'']"
    by blast
  from first_success_serves_the_invocation
         [where w = "projr (fst ?i)" and s = "snd ?i" and pre = "[''groq'']"
            and k = "''huggingface''" and post = "[]" and env = env_spec_scenario
            and content = "''content''" and ai = ?ai
            and r = "''script by app.plugins.ai.huggingface_plugin.HuggingFaceProvider''",
          THEN conjunct2] step ch fail ok
  have b: "fst (generate_script env_spec_scenario (projr (fst ?i)) (snd ?i) ''content'') =
             Inr ''script by app.plugins.ai.huggingface_plugin.HuggingFaceProvider''
       \<and> current_provider_name (fst (snd (generate_script env_spec_scenario (projr (fst ?i))
             (snd ?i) ''content''))) = Some ''huggingface''
       \<and> generating_of (log (snd (snd (generate_script env_spec_scenario (projr (fst ?i))
             (snd ?i) ''content'')))) = generating_of (log (snd ?i)) @ [''groq''] @ [''huggingface'']"
    by blast
  from a b l0 show ?thesis by simp
qed

text \<open>
  C5 as stated fails. With the chain \<^verbatim>\<open>openai_direct\<close>, \<^verbatim>\<open>groq\<close>,
  \<^verbatim>\<open>huggingface\<close>, the constructor of \<^verbatim>\<open>OpenAIProvider\<close> raising and everything
  else succeeding, the first candidate fails by its construction and the second
  succeeds. The call returns the script of the \<^verbatim>\<open>GroqProvider\<close> instance, alone; the
  wrapper's current provider name is \<^verbatim>\<open>openai_direct\<close>, not \<^verbatim>\<open>groq\<close>; and the
  operation has been called under one name, not two.
\<close>

theorem failed_primary_lends_its_name_to_the_fallback:
  "init_providers_to_try ''openai_direct'' (FallbackList [''groq'', ''huggingface''])
     = [''openai_direct'', ''groq'', ''huggingface'']
   \<and> fst (first_call env_openai_unavailable
          (fresh_state (settings_with_ai ''openai_direct'' [''groq'', ''huggingface''])) ''content'')
       = Inr ''script by app.plugins.ai.groq_plugin.GroqProvider''
   \<and> map_option current_provider_name_prop (fst (snd (first_call env_openai_unavailable
          (fresh_state (settings_with_ai ''openai_direct'' [''groq'', ''huggingface''])) ''content'')))
       = Some ''openai_direct''
   \<and> map_option current_provider (fst (snd (first_call env_openai_unavailable
          (fresh_state (settings_with_ai ''openai_direct'' [''groq'', ''huggingface''])) ''content'')))
       = Some (Some ''app.plugins.ai.groq_plugin.GroqProvider'')
   \<and> generating_of (log (snd (snd (first_call env_openai_unavailable
          (fresh_state (settings_with_ai ''openai_direct'' [''groq'', ''huggingface''])) ''content''))))
       = [''openai_direct'']
   \<and> attempts_of (log (snd (snd (first_call env_openai_unavailable
          (fresh_state (settings_with_ai ''openai_direct'' [''groq'', ''huggingface''])) ''content''))))
       = [''openai_direct'', ''groq'']"
  by (simp add: ex_defs run_defs is_quota_error_def current_provider_name_prop_def)

text \<open>
  A wrapper that was built before \<^verbatim>\<open>load_config\<close> rebound the settings overrides
  the provider in the settings object it has kept, which \<^verbatim>\<open>load\<close> does not read:
  with new settings that name \<^verbatim>\<open>huggingface\<close>, \<^verbatim>\<open>_load_fallback('groq')\<close> loads
  an instance of \<^verbatim>\<open>HuggingFaceProvider\<close> and records it under the name \<^verbatim>\<open>groq\<close>.
  The wrapper is then not in step with the settings.
\<close>

lemma kept_settings_object_is_not_read_by_load:
  "map_option (provider) (settings (snd (load_config (settings_with_ai ''huggingface'' [])
       (projr (fst (wrapper_init env_all_succeed
          (fresh_state (settings_with_ai ''langchain'' [''groq''])))))
       (snd (wrapper_init env_all_succeed
          (fresh_state (settings_with_ai ''langchain'' [''groq''])))))) ''ai'')
     = Some ''huggingface''
   \<and> current_provider_name (fst (snd (load_fallback env_all_succeed ''groq''
       (fst (load_config (settings_with_ai ''huggingface'' [])
          (projr (fst (wrapper_init env_all_succeed
             (fresh_state (settings_with_ai ''langchain'' [''groq''])))))
          (snd (wrapper_init env_all_succeed
             (fresh_state (settings_with_ai ''langchain'' [''groq'']))))))
       (snd (load_config (settings_with_ai ''huggingface'' [])
          (projr (fst (wrapper_init env_all_succeed
             (fresh_state (settings_with_ai ''langchain'' [''groq''])))))
          (snd (wrapper_init env_all_succeed
             (fresh_state (settings_with_ai ''langchain'' [''groq'']))))))))) = Some ''groq''
   \<and> current_provider (fst (snd (load_fallback env_all_succeed ''groq''
       (fst (load_config (settings_with_ai ''huggingface'' [])
          (projr (fst (wrapper_init env_all_succeed
             (fresh_state (settings_with_ai ''langchain'' [''groq''])))))
          (snd (wrapper_init env_all_succeed
             (fresh_state (settings_with_ai ''langchain'' [''groq'']))))))
       (snd (load_config (settings_with_ai ''huggingface'' [])
          (projr (fst (wrapper_init env_all_succeed
             (fresh_state (settings_with_ai ''langchain'' [''groq''])))))
          (snd (wrapper_init env_all_succeed
             (fresh_state (settings_with_ai ''langchain'' [''groq'']))))))))) =
       Some ''app.plugins.ai.huggingface_plugin.HuggingFaceProvider''"
  by (simp add: ex_defs run_defs load_config_def)
section \<open>The primary succeeds\<close>

lemma load_primary_constructed:
  assumes st: "settings s plugin_type = Some cfg"
    and miss: "cache s plugin_type = None \<or> force_reload"
    and reg: "map_of PLUGIN_REGISTRY plugin_type = Some ps"
      "map_of ps (provider cfg) = Some class_path"
    and ok: "construct env class_path cfg = Inr inst"
  shows "fst (load env plugin_type force_reload s) = Inr inst
       \<and> attempts_of (log (snd (load env plugin_type force_reload s))) =
            attempts_of (log s) @ [provider cfg]
       \<and> imports_of (log (snd (load env plugin_type force_reload s))) =
            imports_of (log s) @ [class_path]
       \<and> cache (snd (load env plugin_type force_reload s)) plugin_type = Some inst"
proof -
  let ?chain = "load_providers_to_try cfg"
  let ?s0 = "emit (LoadingPlugin plugin_type) s"
  from miss have l: "load env plugin_type force_reload s = load_fresh env plugin_type s"
    by (auto simp: load_def split: option.splits)
  obtain tl where ch: "?chain = provider cfg # tl"
    by (simp add: load_providers_to_try_closed)
  from st ch have lf: "load_fresh env plugin_type s =
      load_loop env plugin_type cfg ?chain (provider cfg # tl) None ?s0"
    by (simp add: load_fresh_def Let_def)
  from load_loop_success_head [OF reg ok, of ?chain tl None ?s0]
  show ?thesis unfolding l lf by simp
qed

lemma first_call_primary_serves:
  assumes st: "settings s ''ai'' = Some cfg"
    and miss: "cache s ''ai'' = None"
    and reg: "map_of PLUGIN_REGISTRY ''ai'' = Some ps"
      "map_of ps (provider cfg) = Some class_path"
    and ok: "construct env class_path cfg = Inr inst"
    and op: "operate env inst content = Inr r"
  shows "fst (first_call env s content) = Inr r
       \<and> attempts_of (log (snd (snd (first_call env s content)))) =
            attempts_of (log s) @ [provider cfg]
       \<and> imports_of (log (snd (snd (first_call env s content)))) =
            imports_of (log s) @ [class_path]
       \<and> generating_of (log (snd (snd (first_call env s content)))) =
            generating_of (log s) @ [provider cfg]
       \<and> cache (snd (snd (first_call env s content))) ''ai'' = Some inst"
proof -
  obtain x s1 where l: "load env ''ai'' False s = (x, s1)" by (cases "load env ''ai'' False s")
  from miss have miss': "cache s ''ai'' = None \<or> False" by simp
  from load_primary_constructed [OF st miss' reg ok] l
  have x: "x = Inr inst" and a: "attempts_of (log s1) = attempts_of (log s) @ [provider cfg]"
    and i: "imports_of (log s1) = imports_of (log s) @ [class_path]"
    and c: "cache s1 ''ai'' = Some inst"
    by simp_all
  from load_generating [of env "''ai''" False s] l
  have g: "generating_of (log s1) = generating_of (log s)" by simp
  let ?w = "\<lparr>primary_provider_name = provider cfg, fallback_providers = fallback cfg,
             providers_to_try = init_providers_to_try (provider cfg) (fallback cfg),
             current_provider = Some inst, current_provider_name = Some (provider cfg),
             settings_stale = None\<rparr>"
  from st l x have wi: "wrapper_init env s = (Inr ?w, s1)"
    by (simp add: wrapper_init_def load_primary_def)
  obtain tl where ch: "init_providers_to_try (provider cfg) (fallback cfg) = provider cfg # tl"
    by (simp add: init_providers_to_try_closed)
  have el: "ensure_loaded env (provider cfg) ?w s1 = (True, ?w, s1)"
    by (simp add: ensure_loaded_def)
  from op have ap: "attempt_provider env content (provider cfg) ?w s1 =
      (Returned r, ?w, emit (Generated (provider cfg) False) (emit (Generating (provider cfg)) s1))"
    by (simp add: attempt_provider_unfold [OF el])
  from ch ap have gs: "generate_script env ?w s1 content =
      (Inr r, ?w, emit (Generated (provider cfg) False) (emit (Generating (provider cfg)) s1))"
    by (simp add: generate_script_def)
  from wi gs a i c g show ?thesis by (simp add: first_call_def)
qed

text \<open>
  The three ways in which the first candidate of \<^verbatim>\<open>generate_script\<close> can be served
  when it is the primary: by the instance that the wrapper holds under that name, by the
  instance that \<^verbatim>\<open>load\<close> finds in the cache, or by the instance that \<^verbatim>\<open>load\<close>
  constructs.
\<close>

lemma generate_script_reuses_held:
  assumes ch: "providers_to_try w = p # rest"
    and nm: "current_provider_name w = Some p" and cp: "current_provider w = Some inst"
    and op: "operate env inst content = Inr r"
  shows "generate_script env w s content =
           (Inr r, w, emit (Generated p (p \<noteq> primary_provider_name w)) (emit (Generating p) s))"
proof -
  from nm have el: "ensure_loaded env p w s = (True, w, s)" by (simp add: ensure_loaded_def)
  from cp op have "attempt_provider env content p w s =
      (Returned r, w, emit (Generated p (p \<noteq> primary_provider_name w)) (emit (Generating p) s))"
    by (simp add: attempt_provider_unfold [OF el])
  with ch show ?thesis by (simp add: generate_script_def)
qed

lemma generate_script_cached_primary:
  assumes ch: "providers_to_try w = p # rest" and pr: "p = primary_provider_name w"
    and nm: "current_provider_name w \<noteq> Some p"
    and hit: "cache s ''ai'' = Some inst"
    and op: "operate env inst content = Inr r"
  shows "generate_script env w s content =
           (Inr r, w\<lparr>current_provider := Some inst, current_provider_name := Some p\<rparr>,
            emit (Generated p False) (emit (Generating p) (emit (UsingCached ''ai'') s)))"
proof -
  let ?w = "w\<lparr>current_provider := Some inst, current_provider_name := Some p\<rparr>"
  from hit have "load env ''ai'' False s = (Inr inst, emit (UsingCached ''ai'') s)"
    by (simp add: load_def)
  with nm pr [symmetric] have el: "ensure_loaded env p w s = (True, ?w, emit (UsingCached ''ai'') s)"
    by (simp add: ensure_loaded_def load_primary_def)
  from op pr [symmetric] have "attempt_provider env content p w s =
      (Returned r, ?w, emit (Generated p False) (emit (Generating p) (emit (UsingCached ''ai'') s)))"
    by (simp add: attempt_provider_unfold [OF el])
  with ch show ?thesis by (simp add: generate_script_def)
qed

lemma generate_script_loads_primary:
  assumes ch: "providers_to_try w = p # rest" and pr: "p = primary_provider_name w"
    and nm: "current_provider_name w \<noteq> Some p"
    and st: "settings s ''ai'' = Some ai" and pa: "provider ai = p"
    and miss: "cache s ''ai'' = None"
    and ok: "own_outcome env ai content p = Some (Inr r)"
  shows "fst (generate_script env w s content) = Inr r
       \<and> current_provider_name (fst (snd (generate_script env w s content))) = Some p
       \<and> current_provider (fst (snd (generate_script env w s content))) = own_instance env ai p
       \<and> cache (snd (snd (generate_script env w s content))) ''ai'' = own_instance env ai p
       \<and> attempts_of (log (snd (snd (generate_script env w s content)))) =
            attempts_of (log s) @ [p]
       \<and> generating_of (log (snd (snd (generate_script env w s content)))) =
            generating_of (log s) @ [p]"
proof -
  from ok obtain inst where own: "own_instance env ai p = Some inst"
    and op: "operate env inst content = Inr r" by (rule own_outcomeD)
  from st pa have st': "settings s ''ai'' = Some (ai\<lparr>provider := p\<rparr>)" by auto
  from miss have "cache s ''ai'' = None \<or> False" by simp
  from load_own_instance [OF own st' this] obtain s1 where
    l: "load env ''ai'' False s = (Inr inst, s1)"
    and f: "cache s1 = (cache s)(''ai'' \<mapsto> inst)"
      "attempts_of (log s1) = attempts_of (log s) @ [p]"
      "generating_of (log s1) = generating_of (log s)" by blast
  let ?w = "w\<lparr>current_provider := Some inst, current_provider_name := Some p\<rparr>"
  from l nm pr [symmetric] have el: "ensure_loaded env p w s = (True, ?w, s1)"
    by (simp add: ensure_loaded_def load_primary_def)
  from op pr [symmetric] have "attempt_provider env content p w s =
      (Returned r, ?w, emit (Generated p False) (emit (Generating p) s1))"
    by (simp add: attempt_provider_unfold [OF el])
  with ch have "generate_script env w s content =
      (Inr r, ?w, emit (Generated p False) (emit (Generating p) s1))"
    by (simp add: generate_script_def)
  with f own show ?thesis by simp
qed

text \<open>
  C8, as amended. When the constructor of the primary returns, \<^verbatim>\<open>load\<close> attempts and
  imports that one candidate, returns its instance and holds it in the cache. When, on
  the first use of the wrapper, the constructor of the primary returns and its operation
  returns, one candidate has been loaded, the operation has been called once, under the
  primary's name, the result is returned and the cache holds the primary's instance. On
  a later call of \<^verbatim>\<open>generate_script\<close> whose first candidate is served and returns,
  that one candidate is tried and no other. If the wrapper holds an instance under that
  name, the instance is reused: nothing is attempted or constructed and the cache is left
  as it was, with or without an entry. If it does not, and the cache has an entry, the
  cached instance serves and stays in the cache. If it does not, the cache has no entry
  and the primary can be constructed from the settings, the primary is attempted and
  constructed once and the cache holds its instance afterwards.
\<close>

theorem primary_success_attempts_one_candidate:
  "(settings s plugin_type = Some cfg \<and> (cache s plugin_type = None \<or> force_reload)
      \<and> map_of PLUGIN_REGISTRY plugin_type = Some ps
      \<and> map_of ps (provider cfg) = Some class_path
      \<and> construct env class_path cfg = Inr inst
    \<longrightarrow> fst (load env plugin_type force_reload s) = Inr inst
       \<and> attempts_of (log (snd (load env plugin_type force_reload s))) =
            attempts_of (log s) @ [provider cfg]
       \<and> imports_of (log (snd (load env plugin_type force_reload s))) =
            imports_of (log s) @ [class_path]
       \<and> cache (snd (load env plugin_type force_reload s)) plugin_type = Some inst)
   \<and> (settings s ''ai'' = Some cfg \<and> cache s ''ai'' = None
      \<and> map_of PLUGIN_REGISTRY ''ai'' = Some ps
      \<and> map_of ps (provider cfg) = Some class_path
      \<and> construct env class_path cfg = Inr inst
      \<and> operate env inst content = Inr r
    \<longrightarrow> fst (first_call env s content) = Inr r
       \<and> attempts_of (log (snd (snd (first_call env s content)))) =
            attempts_of (log s) @ [provider cfg]
       \<and> generating_of (log (snd (snd (first_call env s content)))) =
            generating_of (log s) @ [provider cfg]
       \<and> cache (snd (snd (first_call env s content))) ''ai'' = Some inst)
   \<and> (providers_to_try w = p # rest
      \<and> current_provider_name w = Some p \<and> current_provider w = Some inst
      \<and> operate env inst content = Inr r
    \<longrightarrow> fst (generate_script env w s content) = Inr r
       \<and> fst (snd (generate_script env w s content)) = w
       \<and> cache (snd (snd (generate_script env w s content))) = cache s
       \<and> attempts_of (log (snd (snd (generate_script env w s content)))) = attempts_of (log s)
       \<and> imports_of (log (snd (snd (generate_script env w s content)))) = imports_of (log s)
       \<and> generating_of (log (snd (snd (generate_script env w s content)))) =
            generating_of (log s) @ [p])
   \<and> (providers_to_try w = p # rest \<and> p = primary_provider_name w
      \<and> current_provider_name w \<noteq> Some p \<and> cache s ''ai'' = Some inst
      \<and> operate env inst content = Inr r
    \<longrightarrow> fst (generate_script env w s content) = Inr r
       \<and> current_provider (fst (snd (generate_script env w s content))) = Some inst
       \<and> cache (snd (snd (generate_script env w s content))) = cache s
       \<and> attempts_of (log (snd (snd (generate_script env w s content)))) = attempts_of (log s)
       \<and> imports_of (log (snd (snd (generate_script env w s content)))) = imports_of (log s)
       \<and> generating_of (log (snd (snd (generate_script env w s content)))) =
            generating_of (log s) @ [p])
   \<and> (providers_to_try w = p # rest \<and> p = primary_provider_name w
      \<and> current_provider_name w \<noteq> Some p \<and> cache s ''ai'' = None
      \<and> settings s ''ai'' = Some cfg \<and> provider cfg = p
      \<and> own_outcome env cfg content p = Some (Inr r)
    \<longrightarrow> fst (generate_script env w s content) = Inr r
       \<and> current_provider (fst (snd (generate_script env w s content))) =
            own_instance env cfg p
       \<and> cache (snd (snd (generate_script env w s content))) ''ai'' = own_instance env cfg p
       \<and> own_instance env cfg p \<noteq> None
       \<and> attempts_of (log (snd (snd (generate_script env w s content)))) =
            attempts_of (log s) @ [p]
       \<and> generating_of (log (snd (snd (generate_script env w s content)))) =
            generating_of (log s) @ [p])"
proof (intro conjI)
  show "settings s plugin_type = Some cfg \<and> (cache s plugin_type = None \<or> force_reload)
      \<and> map_of PLUGIN_REGISTRY plugin_type = Some ps
      \<and> map_of ps (provider cfg) = Some class_path
      \<and> construct env class_path cfg = Inr inst
    \<longrightarrow> fst (load env plugin_type force_reload s) = Inr inst
       \<and> attempts_of (log (snd (load env plugin_type force_reload s))) =
            attempts_of (log s) @ [provider cfg]
       \<and> imports_of (log (snd (load env plugin_type force_reload s))) =
            imports_of (log s) @ [class_path]
       \<and> cache (snd (load env plugin_type force_reload s)) plugin_type = Some inst"
    using load_primary_constructed [of s plugin_type cfg force_reload ps class_path env inst]
    by blast
next
  show "settings s ''ai'' = Some cfg \<and> cache s ''ai'' = None
      \<and> map_of PLUGIN_REGISTRY ''ai'' = Some ps
      \<and> map_of ps (provider cfg) = Some class_path
      \<and> construct env class_path cfg = Inr inst
      \<and> operate env inst content = Inr r
    \<longrightarrow> fst (first_call env s content) = Inr r
       \<and> attempts_of (log (snd (snd (first_call env s content)))) =
            attempts_of (log s) @ [provider cfg]
       \<and> generating_of (log (snd (snd (first_call env s content)))) =
            generating_of (log s) @ [provider cfg]
       \<and> cache (snd (snd (first_call env s content))) ''ai'' = Some inst"
    using first_call_primary_serves [of s cfg ps class_path env inst content r]
    by blast
next
  show "providers_to_try w = p # rest
      \<and> current_provider_name w = Some p \<and> current_provider w = Some inst
      \<and> operate env inst content = Inr r
    \<longrightarrow> fst (generate_script env w s content) = Inr r
       \<and> fst (snd (generate_script env w s content)) = w
       \<and> cache (snd (snd (generate_script env w s content))) = cache s
       \<and> attempts_of (log (snd (snd (generate_script env w s content)))) = attempts_of (log s)
       \<and> imports_of (log (snd (snd (generate_script env w s content)))) = imports_of (log s)
       \<and> generating_of (log (snd (snd (generate_script env w s content)))) =
            generating_of (log s) @ [p]"
  proof (rule impI)
    assume "providers_to_try w = p # rest
      \<and> current_provider_name w = Some p \<and> current_provider w = Some inst
      \<and> operate env inst content = Inr r"
    then have a: "providers_to_try w = p # rest" "current_provider_name w = Some p"
      "current_provider w = Some inst" "operate env inst content = Inr r" by blast+
    show "fst (generate_script env w s content) = Inr r
       \<and> fst (snd (generate_script env w s content)) = w
       \<and> cache (snd (snd (generate_script env w s content))) = cache s
       \<and> attempts_of (log (snd (snd (generate_script env w s content)))) = attempts_of (log s)
       \<and> imports_of (log (snd (snd (generate_script env w s content)))) = imports_of (log s)
       \<and> generating_of (log (snd (snd (generate_script env w s content)))) =
            generating_of (log s) @ [p]"
      unfolding generate_script_reuses_held [OF a] by simp
  qed
next
  show "providers_to_try w = p # rest \<and> p = primary_provider_name w
      \<and> current_provider_name w \<noteq> Some p \<and> cache s ''ai'' = Some inst
      \<and> operate env inst content = Inr r
    \<longrightarrow> fst (generate_script env w s content) = Inr r
       \<and> current_provider (fst (snd (generate_script env w s content))) = Some inst
       \<and> cache (snd (snd (generate_script env w s content))) = cache s
       \<and> attempts_of (log (snd (snd (generate_script env w s content)))) = attempts_of (log s)
       \<and> imports_of (log (snd (snd (generate_script env w s content)))) = imports_of (log s)
       \<and> generating_of (log (snd (snd (generate_script env w s content)))) =
            generating_of (log s) @ [p]"
  proof (rule impI)
    assume "providers_to_try w = p # rest \<and> p = primary_provider_name w
      \<and> current_provider_name w \<noteq> Some p \<and> cache s ''ai'' = Some inst
      \<and> operate env inst content = Inr r"
    then have a: "providers_to_try w = p # rest" "p = primary_provider_name w"
      "current_provider_name w \<noteq> Some p" "cache s ''ai'' = Some inst"
      "operate env inst content = Inr r" by blast+
    show "fst (generate_script env w s content) = Inr r
       \<and> current_provider (fst (snd (generate_script env w s content))) = Some inst
       \<and> cache (snd (snd (generate_script env w s content))) = cache s
       \<and> attempts_of (log (snd (snd (generate_script env w s content)))) = attempts_of (log s)
       \<and> imports_of (log (snd (snd (generate_script env w s content)))) = imports_of (log s)
       \<and> generating_of (log (snd (snd (generate_script env w s content)))) =
            generating_of (log s) @ [p]"
      unfolding generate_script_cached_primary [OF a] by simp
  qed
next
  show "providers_to_try w = p # rest \<and> p = primary_provider_name w
      \<and> current_provider_name w \<noteq> Some p \<and> cache s ''ai'' = None
      \<and> settings s ''ai'' = Some cfg \<and> provider cfg = p
      \<and> own_outcome env cfg content p = Some (Inr r)
    \<longrightarrow> fst (generate_script env w s content) = Inr r
       \<and> current_provider (fst (snd (generate_script env w s content))) =
            own_instance env cfg p
       \<and> cache (snd (snd (generate_script env w s content))) ''ai'' = own_instance env cfg p
       \<and> own_instance env cfg p \<noteq> None
       \<and> attempts_of (log (snd (snd (generate_script env w s content)))) =
            attempts_of (log s) @ [p]
       \<and> generating_of (log (snd (snd (generate_script env w s content)))) =
            generating_of (log s) @ [p]"
  proof (rule impI)
    assume "providers_to_try w = p # rest \<and> p = primary_provider_name w
      \<and> current_provider_name w \<noteq> Some p \<and> cache s ''ai'' = None
      \<and> settings s ''ai'' = Some cfg \<and> provider cfg = p
      \<and> own_outcome env cfg content p = Some (Inr r)"
    then have a: "providers_to_try w = p # rest" "p = primary_provider_name w"
      "current_provider_name w \<noteq> Some p" "settings s ''ai'' = Some cfg" "provider cfg = p"
      "cache s ''ai'' = None" "own_outcome env cfg content p = Some (Inr r)" by blast+
    from a(7) have "own_instance env cfg p \<noteq> None"
      by (auto simp: own_outcome_def split: option.splits)
    with generate_script_loads_primary [OF a]
    show "fst (generate_script env w s content) = Inr r
       \<and> current_provider (fst (snd (generate_script env w s content))) =
            own_instance env cfg p
       \<and> cache (snd (snd (generate_script env w s content))) ''ai'' = own_instance env cfg p
       \<and> own_instance env cfg p \<noteq> None
       \<and> attempts_of (log (snd (snd (generate_script env w s content)))) =
            attempts_of (log s) @ [p]
       \<and> generating_of (log (snd (snd (generate_script env w s content)))) =
            generating_of (log s) @ [p]"
      by simp
  qed
qed

text \<open>
  C8, with the default settings and providers that all work: a \<^verbatim>\<open>load\<close> of the TTS
  plugin, the first use of the wrapper, a second call on the wrapper that the first use
  has left, a call on a wrapper that holds nothing while the cache has an entry, and a
  call on a wrapper that holds nothing while the cache has none.
\<close>

theorem primary_success_witness:
  "fst (load env_all_succeed ''tts'' False (fresh_state default_settings)) =
     Inr ''app.plugins.tts.gtts_plugin.GTTSProvider''
   \<and> attempts_of (log (snd (load env_all_succeed ''tts'' False (fresh_state default_settings))))
       = [''gtts'']
   \<and> cache (snd (load env_all_succeed ''tts'' False (fresh_state default_settings))) ''tts''
       = Some ''app.plugins.tts.gtts_plugin.GTTSProvider''
   \<and> fst (first_call env_all_succeed (fresh_state default_settings) ''content'')
       = Inr ''script by app.plugins.ai.langchain_plugin.LangChainProvider''
   \<and> attempts_of (log (snd (snd (first_call env_all_succeed (fresh_state default_settings)
         ''content'')))) = [''langchain'']
   \<and> generating_of (log (snd (snd (first_call env_all_succeed (fresh_state default_settings)
         ''content'')))) = [''langchain'']
   \<and> cache (snd (snd (first_call env_all_succeed (fresh_state default_settings) ''content'')))
         ''ai'' = Some ''app.plugins.ai.langchain_plugin.LangChainProvider''
   \<and> attempts_of (log (snd (snd (generate_script env_all_succeed
          (projr (fst (wrapper_init env_all_succeed (fresh_state default_settings))))
          (snd (wrapper_init env_all_succeed (fresh_state default_settings))) ''content''))))
       = [''langchain'']
   \<and> cache (snd (snd (generate_script env_all_succeed
          \<lparr>primary_provider_name = ''langchain'', fallback_providers = FallbackList [],
           providers_to_try = [''langchain''], current_provider = None,
           current_provider_name = None, settings_stale = None\<rparr>
          (snd (wrapper_init env_all_succeed (fresh_state default_settings))) ''content'')))
       = cache (snd (wrapper_init env_all_succeed (fresh_state default_settings)))
   \<and> cache (snd (snd (generate_script env_all_succeed
          \<lparr>primary_provider_name = ''langchain'', fallback_providers = FallbackList [],
           providers_to_try = [''langchain''], current_provider = None,
           current_provider_name = None, settings_stale = None\<rparr>
          (fresh_state default_settings) ''content''))) ''ai''
       = Some ''app.plugins.ai.langchain_plugin.LangChainProvider''"
proof -
  let ?s = "fresh_state default_settings"
  let ?cfg = "\<lparr>provider = ''gtts'', fallback = FallbackAbsent\<rparr>"
  let ?gtts = "''app.plugins.tts.gtts_plugin.GTTSProvider''"
  let ?ps = "the (map_of PLUGIN_REGISTRY ''tts'')"
  let ?ai = "\<lparr>provider = ''langchain'', fallback = FallbackList []\<rparr>"
  let ?lc = "''app.plugins.ai.langchain_plugin.LangChainProvider''"
  let ?pa = "the (map_of PLUGIN_REGISTRY ''ai'')"
  let ?i = "wrapper_init env_all_succeed ?s"
  let ?w0 = "\<lparr>primary_provider_name = ''langchain'', fallback_providers = FallbackList [],
           providers_to_try = [''langchain''], current_provider = None,
           current_provider_name = None, settings_stale = None\<rparr> :: string wrapper"
  let ?r = "''script by app.plugins.ai.langchain_plugin.LangChainProvider''"
  have h1: "settings ?s ''tts'' = Some ?cfg \<and> (cache ?s ''tts'' = None \<or> False)
      \<and> map_of PLUGIN_REGISTRY ''tts'' = Some ?ps
      \<and> map_of ?ps (provider ?cfg) = Some ?gtts
      \<and> construct env_all_succeed ?gtts ?cfg = Inr ?gtts"
    by (simp add: ex_defs PLUGIN_REGISTRY_def)
  have h2: "settings ?s ''ai'' = Some ?ai \<and> cache ?s ''ai'' = None
      \<and> map_of PLUGIN_REGISTRY ''ai'' = Some ?pa
      \<and> map_of ?pa (provider ?ai) = Some ?lc
      \<and> construct env_all_succeed ?lc ?ai = Inr ?lc
      \<and> operate env_all_succeed ?lc ''content'' = Inr ?r"
    by (simp add: ex_defs PLUGIN_REGISTRY_def)
  have h3: "providers_to_try (projr (fst ?i)) = ''langchain'' # []
      \<and> current_provider_name (projr (fst ?i)) = Some ''langchain''
      \<and> current_provider (projr (fst ?i)) = Some ?lc
      \<and> operate env_all_succeed ?lc ''content'' = Inr ?r"
    by (simp add: ex_defs run_defs)
  have h4: "providers_to_try ?w0 = ''langchain'' # [] \<and> ''langchain'' = primary_provider_name ?w0
      \<and> current_provider_name ?w0 \<noteq> Some ''langchain'' \<and> cache (snd ?i) ''ai'' = Some ?lc
      \<and> operate env_all_succeed ?lc ''content'' = Inr ?r"
    by (simp add: ex_defs run_defs)
  have h5: "providers_to_try ?w0 = ''langchain'' # [] \<and> ''langchain'' = primary_provider_name ?w0
      \<and> current_provider_name ?w0 \<noteq> Some ''langchain'' \<and> cache ?s ''ai'' = None
      \<and> settings ?s ''ai'' = Some ?ai \<and> provider ?ai = ''langchain''
      \<and> own_outcome env_all_succeed ?ai ''content'' ''langchain'' = Some (Inr ?r)"
    by (simp add: ex_defs own_outcome_def own_instance_def ai_class_path_def PLUGIN_REGISTRY_def)
  have own: "own_instance env_all_succeed ?ai ''langchain'' = Some ?lc"
    by (simp add: ex_defs own_instance_def ai_class_path_def PLUGIN_REGISTRY_def)
  have l0: "attempts_of (log ?s) = []" "generating_of (log ?s) = []"
    "attempts_of (log (snd ?i)) = [''langchain'']"
    by (simp_all add: ex_defs run_defs)
  from primary_success_attempts_one_candidate
         [where s = ?s and plugin_type = "''tts''" and cfg = ?cfg and force_reload = False
            and env = env_all_succeed and ps = ?ps and class_path = ?gtts and inst = ?gtts,
          THEN conjunct1] h1
  have a: "fst (load env_all_succeed ''tts'' False ?s) = Inr ?gtts
       \<and> attempts_of (log (snd (load env_all_succeed ''tts'' False ?s))) =
            attempts_of (log ?s) @ [provider ?cfg]
       \<and> cache (snd (load env_all_succeed ''tts'' False ?s)) ''tts'' = Some ?gtts"
    by blast
  from primary_success_attempts_one_candidate
         [where s = ?s and cfg = ?ai and env = env_all_succeed and ps = ?pa
            and class_path = ?lc and inst = ?lc and content = "''content''" and r = ?r,
          THEN conjunct2, THEN conjunct1] h2
  have b: "fst (first_call env_all_succeed ?s ''content'') = Inr ?r
       \<and> attempts_of (log (snd (snd (first_call env_all_succeed ?s ''content'')))) =
            attempts_of (log ?s) @ [provider ?ai]
       \<and> generating_of (log (snd (snd (first_call env_all_succeed ?s ''content'')))) =
            generating_of (log ?s) @ [provider ?ai]
       \<and> cache (snd (snd (first_call env_all_succeed ?s ''content''))) ''ai'' = Some ?lc"
    by blast
  from primary_success_attempts_one_candidate
         [where w = "projr (fst ?i)" and s = "snd ?i" and p = "''langchain''" and rest = "[]"
            and env = env_all_succeed and content = "''content''" and r = ?r and inst = ?lc,
          THEN conjunct2, THEN conjunct2, THEN conjunct1] h3
  have c: "attempts_of (log (snd (snd (generate_script env_all_succeed (projr (fst ?i)) (snd ?i)
             ''content'')))) = attempts_of (log (snd ?i))"
    by blast
  from primary_success_attempts_one_candidate
         [where w = ?w0 and s = "snd ?i" and p = "''langchain''" and rest = "[]"
            and env = env_all_succeed and content = "''content''" and r = ?r and inst = ?lc,
          THEN conjunct2, THEN conjunct2, THEN conjunct2, THEN conjunct1] h4
  have d: "cache (snd (snd (generate_script env_all_succeed ?w0 (snd ?i) ''content'')))
      = cache (snd ?i)"
    by blast
  from primary_success_attempts_one_candidate
         [where w = ?w0 and s = ?s and p = "''langchain''" and rest = "[]" and cfg = ?ai
            and env = env_all_succeed and content = "''content''" and r = ?r,
          THEN conjunct2, THEN conjunct2, THEN conjunct2, THEN conjunct2] h5
  have e: "cache (snd (snd (generate_script env_all_succeed ?w0 ?s ''content''))) ''ai''
      = own_instance env_all_succeed ?ai ''langchain''"
    by blast
  from a b c d e own l0 show ?thesis by simp
qed

text \<open>
  C8 as stated fails. With the chain \<^verbatim>\<open>langchain\<close>, \<^verbatim>\<open>groq\<close>, the constructor of
  \<^verbatim>\<open>GroqProvider\<close> raising and every operation raising on a first content, the first
  call fails: \<^verbatim>\<open>_load_fallback\<close> has taken the entry out of the cache (line 59) and
  its \<^verbatim>\<open>load\<close> has put nothing back. On the second call, for another content, the
  primary, which the wrapper still holds, serves: one candidate is tried, the result is
  returned, and the cache holds no instance for the capability.
\<close>

theorem cache_is_empty_after_primary_serves:
  "fst (first_call env_first_content_fails
          (fresh_state (settings_with_ai ''langchain'' [''groq''])) ''first'')
     = Inl (AllFailed [''langchain''] (Some (ProviderError ''connection refused'')))
   \<and> fst (generate_script env_first_content_fails
          (the (fst (snd (first_call env_first_content_fails
             (fresh_state (settings_with_ai ''langchain'' [''groq''])) ''first''))))
          (snd (snd (first_call env_first_content_fails
             (fresh_state (settings_with_ai ''langchain'' [''groq''])) ''first'')))
          ''second'')
       = Inr ''script by app.plugins.ai.langchain_plugin.LangChainProvider''
   \<and> generating_of (log (snd (snd (generate_script env_first_content_fails
          (the (fst (snd (first_call env_first_content_fails
             (fresh_state (settings_with_ai ''langchain'' [''groq''])) ''first''))))
          (snd (snd (first_call env_first_content_fails
             (fresh_state (settings_with_ai ''langchain'' [''groq''])) ''first'')))
          ''second''))))
       = generating_of (log (snd (snd (first_call env_first_content_fails
             (fresh_state (settings_with_ai ''langchain'' [''groq''])) ''first'')))) @ [''langchain'']
   \<and> cache (snd (snd (generate_script env_first_content_fails
          (the (fst (snd (first_call env_first_content_fails
             (fresh_state (settings_with_ai ''langchain'' [''groq''])) ''first''))))
          (snd (snd (first_call env_first_content_fails
             (fresh_state (settings_with_ai ''langchain'' [''groq''])) ''first'')))
          ''second''))) ''ai''
       = None"
  by (simp add: ex_defs run_defs is_quota_error_def)
section \<open>The classification of errors\<close>

lemma str_in_iff_sublist: "str_in x s \<longleftrightarrow> sublist x s"
  by (induction s) (simp_all add: sublist_Cons_right)

lemma is_quota_error_iff:
  "is_quota_error msg \<longleftrightarrow> (\<exists>x \<in> set quota_patterns. sublist x (lower msg))"
  by (simp add: is_quota_error_def Let_def list_ex_iff str_in_iff_sublist)

lemma with_messages_simps [simp]:
  "construct (with_messages f env) = construct env"
  "operate (with_messages f env) inst content =
     (case operate env inst content of Inl msg \<Rightarrow> Inl (f msg) | Inr result \<Rightarrow> Inr result)"
  "markup_error (with_messages f env) = markup_error env"
  by (simp_all add: with_messages_def)

lemma with_messages_unprintable [simp]:
  "unprintable (with_messages f env) le = unprintable env le"
  by (simp add: unprintable_def split: option.splits exn.splits)

lemma same_effects_emit [simp]:
  "same_effects s t \<Longrightarrow> same_effects (emit e s) (emit e t)"
  by (simp add: same_effects_def)

lemma same_effects_refl [simp]: "same_effects s s"
  by (simp add: same_effects_def)

lemma load_loop_same:
  "same_effects s t \<Longrightarrow>
   fst (load_loop (with_messages f env) pt cfg all rest le t) = fst (load_loop env pt cfg all rest le s)
   \<and> same_effects (snd (load_loop env pt cfg all rest le s))
        (snd (load_loop (with_messages f env) pt cfg all rest le t))"
proof (induction rest arbitrary: le s t)
  case Nil
  then show ?case by simp
next
  case (Cons n rest)
  show ?case
  proof (cases "map_of PLUGIN_REGISTRY pt")
    case None
    with Cons.prems show ?thesis by (simp add: Let_def Cons.IH)
  next
    case (Some ps)
    note reg = this
    show ?thesis
    proof (cases "map_of ps n")
      case None
      with reg Cons.prems show ?thesis by (simp add: Let_def Cons.IH)
    next
      case (Some class_path)
      note cp = this
      show ?thesis
      proof (cases "construct env class_path cfg")
        case (Inl msg)
        with reg cp Cons.prems show ?thesis by (simp add: Let_def Cons.IH)
      next
        case (Inr inst)
        with reg cp Cons.prems show ?thesis
          by (simp add: Let_def same_effects_def)
      qed
    qed
  qed
qed

lemma load_same:
  assumes "same_effects s t"
  shows "fst (load (with_messages f env) pt force t) = fst (load env pt force s)
   \<and> same_effects (snd (load env pt force s)) (snd (load (with_messages f env) pt force t))"
proof -
  from assms have c: "cache t = cache s" and st: "settings t = settings s"
    by (simp_all add: same_effects_def)
  have fresh: "fst (load_fresh (with_messages f env) pt t) = fst (load_fresh env pt s)
   \<and> same_effects (snd (load_fresh env pt s)) (snd (load_fresh (with_messages f env) pt t))"
  proof (cases "settings s pt")
    case None
    with st assms show ?thesis by (simp add: load_fresh_def Let_def)
  next
    case (Some cfg)
    from assms have "same_effects (emit (LoadingPlugin pt) s) (emit (LoadingPlugin pt) t)"
      by simp
    from load_loop_same [OF this] Some st show ?thesis
      by (simp add: load_fresh_def Let_def)
  qed
  show ?thesis
  proof (cases "cache s pt")
    case None
    with c fresh show ?thesis by (simp add: load_def)
  next
    case (Some inst)
    with c fresh assms show ?thesis by (simp add: load_def)
  qed
qed

lemma load_primary_same:
  assumes "same_effects s t"
  shows "fst (load_primary (with_messages f env) w t) = fst (load_primary env w s)
   \<and> same_effects (snd (load_primary env w s)) (snd (load_primary (with_messages f env) w t))"
proof -
  obtain x s1 where l: "load env ''ai'' False s = (x, s1)" by (cases "load env ''ai'' False s")
  obtain y t1 where l': "load (with_messages f env) ''ai'' False t = (y, t1)"
    by (cases "load (with_messages f env) ''ai'' False t")
  from load_same [OF assms, of f env "''ai''" False] l l'
  have xy: "y = x" and r: "same_effects s1 t1" by simp_all
  show ?thesis
  proof (cases x)
    case (Inl e)
    with l l' xy r show ?thesis by (simp add: load_primary_def)
  next
    case (Inr p)
    with l l' xy r show ?thesis by (simp add: load_primary_def)
  qed
qed

lemma load_fallback_same:
  assumes "same_effects s t"
  shows "fst (load_fallback (with_messages f env) n w t) = fst (load_fallback env n w s)
   \<and> fst (snd (load_fallback (with_messages f env) n w t)) = fst (snd (load_fallback env n w s))
   \<and> same_effects (snd (snd (load_fallback env n w s)))
        (snd (snd (load_fallback (with_messages f env) n w t)))"
proof -
  from assms have c: "cache t = cache s" and st: "settings t = settings s"
    by (simp_all add: same_effects_def)
  let ?s1 = "s\<lparr>cache := (cache s)(''ai'' := None)\<rparr>"
  let ?t1 = "t\<lparr>cache := (cache t)(''ai'' := None)\<rparr>"
  from assms have r1: "same_effects ?s1 ?t1" by (simp add: same_effects_def)
  show ?thesis
  proof (cases "settings_stale w")
    case None
    note stale = this
    show ?thesis
    proof (cases "settings s ''ai''")
      case None
      with st stale r1 show ?thesis
        by (simp add: load_fallback_def Let_def)
    next
      case (Some ai)
      let ?s2 = "s\<lparr>cache := (cache s)(''ai'' := None),
                   settings := (settings s)(''ai'' \<mapsto> ai\<lparr>provider := n\<rparr>)\<rparr>"
      let ?t2 = "t\<lparr>cache := (cache t)(''ai'' := None),
                   settings := (settings t)(''ai'' \<mapsto> ai\<lparr>provider := n\<rparr>)\<rparr>"
      from assms have r2: "same_effects ?s2 ?t2" by (simp add: same_effects_def)
      obtain x s3 where l: "load env ''ai'' True ?s2 = (x, s3)" by (cases "load env ''ai'' True ?s2")
      obtain y t3 where l': "load (with_messages f env) ''ai'' True ?t2 = (y, t3)"
        by (cases "load (with_messages f env) ''ai'' True ?t2")
      from load_same [OF r2, of f env "''ai''" True] l l'
      have xy: "y = x" and r: "same_effects s3 t3" by simp_all
      from r have st3: "settings t3 = settings s3" by (simp add: same_effects_def)
      show ?thesis
      proof (cases x)
        case (Inl e)
        with Some stale st l l' xy r show ?thesis by (simp add: load_fallback_def Let_def)
      next
        case (Inr p)
        from r st3 have "same_effects
            (emit (SwitchedToFallback n)
               (s3\<lparr>settings := (settings s3)(''ai'' \<mapsto> ai\<lparr>provider := provider ai\<rparr>)\<rparr>))
            (emit (SwitchedToFallback n)
               (t3\<lparr>settings := (settings t3)(''ai'' \<mapsto> ai\<lparr>provider := provider ai\<rparr>)\<rparr>))"
          by (simp add: same_effects_def)
        with Inr Some stale st l l' xy show ?thesis by (simp add: load_fallback_def Let_def)
      qed
    qed
  next
    case (Some own)
    note stale = this
    show ?thesis
    proof (cases "own ''ai''")
      case None
      with stale r1 show ?thesis
        by (simp add: load_fallback_def Let_def)
    next
      case (Some ai)
      obtain x s3 where l: "load env ''ai'' True ?s1 = (x, s3)" by (cases "load env ''ai'' True ?s1")
      obtain y t3 where l': "load (with_messages f env) ''ai'' True ?t1 = (y, t3)"
        by (cases "load (with_messages f env) ''ai'' True ?t1")
      from load_same [OF r1, of f env "''ai''" True] l l'
      have xy: "y = x" and r: "same_effects s3 t3" by simp_all
      show ?thesis
      proof (cases x)
        case (Inl e)
        with Some stale l l' xy r show ?thesis by (simp add: load_fallback_def Let_def)
      next
        case (Inr p)
        with Some stale l l' xy r show ?thesis by (simp add: load_fallback_def Let_def)
      qed
    qed
  qed
qed

lemma ensure_loaded_same:
  assumes "same_effects s t"
  shows "fst (ensure_loaded (with_messages f env) n w t) = fst (ensure_loaded env n w s)
   \<and> fst (snd (ensure_loaded (with_messages f env) n w t)) = fst (snd (ensure_loaded env n w s))
   \<and> same_effects (snd (snd (ensure_loaded env n w s)))
        (snd (snd (ensure_loaded (with_messages f env) n w t)))"
proof -
  consider (same) "current_provider_name w = Some n"
    | (prim) "current_provider_name w \<noteq> Some n" "n = primary_provider_name w"
    | (fb) "current_provider_name w \<noteq> Some n" "n \<noteq> primary_provider_name w"
    by blast
  then show ?thesis
  proof cases
    case same
    with assms show ?thesis by (simp add: ensure_loaded_def)
  next
    case prim
    with load_primary_same [OF assms, of f env w] show ?thesis
      by (simp add: ensure_loaded_def split: prod.splits)
  next
    case fb
    with load_fallback_same [OF assms, of f env n w] show ?thesis
      by (simp add: ensure_loaded_def)
  qed
qed

lemma attempt_provider_same:
  assumes "same_effects s t"
  shows "fst (attempt_provider (with_messages f env) content n w t) =
           (case fst (attempt_provider env content n w s) of
              Raised msg \<Rightarrow> Raised (f msg) | Returned r \<Rightarrow> Returned r | Skipped \<Rightarrow> Skipped)
   \<and> fst (snd (attempt_provider (with_messages f env) content n w t)) =
       fst (snd (attempt_provider env content n w s))
   \<and> same_effects (snd (snd (attempt_provider env content n w s)))
        (snd (snd (attempt_provider (with_messages f env) content n w t)))"
proof -
  obtain b w1 s1 where el: "ensure_loaded env n w s = (b, w1, s1)"
    by (cases "ensure_loaded env n w s") auto
  obtain b' w1' t1 where el': "ensure_loaded (with_messages f env) n w t = (b', w1', t1)"
    by (cases "ensure_loaded (with_messages f env) n w t") auto
  from ensure_loaded_same [OF assms, of f env n w] el el'
  have eq: "b' = b" "w1' = w1" and r: "same_effects s1 t1" by simp_all
  from r have g: "generating_of (log t1) = generating_of (log s1)"
    "attempts_of (log t1) = attempts_of (log s1)" "imports_of (log t1) = imports_of (log s1)"
    "cache t1 = cache s1" "settings t1 = settings s1"
    by (simp_all add: same_effects_def)
  show ?thesis
    unfolding attempt_provider_unfold [OF el] attempt_provider_unfold [OF el' [unfolded eq]]
    using g
    by (cases b; cases "current_provider w1"; cases "operate env (the (current_provider w1)) content")
       (simp_all add: same_effects_def)
qed

text \<open>
  How the results of two runs compare when the messages of the second are those of the
  first rewritten by \<open>f\<close>: the same result, or the same list of tried providers with the
  last error rewritten, each replaced by the \<^verbatim>\<open>MarkupError\<close> of the console when
  its own text cannot be printed.
\<close>

lemma try_providers_same:
  "same_effects s t \<Longrightarrow>
   (case fst (try_providers env content rest tried le w s) of
      Inr r \<Rightarrow>
        fst (try_providers (with_messages f env) content rest tried
               (map_option (rename_message f) le) w t) = Inr r
    | Inl e \<Rightarrow>
        (\<exists>tried' le'.
           e = (if unprintable env le' then MarkupError else AllFailed tried' le')
           \<and> fst (try_providers (with_messages f env) content rest tried
                    (map_option (rename_message f) le) w t) =
               Inl (if unprintable env (map_option (rename_message f) le') then MarkupError
                    else AllFailed tried' (map_option (rename_message f) le'))))
   \<and> fst (snd (try_providers (with_messages f env) content rest tried
          (map_option (rename_message f) le) w t)) =
       fst (snd (try_providers env content rest tried le w s))
   \<and> same_effects (snd (snd (try_providers env content rest tried le w s)))
        (snd (snd (try_providers (with_messages f env) content rest tried
          (map_option (rename_message f) le) w t)))"
proof (induction rest arbitrary: tried le w s t)
  case Nil
  let ?le = "map_option (rename_message f) le"
  have 1: "fst (try_providers env content [] tried le w s) =
      Inl (if unprintable env le then MarkupError else AllFailed tried le)" by simp
  have 2: "fst (try_providers (with_messages f env) content [] tried ?le w t) =
      Inl (if unprintable env ?le then MarkupError else AllFailed tried ?le)" by simp
  have 3: "fst (snd (try_providers (with_messages f env) content [] tried ?le w t)) =
       fst (snd (try_providers env content [] tried le w s))" by simp
  from Nil have 4: "same_effects (snd (snd (try_providers env content [] tried le w s)))
        (snd (snd (try_providers (with_messages f env) content [] tried ?le w t)))"
    by (simp add: same_effects_def)
  show ?case
  proof (intro conjI)
    show "case fst (try_providers env content [] tried le w s) of
      Inr r \<Rightarrow> fst (try_providers (with_messages f env) content [] tried ?le w t) = Inr r
    | Inl e \<Rightarrow>
        (\<exists>tried' le'.
           e = (if unprintable env le' then MarkupError else AllFailed tried' le')
           \<and> fst (try_providers (with_messages f env) content [] tried ?le w t) =
               Inl (if unprintable env (map_option (rename_message f) le') then MarkupError
                    else AllFailed tried' (map_option (rename_message f) le')))"
      unfolding 1 2 sum.case by (intro exI [of _ tried] exI [of _ le] conjI refl)
    from 3 show "fst (snd (try_providers (with_messages f env) content [] tried ?le w t)) =
       fst (snd (try_providers env content [] tried le w s))" .
    from 4 show "same_effects (snd (snd (try_providers env content [] tried le w s)))
        (snd (snd (try_providers (with_messages f env) content [] tried ?le w t)))" .
  qed
next
  case (Cons n rest)
  obtain out w1 s1 where ap: "attempt_provider env content n w s = (out, w1, s1)"
    by (cases "attempt_provider env content n w s") auto
  obtain out' w1' t1 where ap': "attempt_provider (with_messages f env) content n w t = (out', w1', t1)"
    by (cases "attempt_provider (with_messages f env) content n w t") auto
  from attempt_provider_same [OF Cons.prems, of f env content n w] ap ap'
  have o: "out' = (case out of Raised msg \<Rightarrow> Raised (f msg) | Returned r \<Rightarrow> Returned r
                   | Skipped \<Rightarrow> Skipped)"
    and w: "w1' = w1" and r: "same_effects s1 t1" by simp_all
  show ?case
  proof (cases out)
    case (Returned res)
    with ap have s1: "try_providers env content (n # rest) tried le w s = (Inr res, w1, s1)"
      by simp
    from ap' o w Returned
    have s2: "try_providers (with_messages f env) content (n # rest) tried
                (map_option (rename_message f) le) w t = (Inr res, w1, t1)"
      by simp
    from r show ?thesis unfolding s1 s2 by simp
  next
    case (Raised msg)
    with ap have s1: "try_providers env content (n # rest) tried le w s =
        try_providers env content rest (tried @ [n]) (Some (ProviderError msg)) w1 s1"
      by simp
    have m: "map_option (rename_message f) (Some (ProviderError msg)) =
        Some (ProviderError (f msg))" by (simp add: rename_message_def)
    from ap' o w Raised
    have s2: "try_providers (with_messages f env) content (n # rest) tried
                (map_option (rename_message f) le) w t =
        try_providers (with_messages f env) content rest (tried @ [n])
          (map_option (rename_message f) (Some (ProviderError msg))) w1 t1"
      unfolding m by simp
    show ?thesis unfolding s1 s2
      by (rule Cons.IH [OF r, of "tried @ [n]" "Some (ProviderError msg)" w1])
  next
    case Skipped
    with ap have s1: "try_providers env content (n # rest) tried le w s =
        try_providers env content rest tried le w1 s1"
      by simp
    from ap' o w Skipped
    have s2: "try_providers (with_messages f env) content (n # rest) tried
                (map_option (rename_message f) le) w t =
        try_providers (with_messages f env) content rest tried
          (map_option (rename_message f) le) w1 t1"
      by simp
    show ?thesis unfolding s1 s2 by (rule Cons.IH [OF r, of tried le w1])
  qed
qed

lemma rename_keeps_printable:
  assumes "\<forall>m. markup_error env (f m) = markup_error env m"
  shows "unprintable env (map_option (rename_message f) le) = unprintable env le"
proof (cases le)
  case None
  then show ?thesis by simp
next
  case (Some e)
  with assms show ?thesis by (cases e) (simp_all add: rename_message_def unprintable_def)
qed

text \<open>
  C6, as amended. The classification is a total function of the message: an error is a
  quota error exactly when its lower-cased message contains one of the six patterns
  \<^verbatim>\<open>quota\<close>, \<^verbatim>\<open>rate limit\<close>, \<^verbatim>\<open>429\<close>, \<^verbatim>\<open>too many requests\<close>,
  \<^verbatim>\<open>resource_exhausted\<close>, \<^verbatim>\<open>exceeded\<close>. It only chooses the log line: however
  the error messages of the operations are rewritten, and so whatever their
  classification becomes, \<^verbatim>\<open>generate_script\<close> succeeds or fails alike, returns the
  same result when it succeeds, and leaves the same wrapper, cache, settings and
  attempts. When it fails, and the rewriting does not change which messages the console
  can print, the error lists the same tried providers, with the last error rewritten.
\<close>

theorem classification_only_chooses_the_log_line:
  "(is_quota_error msg \<longleftrightarrow> (\<exists>x \<in> set quota_patterns. sublist x (lower msg)))
   \<and> (case fst (generate_script env w s content) of
        Inr r \<Rightarrow> fst (generate_script (with_messages f env) w s content) = Inr r
      | Inl e \<Rightarrow> isl (fst (generate_script (with_messages f env) w s content)))
   \<and> ((\<forall>m. markup_error env (f m) = markup_error env m) \<longrightarrow>
        fst (generate_script (with_messages f env) w s content) =
          (case fst (generate_script env w s content) of
             Inl e \<Rightarrow> Inl (rename_last_error f e) | Inr r \<Rightarrow> Inr r))
   \<and> fst (snd (generate_script (with_messages f env) w s content)) =
       fst (snd (generate_script env w s content))
   \<and> same_effects (snd (snd (generate_script env w s content)))
        (snd (snd (generate_script (with_messages f env) w s content)))"
proof -
  note t = try_providers_same [where s = s and t = s and f = f and env = env
      and content = content and rest = "providers_to_try w" and tried = "[]" and le = None
      and w = w, OF same_effects_refl, unfolded option.map, folded generate_script_def]
  from t have 1: "case fst (generate_script env w s content) of
        Inr r \<Rightarrow> fst (generate_script (with_messages f env) w s content) = Inr r
      | Inl e \<Rightarrow> isl (fst (generate_script (with_messages f env) w s content))"
    by (cases "fst (generate_script env w s content)") auto
  have 2: "fst (generate_script (with_messages f env) w s content) =
          (case fst (generate_script env w s content) of
             Inl e \<Rightarrow> Inl (rename_last_error f e) | Inr r \<Rightarrow> Inr r)"
    if p: "\<forall>m. markup_error env (f m) = markup_error env m"
  proof (cases "fst (generate_script env w s content)")
    case (Inr r)
    with t show ?thesis by simp
  next
    case (Inl e)
    with t obtain tried' le' where
      e: "e = (if unprintable env le' then MarkupError else AllFailed tried' le')"
      and e': "fst (generate_script (with_messages f env) w s content) =
               Inl (if unprintable env (map_option (rename_message f) le') then MarkupError
                    else AllFailed tried' (map_option (rename_message f) le'))"
      by auto
    from e e' Inl rename_keeps_printable [OF p, where le = le'] show ?thesis
      by (simp add: rename_last_error_def)
  qed
  from t have 3: "fst (snd (generate_script (with_messages f env) w s content)) =
       fst (snd (generate_script env w s content))"
    and 4: "same_effects (snd (snd (generate_script env w s content)))
        (snd (snd (generate_script (with_messages f env) w s content)))" by simp_all
  from 1 2 3 4 show ?thesis by (simp add: is_quota_error_iff)
qed

text \<open>
  C6, in the scenario of the specification, with the rate-limit message of
  \<^verbatim>\<open>groq\<close> rewritten to a message that is not a quota error.
\<close>

theorem classification_witness:
  "is_quota_error ''429 Too Many Requests''
   \<and> fst (generate_script (with_messages (\<lambda>m. ''timeout'') env_spec_scenario)
          (projr (fst (wrapper_init env_spec_scenario
             (fresh_state (settings_with_ai ''openai_direct'' [''groq'', ''huggingface''])))))
          (snd (wrapper_init env_spec_scenario
             (fresh_state (settings_with_ai ''openai_direct'' [''groq'', ''huggingface'']))))
          ''content'')
       = Inr ''script by app.plugins.ai.huggingface_plugin.HuggingFaceProvider''"
proof -
  let ?i = "wrapper_init env_spec_scenario
              (fresh_state (settings_with_ai ''openai_direct'' [''groq'', ''huggingface'']))"
  note th = classification_only_chooses_the_log_line
              [where msg = "''429 Too Many Requests''" and f = "\<lambda>m. ''timeout''"
                 and env = env_spec_scenario and w = "projr (fst ?i)" and s = "snd ?i"
                 and content = "''content''"]
  have "lower ''429 Too Many Requests'' = ''429 too many requests''"
    by code_simp
  then have "lower ''429 Too Many Requests'' = [] @ ''429'' @ '' too many requests''"
    by simp
  then have "sublist ''429'' (lower ''429 Too Many Requests'')"
    unfolding sublist_def by blast
  moreover have "''429'' \<in> set quota_patterns" by (simp add: quota_patterns_def)
  ultimately have "\<exists>x \<in> set quota_patterns. sublist x (lower ''429 Too Many Requests'')"
    by blast
  with th have a: "is_quota_error ''429 Too Many Requests''" by blast
  have g: "fst (generate_script env_spec_scenario (projr (fst ?i)) (snd ?i) ''content'')
     = Inr ''script by app.plugins.ai.huggingface_plugin.HuggingFaceProvider''"
    by (simp add: ex_defs run_defs is_quota_error_def)
  have p: "\<forall>m. markup_error env_spec_scenario ((\<lambda>m. ''timeout'') m) =
               markup_error env_spec_scenario m"
    by (simp add: env_spec_scenario_def)
  from th p have "fst (generate_script (with_messages (\<lambda>m. ''timeout'') env_spec_scenario)
          (projr (fst ?i)) (snd ?i) ''content'') =
       (case fst (generate_script env_spec_scenario (projr (fst ?i)) (snd ?i) ''content'') of
          Inl e \<Rightarrow> Inl (rename_last_error (\<lambda>m. ''timeout'') e) | Inr r \<Rightarrow> Inr r)"
    by blast
  with g have b: "fst (generate_script (with_messages (\<lambda>m. ''timeout'') env_spec_scenario)
          (projr (fst ?i)) (snd ?i) ''content'')
       = Inr ''script by app.plugins.ai.huggingface_plugin.HuggingFaceProvider''"
    by simp
  from a b show ?thesis by blast
qed

text \<open>
  C6 as stated fails in both directions: a message with \<^verbatim>\<open>too many requests\<close> and
  none of the four substrings of the claim is a quota error, and a message with
  \<^verbatim>\<open>resource exhausted\<close>, written with a space, is not.
\<close>

theorem classifier_patterns_differ_from_the_four:
  "is_quota_error ''Too Many Requests'' \<and> \<not> spec_is_transient ''Too Many Requests''
   \<and> \<not> is_quota_error ''Resource exhausted'' \<and> spec_is_transient ''Resource exhausted''"
  by code_simp

end
